theory Spec2Isabelle
  imports Main "HOL-Library.Word"
begin

unbundle bit_operations_syntax

section \<open>The fx2lafw driver of libsigrok: a shallow embedding\<close>

text \<open>
  The development follows \<^verbatim>\<open>src/hardware/fx2lafw\<close>: \<^verbatim>\<open>protocol.h\<close> (constants and
  structures), \<^verbatim>\<open>dslogic_trigger.c\<close> (the DSLogic trigger table), \<^verbatim>\<open>protocol.c\<close>
  (commands, channel configuration, the transfer callbacks, buffer sizing) and
  \<^verbatim>\<open>api.c\<close> (the profile table, scan, the start of the transfers).

  C integers are modelled as follows. A \<^verbatim>\<open>uint16_t\<close> that is used bitwise is a
  \<^typ>\<open>16 word\<close>, a \<^verbatim>\<open>uint8_t\<close> a \<^typ>\<open>8 word\<close>. Counters of type \<^verbatim>\<open>int\<close> are
  \<^typ>\<open>int\<close>; \<^verbatim>\<open>unsigned int\<close>, \<^verbatim>\<open>size_t\<close> and \<^verbatim>\<open>uint64_t\<close> values are \<^typ>\<open>nat\<close>
  with the reduction modulo \<open>2 ^ 32\<close> or \<open>2 ^ 64\<close> written where the C computes in
  that width (an LP64 target: 32-bit \<^verbatim>\<open>int\<close>, 64-bit \<^verbatim>\<open>size_t\<close>).
\<close>

subsection \<open>Constants of \<^verbatim>\<open>protocol.h\<close>\<close>

definition NUM_TRIGGER_STAGES :: nat where
  "NUM_TRIGGER_STAGES = 4"

definition NUM_SIMUL_TRANSFERS :: nat where
  "NUM_SIMUL_TRANSFERS = 32"

definition MAX_EMPTY_TRANSFERS :: nat where
  "MAX_EMPTY_TRANSFERS = NUM_SIMUL_TRANSFERS * 2"

definition TRIGGER_FIRED :: int where
  "TRIGGER_FIRED = - 1"

definition DSLOGIC_TRIGGER_STAGES :: nat where
  "DSLOGIC_TRIGGER_STAGES = 16"

definition DSLOGIC_TRIGGER_PROBES :: nat where
  "DSLOGIC_TRIGGER_PROBES = 16"

text \<open>
  Modelled from the spec: the macros \<^verbatim>\<open>SR_KHZ\<close> and \<^verbatim>\<open>SR_MHZ\<close> of \<^verbatim>\<open>libsigrok.h\<close>,
  which is not among the sources. The spec reads \<^verbatim>\<open>SR_MHZ(48)\<close> as 48 MHz and
  \<^verbatim>\<open>MAX_16BIT_SAMPLE_RATE\<close> as 12 MHz, in Hz.
\<close>

definition SR_KHZ :: "nat \<Rightarrow> nat" where
  "SR_KHZ n = n * 1000"

definition SR_MHZ :: "nat \<Rightarrow> nat" where
  "SR_MHZ n = n * 1000000"

definition MAX_8BIT_SAMPLE_RATE :: nat where
  "MAX_8BIT_SAMPLE_RATE = SR_MHZ 24"

definition MAX_16BIT_SAMPLE_RATE :: nat where
  "MAX_16BIT_SAMPLE_RATE = SR_MHZ 12"

definition MAX_SAMPLE_DELAY :: int where
  "MAX_SAMPLE_DELAY = 6 * 256"

text \<open>The status codes of libsigrok that the driver returns.\<close>

datatype sr_status = SR_OK | SR_ERR | SR_ERR_MALLOC

subsection \<open>The DSLogic trigger table (\<^verbatim>\<open>dslogic_trigger.c\<close>)\<close>

text \<open>
  \<^verbatim>\<open>struct ds_trigger\<close>. The arrays have \<^verbatim>\<open>DSLOGIC_TRIGGER_STAGES + 1\<close> rows; a row
  of \<^verbatim>\<open>trigger0\<close> or \<^verbatim>\<open>trigger1\<close> has \<^verbatim>\<open>DSLOGIC_TRIGGER_PROBES\<close> characters.
\<close>

record ds_trigger =
  trigger_en :: nat
  trigger_mode :: nat
  trigger_pos :: nat
  trigger_stages :: nat
  trigger_logic :: "nat list"
  trigger0_inv :: "nat list"
  trigger1_inv :: "nat list"
  trigger0 :: "char list list"
  trigger1 :: "char list list"
  trigger0_count :: "nat list"
  trigger1_count :: "nat list"

text \<open>The shape the C type gives every trigger table.\<close>

definition ds_trigger_shape :: "ds_trigger \<Rightarrow> bool" where
  "ds_trigger_shape t \<longleftrightarrow>
     length (trigger0 t) = DSLOGIC_TRIGGER_STAGES + 1 \<and>
     length (trigger1 t) = DSLOGIC_TRIGGER_STAGES + 1 \<and>
     list_all (\<lambda>row. length row = DSLOGIC_TRIGGER_PROBES) (trigger0 t) \<and>
     list_all (\<lambda>row. length row = DSLOGIC_TRIGGER_PROBES) (trigger1 t)"

definition DSLOGIC_TRIGGER_SIMPLE :: nat where
  "DSLOGIC_TRIGGER_SIMPLE = 0"

definition ds_trigger_init :: "ds_trigger \<Rightarrow> ds_trigger" where
  "ds_trigger_init t =
     t\<lparr>trigger_en := 0, trigger_mode := DSLOGIC_TRIGGER_SIMPLE, trigger_pos := 0,
       trigger_stages := 0,
       trigger_logic := replicate (DSLOGIC_TRIGGER_STAGES + 1) 1,
       trigger0_inv := replicate (DSLOGIC_TRIGGER_STAGES + 1) 0,
       trigger1_inv := replicate (DSLOGIC_TRIGGER_STAGES + 1) 0,
       trigger0 := replicate (DSLOGIC_TRIGGER_STAGES + 1)
                     (replicate DSLOGIC_TRIGGER_PROBES (CHR ''X'')),
       trigger1 := replicate (DSLOGIC_TRIGGER_STAGES + 1)
                     (replicate DSLOGIC_TRIGGER_PROBES (CHR ''X'')),
       trigger0_count := replicate (DSLOGIC_TRIGGER_STAGES + 1) 0,
       trigger1_count := replicate (DSLOGIC_TRIGGER_STAGES + 1) 0\<rparr>"

text \<open>
  \<^verbatim>\<open>ds_trigger_stage_set_value\<close>. The loop \<^verbatim>\<open>for (j = 0; j < probes; j++)\<close> is
  the recursion below on the number \<open>k\<close> of iterations still to run, so that
  \<open>j = probes - k\<close>. The two strings are read at \<^verbatim>\<open>trigger0 + j * 2\<close> and
  \<^verbatim>\<open>trigger1 + j * 2\<close>. A failed \<^verbatim>\<open>assert\<close> aborts the program: the result is
  \<open>None\<close>.
\<close>

fun stage_set_value_loop ::
  "nat \<Rightarrow> nat \<Rightarrow> string \<Rightarrow> string \<Rightarrow> nat \<Rightarrow> ds_trigger \<Rightarrow> ds_trigger" where
  "stage_set_value_loop stage probes s0 s1 0 t = t"
| "stage_set_value_loop stage probes s0 s1 (Suc k) t =
     (let j = probes - Suc k in
      stage_set_value_loop stage probes s0 s1 k
        (t\<lparr>trigger0 := (trigger0 t)[stage := (trigger0 t ! stage)[probes - j - 1 := s0 ! (j * 2)]],
           trigger1 := (trigger1 t)[stage := (trigger1 t ! stage)[probes - j - 1 := s1 ! (j * 2)]]\<rparr>))"

definition ds_trigger_stage_set_value ::
  "ds_trigger \<Rightarrow> nat \<Rightarrow> nat \<Rightarrow> string \<Rightarrow> string \<Rightarrow> (sr_status \<times> ds_trigger) option" where
  "ds_trigger_stage_set_value t stage probes s0 s1 =
     (if \<not> stage < DSLOGIC_TRIGGER_STAGES then None
      else if \<not> probes \<le> DSLOGIC_TRIGGER_PROBES then None
      else Some (SR_OK, stage_set_value_loop stage probes s0 s1 probes t))"

definition ds_trigger_probe_set ::
  "ds_trigger \<Rightarrow> nat \<Rightarrow> char \<Rightarrow> char \<Rightarrow> (sr_status \<times> ds_trigger) option" where
  "ds_trigger_probe_set t probe c0 c1 =
     (if \<not> probe < DSLOGIC_TRIGGER_PROBES then None
      else Some (SR_OK,
        t\<lparr>trigger0 := (trigger0 t)[DSLOGIC_TRIGGER_STAGES :=
                          (trigger0 t ! DSLOGIC_TRIGGER_STAGES)[probe := c0]],
          trigger1 := (trigger1 t)[DSLOGIC_TRIGGER_STAGES :=
                          (trigger1 t ! DSLOGIC_TRIGGER_STAGES)[probe := c1]]\<rparr>))"

text \<open>
  The six getters share one loop,
  \<^verbatim>\<open>for (i = DSLOGIC_TRIGGER_PROBES - 1; i >= 0; i--) { w = (w << 1); w += (...); }\<close>
  on a \<^verbatim>\<open>uint64_t\<close>; they differ in the row they read and in the characters that
  add a 1. \<open>trigger_word f row n w\<close> runs the iterations \<open>i = n - 1, ..., 0\<close>.
\<close>

fun trigger_word :: "(char \<Rightarrow> bool) \<Rightarrow> char list \<Rightarrow> nat \<Rightarrow> 64 word \<Rightarrow> 64 word" where
  "trigger_word f row 0 w = w"
| "trigger_word f row (Suc i) w = trigger_word f row i (push_bit 1 w + of_bool (f (row ! i)))"

definition ds_trigger_get_mask0 :: "ds_trigger \<Rightarrow> nat \<Rightarrow> 64 word option" where
  "ds_trigger_get_mask0 t stage =
     (if \<not> stage \<le> DSLOGIC_TRIGGER_STAGES then None
      else Some (trigger_word (\<lambda>c. c = CHR ''X'' \<or> c = CHR ''C'')
                   (trigger0 t ! stage) DSLOGIC_TRIGGER_PROBES 0))"

definition ds_trigger_get_mask1 :: "ds_trigger \<Rightarrow> nat \<Rightarrow> 64 word option" where
  "ds_trigger_get_mask1 t stage =
     (if \<not> stage \<le> DSLOGIC_TRIGGER_STAGES then None
      else Some (trigger_word (\<lambda>c. c = CHR ''X'' \<or> c = CHR ''C'')
                   (trigger1 t ! stage) DSLOGIC_TRIGGER_PROBES 0))"

definition ds_trigger_get_value0 :: "ds_trigger \<Rightarrow> nat \<Rightarrow> 64 word option" where
  "ds_trigger_get_value0 t stage =
     (if \<not> stage \<le> DSLOGIC_TRIGGER_STAGES then None
      else Some (trigger_word (\<lambda>c. c = CHR ''1'' \<or> c = CHR ''R'')
                   (trigger0 t ! stage) DSLOGIC_TRIGGER_PROBES 0))"

definition ds_trigger_get_value1 :: "ds_trigger \<Rightarrow> nat \<Rightarrow> 64 word option" where
  "ds_trigger_get_value1 t stage =
     (if \<not> stage \<le> DSLOGIC_TRIGGER_STAGES then None
      else Some (trigger_word (\<lambda>c. c = CHR ''1'' \<or> c = CHR ''R'')
                   (trigger1 t ! stage) DSLOGIC_TRIGGER_PROBES 0))"

definition ds_trigger_get_edge0 :: "ds_trigger \<Rightarrow> nat \<Rightarrow> 64 word option" where
  "ds_trigger_get_edge0 t stage =
     (if \<not> stage \<le> DSLOGIC_TRIGGER_STAGES then None
      else Some (trigger_word (\<lambda>c. c = CHR ''R'' \<or> c = CHR ''F'' \<or> c = CHR ''C'')
                   (trigger0 t ! stage) DSLOGIC_TRIGGER_PROBES 0))"

definition ds_trigger_get_edge1 :: "ds_trigger \<Rightarrow> nat \<Rightarrow> 64 word option" where
  "ds_trigger_get_edge1 t stage =
     (if \<not> stage \<le> DSLOGIC_TRIGGER_STAGES then None
      else Some (trigger_word (\<lambda>c. c = CHR ''R'' \<or> c = CHR ''F'' \<or> c = CHR ''C'')
                   (trigger1 t ! stage) DSLOGIC_TRIGGER_PROBES 0))"

subsection \<open>The profile table and its lookup in \<^verbatim>\<open>scan\<close> (\<^verbatim>\<open>api.c\<close>)\<close>

text \<open>
  \<^verbatim>\<open>struct fx2lafw_profile\<close>. A \<^verbatim>\<open>const char *\<close> is a \<^typ>\<open>string option\<close>, \<open>None\<close>
  for \<^verbatim>\<open>NULL\<close>. \<^verbatim>\<open>FIRMWARE_DIR\<close> is set when the library is built: the table takes
  it as a parameter. The last entry of the table is the all-zero sentinel that ends
  the loop of \<^verbatim>\<open>scan\<close>.

  Throughout, a function whose C code can stop the program (a failed \<^verbatim>\<open>assert\<close>, a
  division by zero, \<^verbatim>\<open>strcmp\<close> on \<^verbatim>\<open>NULL\<close>) returns an \<open>option\<close>, and \<open>None\<close> is that
  stop.
\<close>

record fx2lafw_profile =
  vid :: nat
  pid :: nat
  vendor :: "string option"
  model :: "string option"
  model_version :: "string option"
  firmware :: "string option"
  dev_caps :: nat
  usb_manufacturer :: "string option"
  usb_product :: "string option"

definition DEV_CAPS_16BIT :: nat where
  "DEV_CAPS_16BIT = push_bit 0 1"

definition supported_fx2 :: "string \<Rightarrow> fx2lafw_profile list" where
  "supported_fx2 firmware_dir =
   [\<lparr>vid = 0x08a9, pid = 0x0014, vendor = Some ''CWAV'', model = Some ''USBee AX'',
     model_version = None,
     firmware = Some (firmware_dir @ ''/fx2lafw-cwav-usbeeax.fw''),
     dev_caps = 0, usb_manufacturer = None, usb_product = None\<rparr>,
    \<lparr>vid = 0x08a9, pid = 0x0015, vendor = Some ''CWAV'', model = Some ''USBee DX'',
     model_version = None,
     firmware = Some (firmware_dir @ ''/fx2lafw-cwav-usbeedx.fw''),
     dev_caps = DEV_CAPS_16BIT, usb_manufacturer = None, usb_product = None\<rparr>,
    \<lparr>vid = 0x08a9, pid = 0x0009, vendor = Some ''CWAV'', model = Some ''USBee SX'',
     model_version = None,
     firmware = Some (firmware_dir @ ''/fx2lafw-cwav-usbeesx.fw''),
     dev_caps = 0, usb_manufacturer = None, usb_product = None\<rparr>,
    \<lparr>vid = 0x2A0E, pid = 0x0001, vendor = Some ''DreamSourceLab'', model = Some ''DSLogic'',
     model_version = None,
     firmware = Some (firmware_dir @ ''/dreamsourcelab-dslogic-fx2.fw''),
     dev_caps = DEV_CAPS_16BIT, usb_manufacturer = None, usb_product = None\<rparr>,
    \<lparr>vid = 0x0925, pid = 0x3881, vendor = Some ''DreamSourceLab'', model = Some ''DSLogic'',
     model_version = None,
     firmware = Some (firmware_dir @ ''/dreamsourcelab-dslogic-fx2.fw''),
     dev_caps = DEV_CAPS_16BIT, usb_manufacturer = Some ''DreamSourceLab'',
     usb_product = Some ''DSLogic''\<rparr>,
    \<lparr>vid = 0x0925, pid = 0x3881, vendor = Some ''Saleae'', model = Some ''Logic'',
     model_version = None,
     firmware = Some (firmware_dir @ ''/fx2lafw-saleae-logic.fw''),
     dev_caps = 0, usb_manufacturer = None, usb_product = None\<rparr>,
    \<lparr>vid = 0x04B4, pid = 0x8613, vendor = Some ''Cypress'', model = Some ''FX2'',
     model_version = None,
     firmware = Some (firmware_dir @ ''/fx2lafw-cypress-fx2.fw''),
     dev_caps = DEV_CAPS_16BIT, usb_manufacturer = None, usb_product = None\<rparr>,
    \<lparr>vid = 0x16d0, pid = 0x0498, vendor = Some ''Braintechnology'', model = Some ''USB-LPS'',
     model_version = None,
     firmware = Some (firmware_dir @ ''/fx2lafw-braintechnology-usb-lps.fw''),
     dev_caps = DEV_CAPS_16BIT, usb_manufacturer = None, usb_product = None\<rparr>,
    \<lparr>vid = 0, pid = 0, vendor = None, model = None, model_version = None,
     firmware = None, dev_caps = 0, usb_manufacturer = None, usb_product = None\<rparr>]"

text \<open>The fields of \<^verbatim>\<open>struct libusb_device_descriptor\<close> that \<^verbatim>\<open>scan\<close> reads.\<close>

record libusb_device_descriptor =
  idVendor :: nat
  idProduct :: nat
  iManufacturer :: nat
  iProduct :: nat

text \<open>
  The loop \<^verbatim>\<open>for (j = 0; supported_fx2[j].vid; j++)\<close> of \<^verbatim>\<open>scan\<close> with its \<^verbatim>\<open>break\<close>.
  The condition is the C conjunction, evaluated left to right: \<^verbatim>\<open>strcmp\<close> on the
  product runs only when the profile has a manufacturer string and the device's
  manufacturer equals it; a profile with a manufacturer and no product string
  would pass \<^verbatim>\<open>NULL\<close> to \<^verbatim>\<open>strcmp\<close> there. \<^verbatim>\<open>strcmp\<close> returns 0 exactly on equal
  strings. A table without the sentinel is read past its end.
\<close>

fun scan_profile_loop ::
  "fx2lafw_profile list \<Rightarrow> libusb_device_descriptor \<Rightarrow> string \<Rightarrow> string \<Rightarrow>
   fx2lafw_profile option option" where
  "scan_profile_loop [] des manufacturer product = None"
| "scan_profile_loop (p # ps) des manufacturer product =
     (if vid p = 0 then Some None
      else if idVendor des = vid p \<and> idProduct des = pid p then
        (case usb_manufacturer p of
           None \<Rightarrow> Some (Some p)
         | Some m \<Rightarrow>
             if manufacturer = m then
               (case usb_product p of
                  None \<Rightarrow> None
                | Some q \<Rightarrow>
                    if product = q then Some (Some p)
                    else scan_profile_loop ps des manufacturer product)
             else scan_profile_loop ps des manufacturer product)
      else scan_profile_loop ps des manufacturer product)"

text \<open>
  What \<^verbatim>\<open>scan\<close> learns of one enumerated device from libusb: its bus and address,
  its descriptor (\<open>None\<close> when \<^verbatim>\<open>libusb_get_device_descriptor\<close> fails), whether
  \<^verbatim>\<open>libusb_open\<close> succeeds, and the two string descriptors (\<open>None\<close> when
  \<^verbatim>\<open>libusb_get_string_descriptor_ascii\<close> fails).
\<close>

record usb_dev =
  dev_bus :: nat
  dev_address :: nat
  dev_descriptor :: "libusb_device_descriptor option"
  dev_open_ok :: bool
  dev_manufacturer :: "string option"
  dev_product :: "string option"

text \<open>
  One iteration of the device loop of \<^verbatim>\<open>scan\<close>, up to \<^verbatim>\<open>if (!prof) continue;\<close>.
  \<open>Some None\<close> is \<^verbatim>\<open>continue\<close> (the device is skipped); \<open>Some (Some p)\<close> is the profile
  the device instance is then built from. \<open>conn_devices\<close> is \<open>None\<close> when no
  \<^verbatim>\<open>SR_CONF_CONN\<close> option was given.
\<close>

definition scan_device ::
  "fx2lafw_profile list \<Rightarrow> (nat \<times> nat) list option \<Rightarrow> usb_dev \<Rightarrow>
   fx2lafw_profile option option" where
  "scan_device table conn_devices dev =
     (if (case conn_devices of None \<Rightarrow> False
          | Some l \<Rightarrow> (dev_bus dev, dev_address dev) \<notin> set l) then Some None
      else case dev_descriptor dev of
        None \<Rightarrow> Some None
      | Some des \<Rightarrow>
          if \<not> dev_open_ok dev then Some None
          else case (if iManufacturer des = 0 then Some [] else dev_manufacturer dev) of
            None \<Rightarrow> Some None
          | Some manufacturer \<Rightarrow>
              (case (if iProduct des = 0 then Some [] else dev_product dev) of
                 None \<Rightarrow> Some None
               | Some product \<Rightarrow> scan_profile_loop table des manufacturer product))"

subsection \<open>The device context (\<^verbatim>\<open>struct dev_context\<close>) and what the driver does to the outside\<close>

datatype sr_channel_type = SR_CHANNEL_LOGIC | SR_CHANNEL_ANALOG

text \<open>\<^verbatim>\<open>struct sr_channel\<close>; the fields carry the prefix \<open>ch_\<close>.\<close>

record sr_channel =
  ch_index :: nat
  ch_type :: sr_channel_type
  ch_enabled :: bool
  ch_name :: string
  ch_trigger :: "string option"

datatype dslogic_mode_t = DSLOGIC_MODE_LOGIC | DSLOGIC_MODE_DSO | DSLOGIC_MODE_ANALOG

datatype dslogic_test_t =
  DSLOGIC_TEST_NONE | DSLOGIC_TEST_INTERNAL | DSLOGIC_TEST_EXTERNAL | DSLOGIC_TEST_LOOPBACK

datatype dslogic_status_t =
  DSLOGIC_ERROR | DSLOGIC_INIT | DSLOGIC_START | DSLOGIC_TRIGGERED | DSLOGIC_DATA | DSLOGIC_STOP

text \<open>
  The packets of the session bus. A logic packet carries \<^verbatim>\<open>unitsize\<close>, \<^verbatim>\<open>length\<close> (in
  bytes) and a data pointer: either \<^verbatim>\<open>devc->trigger_buffer\<close> (an array of
  \<^verbatim>\<open>uint16_t\<close>, given here with its contents when the packet is sent) or a position
  in the buffer of the transfer (given as the bytes from that position on). A consumer
  reads \<^verbatim>\<open>length\<close> bytes at the pointer: of \<^verbatim>\<open>trigger_buffer\<close> those are the bytes of
  its 16-bit words, two for each word, whatever \<^verbatim>\<open>unitsize\<close> says. An analog
  packet carries \<^verbatim>\<open>num_samples\<close> and such a position. The payload of a trigger packet
  is \<^verbatim>\<open>NULL\<close> or the buffer of the trigger-position transfer.
\<close>

datatype packet_data = Trigger_buffer "16 word list" | Transfer_bytes "8 word list"

datatype sr_datafeed_packet =
    SR_DF_HEADER
  | SR_DF_END
  | SR_DF_TRIGGER "8 word list option"
  | SR_DF_LOGIC nat nat packet_data
  | SR_DF_ANALOG nat packet_data

text \<open>
  The calls that leave the driver, in the order they are made: a packet sent with
  \<^verbatim>\<open>sr_session_send\<close>, \<^verbatim>\<open>libusb_cancel_transfer\<close>, the release of a transfer
  (\<^verbatim>\<open>g_free\<close> of its buffer and \<^verbatim>\<open>libusb_free_transfer\<close>), \<^verbatim>\<open>libusb_submit_transfer\<close>
  with its success, \<^verbatim>\<open>usb_source_remove\<close>, and \<^verbatim>\<open>g_free(devc->transfers)\<close>. A
  transfer is named by a number, which stands for its address.
\<close>

datatype event =
    Session_send sr_datafeed_packet
  | Cancel_transfer nat
  | Free_transfer nat
  | Submit_transfer nat bool
  | Usb_source_remove
  | Free_transfers_array

datatype libusb_transfer_status =
    LIBUSB_TRANSFER_COMPLETED
  | LIBUSB_TRANSFER_ERROR
  | LIBUSB_TRANSFER_TIMED_OUT
  | LIBUSB_TRANSFER_CANCELLED
  | LIBUSB_TRANSFER_STALL
  | LIBUSB_TRANSFER_NO_DEVICE
  | LIBUSB_TRANSFER_OVERFLOW

text \<open>\<^verbatim>\<open>struct libusb_transfer\<close> as a callback receives it.\<close>

record libusb_transfer =
  tid :: nat
  status :: libusb_transfer_status
  actual_length :: nat
  buffer :: "8 word list"

text \<open>
  \<^verbatim>\<open>struct dev_context\<close>, without the fields no modelled function reads
  (\<^verbatim>\<open>profile\<close>, \<^verbatim>\<open>fw_updated\<close>, \<^verbatim>\<open>samplerates\<close>, \<^verbatim>\<open>cb_data\<close>, \<^verbatim>\<open>ctx\<close>). \<open>transfers\<close> is
  the array \<^verbatim>\<open>devc->transfers\<close>, \<open>None\<close> for a \<^verbatim>\<open>NULL\<close> slot; it is the empty list once
  it has been released. \<open>events\<close> is the record of the calls that left the driver.
\<close>

record dev_context =
  cur_samplerate :: nat
  limit_samples :: nat
  sample_wide :: bool
  trigger_mask :: "16 word list"
  trigger_value :: "16 word list"
  trigger_stage :: int
  trigger_buffer :: "16 word list"
  num_samples :: int
  submitted_transfers :: int
  empty_transfer_count :: int
  num_transfers :: nat
  transfers :: "nat option list"
  dslogic :: bool
  dslogic_mode :: dslogic_mode_t
  dslogic_test :: dslogic_test_t
  dslogic_ext_clock :: bool
  dslogic_test_init :: nat
  dslogic_test_sample_value :: "16 word"
  dslogic_status :: dslogic_status_t
  trigger :: ds_trigger
  events :: "event list"

definition session_send :: "sr_datafeed_packet \<Rightarrow> dev_context \<Rightarrow> dev_context" where
  "session_send p devc = devc\<lparr>events := events devc @ [Session_send p]\<rparr>"

text \<open>The packets among the events, in order.\<close>

fun sent_packets :: "event list \<Rightarrow> sr_datafeed_packet list" where
  "sent_packets [] = []"
| "sent_packets (Session_send p # es) = p # sent_packets es"
| "sent_packets (e # es) = sent_packets es"

subsection \<open>\<^verbatim>\<open>fx2lafw_command_start_acquisition\<close> (\<^verbatim>\<open>protocol.c\<close>)\<close>

definition CMD_START :: nat where
  "CMD_START = 0xb1"

definition CMD_DSLOGIC_START :: nat where
  "CMD_DSLOGIC_START = 0xb2"

definition CMD_START_FLAGS_WIDE_POS :: nat where
  "CMD_START_FLAGS_WIDE_POS = 5"

definition CMD_START_FLAGS_CLK_SRC_POS :: nat where
  "CMD_START_FLAGS_CLK_SRC_POS = 6"

definition CMD_START_FLAGS_SAMPLE_8BIT :: "8 word" where
  "CMD_START_FLAGS_SAMPLE_8BIT = push_bit CMD_START_FLAGS_WIDE_POS 0"

definition CMD_START_FLAGS_SAMPLE_16BIT :: "8 word" where
  "CMD_START_FLAGS_SAMPLE_16BIT = push_bit CMD_START_FLAGS_WIDE_POS 1"

definition CMD_START_FLAGS_CLK_30MHZ :: "8 word" where
  "CMD_START_FLAGS_CLK_30MHZ = push_bit CMD_START_FLAGS_CLK_SRC_POS 0"

definition CMD_START_FLAGS_CLK_48MHZ :: "8 word" where
  "CMD_START_FLAGS_CLK_48MHZ = push_bit CMD_START_FLAGS_CLK_SRC_POS 1"

record cmd_start_acquisition =
  flags :: "8 word"
  sample_delay_h :: "8 word"
  sample_delay_l :: "8 word"

text \<open>
  The tail of the function, from \<^verbatim>\<open>cmd.sample_delay_h = ...\<close> on: the command is
  filled in and sent with \<^verbatim>\<open>libusb_control_transfer\<close>, whose return value \<open>ret\<close>
  is given by the environment. The result is the status, and the request and command
  that went out.
\<close>

definition send_start_command ::
  "dev_context \<Rightarrow> 8 word \<Rightarrow> int \<Rightarrow> int \<Rightarrow> sr_status \<times> (nat \<times> cmd_start_acquisition) option" where
  "send_start_command devc clk delay ret =
     (let cmd = \<lparr>flags = clk OR (if sample_wide devc then CMD_START_FLAGS_SAMPLE_16BIT
                                  else CMD_START_FLAGS_SAMPLE_8BIT),
                 sample_delay_h = word_of_int (drop_bit 8 delay) AND 0xff,
                 sample_delay_l = word_of_int delay AND 0xff\<rparr>;
          request = (if dslogic devc then CMD_DSLOGIC_START else CMD_START)
      in (if ret < 0 then SR_ERR else SR_OK, Some (request, cmd)))"

text \<open>
  The computation of the sample delay for an FX2 device. \<^verbatim>\<open>cmd.flags\<close> and \<^verbatim>\<open>delay\<close>
  start at 0. The quotients are computed in \<^verbatim>\<open>uint64_t\<close> and stored in an \<^verbatim>\<open>int\<close>;
  each is computed only when the sample rate divides the clock, so it lies between 1
  and the clock and the stored value is the quotient minus one. A sample rate of 0
  is a division by zero at the first \<^verbatim>\<open>%\<close>.
\<close>

definition fx2lafw_command_start_acquisition ::
  "dev_context \<Rightarrow> int \<Rightarrow> (sr_status \<times> (nat \<times> cmd_start_acquisition) option) option" where
  "fx2lafw_command_start_acquisition devc ret =
     (let samplerate = cur_samplerate devc; samplewide = sample_wide devc in
      if dslogic devc then Some (send_start_command devc CMD_START_FLAGS_CLK_30MHZ 0 ret)
      else if samplewide \<and> samplerate > MAX_16BIT_SAMPLE_RATE then Some (SR_ERR, None)
      else if samplerate = 0 then None
      else
        let (flags1, delay1) =
              (if SR_MHZ 48 mod samplerate = 0 then
                 (CMD_START_FLAGS_CLK_48MHZ,
                  let delay = int (SR_MHZ 48 div samplerate) - 1 in
                  if delay > MAX_SAMPLE_DELAY then 0 else delay)
               else (0, 0));
            (flags2, delay2) =
              (if delay1 = 0 \<and> SR_MHZ 30 mod samplerate = 0 then
                 (CMD_START_FLAGS_CLK_30MHZ, int (SR_MHZ 30 div samplerate) - 1)
               else (flags1, delay1))
        in if delay2 \<le> 0 \<or> delay2 > MAX_SAMPLE_DELAY then Some (SR_ERR, None)
           else Some (send_start_command devc flags2 delay2 ret))"

text \<open>
  The selection as the specification words it: the 48 MHz clock when the sample rate
  divides 48 MHz and the delay is at most \<^verbatim>\<open>MAX_SAMPLE_DELAY\<close>, else the 30 MHz clock
  when the sample rate divides 30 MHz, else none.
\<close>

definition spec_clock_choice :: "nat \<Rightarrow> (nat \<times> int) option" where
  "spec_clock_choice samplerate =
     (if SR_MHZ 48 mod samplerate = 0 \<and> int (SR_MHZ 48 div samplerate) - 1 \<le> MAX_SAMPLE_DELAY
      then Some (48, int (SR_MHZ 48 div samplerate) - 1)
      else if SR_MHZ 30 mod samplerate = 0
      then Some (30, int (SR_MHZ 30 div samplerate) - 1)
      else None)"

subsection \<open>\<^verbatim>\<open>fx2lafw_configure_channels\<close> (\<^verbatim>\<open>protocol.c\<close>)\<close>

text \<open>
  The first loop, \<^verbatim>\<open>for (i = 0; i < NUM_TRIGGER_STAGES; i++)\<close>, with \<open>k\<close> iterations
  still to run.
\<close>

fun clear_triggers :: "nat \<Rightarrow> dev_context \<Rightarrow> dev_context" where
  "clear_triggers 0 devc = devc"
| "clear_triggers (Suc k) devc =
     (let i = NUM_TRIGGER_STAGES - Suc k in
      clear_triggers k
        (devc\<lparr>trigger_mask := (trigger_mask devc)[i := 0],
              trigger_value := (trigger_value devc)[i := 0]\<rparr>))"

text \<open>
  How the loops of \<^verbatim>\<open>fx2lafw_configure_channels\<close> and the function itself leave: they
  run to their end (\<^verbatim>\<open>SR_OK\<close> for the function), they return \<^verbatim>\<open>SR_ERR\<close>, or they store
  past the end of \<^verbatim>\<open>trigger_mask\<close> and \<^verbatim>\<open>trigger_value\<close>, arrays of
  \<^verbatim>\<open>NUM_TRIGGER_STAGES\<close> words each, where C leaves the behaviour undefined (in the
  layout of \<^verbatim>\<open>struct dev_context\<close> the words after them are \<^verbatim>\<open>trigger_value[0]\<close> and
  \<^verbatim>\<open>trigger_stage\<close>).
\<close>

datatype 'a configure_outcome = Configured 'a | Returns_SR_ERR | Store_past_array

text \<open>
  The loop over the characters of one trigger string,
  \<^verbatim>\<open>for (tc = ch->trigger; *tc; tc++)\<close>. Each character stores at index \<^verbatim>\<open>stage\<close>
  first; \<^verbatim>\<open>stage\<close> is incremented and compared with \<^verbatim>\<open>NUM_TRIGGER_STAGES\<close> only after
  that, and with \<^verbatim>\<open>>\<close>, so the fifth character of a string stores at index 4
  before \<^verbatim>\<open>return SR_ERR\<close> can be reached.
\<close>

fun configure_trigger_chars ::
  "16 word \<Rightarrow> string \<Rightarrow> nat \<Rightarrow> dev_context \<Rightarrow> (dev_context \<times> nat) configure_outcome" where
  "configure_trigger_chars channel_bit [] stage devc = Configured (devc, stage)"
| "configure_trigger_chars channel_bit (tc # tcs) stage devc =
     (if stage \<ge> NUM_TRIGGER_STAGES then Store_past_array
      else
        let d1 = devc\<lparr>trigger_mask :=
                   (trigger_mask devc)[stage := trigger_mask devc ! stage OR channel_bit]\<rparr>;
            d2 = (if tc = CHR ''1''
                  then d1\<lparr>trigger_value :=
                           (trigger_value d1)[stage := trigger_value d1 ! stage OR channel_bit]\<rparr>
                  else d1);
            stage' = stage + 1
        in if stage' > NUM_TRIGGER_STAGES then Returns_SR_ERR
           else configure_trigger_chars channel_bit tcs stage' d2)"

text \<open>
  The loop over the channels, \<^verbatim>\<open>for (l = sdi->channels; l; l = l->next)\<close>, threading
  the local \<^verbatim>\<open>stage\<close>. \<^verbatim>\<open>channel_bit = 1 << (ch->index)\<close> is stored into
  \<^verbatim>\<open>uint16_t\<close> words.
\<close>

fun configure_channel_loop ::
  "sr_channel list \<Rightarrow> int \<Rightarrow> dev_context \<Rightarrow> (dev_context \<times> int) configure_outcome" where
  "configure_channel_loop [] stage devc = Configured (devc, stage)"
| "configure_channel_loop (ch # chs) stage devc =
     (if \<not> ch_enabled ch then configure_channel_loop chs stage devc
      else
        let d1 = (if dslogic devc then
                    (if (ch_index ch > 7 \<and> ch_type ch = SR_CHANNEL_LOGIC) \<or>
                        (ch_index ch > 0 \<and> ch_type ch = SR_CHANNEL_ANALOG)
                     then devc\<lparr>sample_wide := True\<rparr>
                     else devc\<lparr>sample_wide := False\<rparr>)
                  else (if ch_index ch > 7 then devc\<lparr>sample_wide := True\<rparr> else devc));
            channel_bit = (push_bit (ch_index ch) 1 :: 16 word)
        in case ch_trigger ch of
             None \<Rightarrow> configure_channel_loop chs stage d1
           | Some tcs \<Rightarrow>
               (case configure_trigger_chars channel_bit tcs 0 d1 of
                  Configured (d2, stage') \<Rightarrow> configure_channel_loop chs (int stage') d2
                | Returns_SR_ERR \<Rightarrow> Returns_SR_ERR
                | Store_past_array \<Rightarrow> Store_past_array))"

text \<open>\<open>Configured devc\<close> is the return of \<^verbatim>\<open>SR_OK\<close> with the context left.\<close>

definition fx2lafw_configure_channels ::
  "dev_context \<Rightarrow> sr_channel list \<Rightarrow> dev_context configure_outcome" where
  "fx2lafw_configure_channels devc channels =
     (case configure_channel_loop channels (- 1) (clear_triggers NUM_TRIGGER_STAGES devc) of
        Configured (d, stage) \<Rightarrow>
          Configured (if stage = - 1 then d\<lparr>trigger_stage := TRIGGER_FIRED\<rparr>
                      else d\<lparr>trigger_stage := 0\<rparr>)
      | Returns_SR_ERR \<Rightarrow> Returns_SR_ERR
      | Store_past_array \<Rightarrow> Store_past_array)"

subsection \<open>Buffer sizing (\<^verbatim>\<open>protocol.c\<close>)\<close>

text \<open>
  \<^verbatim>\<open>to_bytes_per_ms\<close> computes in \<^verbatim>\<open>uint64_t\<close> and returns an \<^verbatim>\<open>unsigned int\<close>.
  \<^verbatim>\<open>fx2lafw_get_buffer_size\<close> multiplies in \<^verbatim>\<open>unsigned int\<close> and rounds in \<^verbatim>\<open>size_t\<close>,
  where \<^verbatim>\<open>~511\<close> is \<open>2 ^ 64 - 512\<close>. \<^verbatim>\<open>fx2lafw_get_number_of_transfers\<close> multiplies in
  \<^verbatim>\<open>unsigned int\<close>, divides in \<^verbatim>\<open>size_t\<close> (by zero when the buffer size is 0) and
  stores the quotient in an \<^verbatim>\<open>unsigned int\<close>. \<^verbatim>\<open>fx2lafw_get_timeout\<close> calls both
  before it divides by \<^verbatim>\<open>to_bytes_per_ms\<close>.
\<close>

definition to_bytes_per_ms :: "dev_context \<Rightarrow> nat" where
  "to_bytes_per_ms devc =
     ((cur_samplerate devc div 1000 * (if dslogic devc \<and> sample_wide devc then 2 else 1))
        mod 2 ^ 64) mod 2 ^ 32"

definition fx2lafw_get_buffer_size :: "dev_context \<Rightarrow> nat" where
  "fx2lafw_get_buffer_size devc =
     (let s = (10 * to_bytes_per_ms devc) mod 2 ^ 32
      in ((s + 511) mod 2 ^ 64) AND (2 ^ 64 - 512))"

definition fx2lafw_get_number_of_transfers :: "dev_context \<Rightarrow> nat option" where
  "fx2lafw_get_number_of_transfers devc =
     (if fx2lafw_get_buffer_size devc = 0 then None
      else
        let n = ((((if dslogic devc then 100 else 500) * to_bytes_per_ms devc) mod 2 ^ 32)
                   div fx2lafw_get_buffer_size devc) mod 2 ^ 32
        in if n > NUM_SIMUL_TRANSFERS then Some NUM_SIMUL_TRANSFERS else Some n)"

definition fx2lafw_get_timeout :: "dev_context \<Rightarrow> nat option" where
  "fx2lafw_get_timeout devc =
     (if dslogic devc then Some 1000
      else case fx2lafw_get_number_of_transfers devc of
        None \<Rightarrow> None
      | Some n \<Rightarrow>
          let total_size = (fx2lafw_get_buffer_size devc * n) mod 2 ^ 64 in
          if to_bytes_per_ms devc = 0 then None
          else
            let timeout = (total_size div to_bytes_per_ms devc) mod 2 ^ 32
            in Some ((timeout + timeout div 4) mod 2 ^ 32))"

subsection \<open>Abort, release and resubmission of transfers (\<^verbatim>\<open>protocol.c\<close>)\<close>

text \<open>
  \<^verbatim>\<open>devc->transfers[i]\<close>. The C code does not check \<open>i\<close> against the size of the
  allocation; every loop bounds it by \<^verbatim>\<open>num_transfers\<close>, which the driver keeps at
  most that size. Past the allocation the model reads \<^verbatim>\<open>NULL\<close>.
\<close>

definition transfer_slot :: "dev_context \<Rightarrow> nat \<Rightarrow> nat option" where
  "transfer_slot devc i = (if i < length (transfers devc) then transfers devc ! i else None)"

text \<open>
  The loop of \<^verbatim>\<open>fx2lafw_abort_acquisition\<close>,
  \<^verbatim>\<open>for (i = devc->num_transfers - 1; i >= 0; i--)\<close>, run for \<open>i = n - 1, ..., 0\<close>.
\<close>

fun cancel_transfers :: "nat \<Rightarrow> dev_context \<Rightarrow> dev_context" where
  "cancel_transfers 0 devc = devc"
| "cancel_transfers (Suc i) devc =
     cancel_transfers i
       (case transfer_slot devc i of
          None \<Rightarrow> devc
        | Some t \<Rightarrow> devc\<lparr>events := events devc @ [Cancel_transfer t]\<rparr>)"

definition fx2lafw_abort_acquisition :: "dev_context \<Rightarrow> dev_context" where
  "fx2lafw_abort_acquisition devc =
     cancel_transfers (num_transfers devc) (devc\<lparr>num_samples := - 1\<rparr>)"

definition finish_acquisition :: "dev_context \<Rightarrow> dev_context" where
  "finish_acquisition devc =
     (let d1 = session_send SR_DF_END devc;
          d2 = d1\<lparr>events := events d1 @ [Usb_source_remove]\<rparr>;
          d3 = d2\<lparr>num_transfers := 0\<rparr>
      in d3\<lparr>events := events d3 @ [Free_transfers_array], transfers := []\<rparr>)"

text \<open>
  The loop of \<^verbatim>\<open>fx2lafw_free_transfer\<close>, \<^verbatim>\<open>for (i = 0; i < devc->num_transfers; i++)\<close>
  with its \<^verbatim>\<open>break\<close>; \<open>k\<close> iterations are still to run.
\<close>

fun clear_transfer_slot :: "nat \<Rightarrow> nat \<Rightarrow> dev_context \<Rightarrow> dev_context" where
  "clear_transfer_slot t 0 devc = devc"
| "clear_transfer_slot t (Suc k) devc =
     (let i = num_transfers devc - Suc k in
      if transfer_slot devc i = Some t
      then devc\<lparr>transfers := (transfers devc)[i := None]\<rparr>
      else clear_transfer_slot t k devc)"

definition fx2lafw_free_transfer :: "dev_context \<Rightarrow> nat \<Rightarrow> dev_context" where
  "fx2lafw_free_transfer devc t =
     (let d1 = devc\<lparr>events := events devc @ [Free_transfer t]\<rparr>;
          d2 = clear_transfer_slot t (num_transfers d1) d1;
          d3 = d2\<lparr>submitted_transfers := submitted_transfers d2 - 1\<rparr>
      in if submitted_transfers d3 = 0 then finish_acquisition d3 else d3)"

text \<open>
  \<^verbatim>\<open>resubmit_transfer\<close>; \<open>ok\<close> says whether \<^verbatim>\<open>libusb_submit_transfer\<close> returns
  \<^verbatim>\<open>LIBUSB_SUCCESS\<close>.
\<close>

definition resubmit_transfer :: "dev_context \<Rightarrow> nat \<Rightarrow> bool \<Rightarrow> dev_context" where
  "resubmit_transfer devc t ok =
     (let d1 = devc\<lparr>events := events devc @ [Submit_transfer t ok]\<rparr>
      in if ok then d1 else fx2lafw_free_transfer d1 t)"

subsection \<open>\<^verbatim>\<open>fx2lafw_receive_transfer\<close> (\<^verbatim>\<open>protocol.c\<close>)\<close>

text \<open>
  The sample at index \<open>i\<close> of the buffer:
  \<^verbatim>\<open>devc->sample_wide ? *((uint16_t *)cur_buf + i) : *((uint8_t *)cur_buf + i)\<close>, on a
  little-endian host. The buffer of a transfer holds at least \<^verbatim>\<open>actual_length\<close>
  bytes, and the scanner reads below \<^verbatim>\<open>actual_length\<close> only.
\<close>

definition read_u16 :: "8 word list \<Rightarrow> nat \<Rightarrow> 16 word" where
  "read_u16 buf i = word_cat (buf ! (2 * i + 1)) (buf ! (2 * i))"

definition sample_at :: "bool \<Rightarrow> 8 word list \<Rightarrow> nat \<Rightarrow> 16 word" where
  "sample_at wide buf i = (if wide then read_u16 buf i else ucast (buf ! i))"

text \<open>
  The software trigger: the loop \<^verbatim>\<open>for (i = 0; i < cur_sample_count; i++)\<close> of
  \<^verbatim>\<open>fx2lafw_receive_transfer\<close>, entered at index \<open>i\<close>. The result is the context and
  \<^verbatim>\<open>trigger_offset\<close>, which stays 0 unless the trigger fires. On a failed match after
  a match, \<^verbatim>\<open>i -= devc->trigger_stage\<close>, clamped to \<open>-1\<close>, and the loop's \<^verbatim>\<open>i++\<close>
  give the next index. \<^verbatim>\<open>trigger_mask\<close>, \<^verbatim>\<open>trigger_value\<close> and \<^verbatim>\<open>trigger_buffer\<close> have
  \<^verbatim>\<open>NUM_TRIGGER_STAGES\<close> entries and the C code indexes them with \<^verbatim>\<open>trigger_stage\<close>
  unchecked; the loop of the model runs only while \<open>0 \<le> trigger_stage < 4\<close>, which
  \<^verbatim>\<open>fx2lafw_configure_channels\<close> establishes and the loop keeps.
\<close>

function trigger_scan ::
  "dev_context \<Rightarrow> 8 word list \<Rightarrow> nat \<Rightarrow> nat \<Rightarrow> nat \<Rightarrow> dev_context \<times> nat" where
  "trigger_scan devc cur_buf sample_width cur_sample_count i =
     (if i < cur_sample_count \<and> 0 \<le> trigger_stage devc \<and>
         trigger_stage devc < int NUM_TRIGGER_STAGES then
        let cur_sample = sample_at (sample_wide devc) cur_buf i;
            stage = nat (trigger_stage devc)
        in if (cur_sample AND trigger_mask devc ! stage) = trigger_value devc ! stage then
             let d1 = devc\<lparr>trigger_buffer := (trigger_buffer devc)[stage := cur_sample],
                          trigger_stage := trigger_stage devc + 1\<rparr>
             in if trigger_stage d1 = int NUM_TRIGGER_STAGES \<or>
                   trigger_mask d1 ! nat (trigger_stage d1) = 0 then
                  let d2 = session_send (SR_DF_TRIGGER None) d1;
                      d3 = session_send
                             (SR_DF_LOGIC sample_width (nat (trigger_stage d2) * sample_width)
                                (Trigger_buffer (trigger_buffer d2))) d2
                  in (d3\<lparr>trigger_stage := TRIGGER_FIRED\<rparr>, i + 1)
                else trigger_scan d1 cur_buf sample_width cur_sample_count (i + 1)
           else if trigger_stage devc > 0 then
             let i1 = int i - trigger_stage devc;
                 i2 = (if i1 < - 1 then - 1 else i1)
             in trigger_scan (devc\<lparr>trigger_stage := 0\<rparr>) cur_buf sample_width
                  cur_sample_count (nat (i2 + 1))
           else trigger_scan devc cur_buf sample_width cur_sample_count (i + 1)
      else (devc, 0))"
  by pat_completeness auto
termination
  by (relation "measures
        [\<lambda>(devc, cur_buf, sample_width, cur_sample_count, i).
            cur_sample_count + nat (trigger_stage devc) - i,
         \<lambda>(devc, cur_buf, sample_width, cur_sample_count, i). cur_sample_count - i]")
     (auto simp add: NUM_TRIGGER_STAGES_def)

declare trigger_scan.simps [simp del]

text \<open>
  The DSLogic test modes. The internal test runs
  \<^verbatim>\<open>for (i = 0; i < logic.length / 2; i++)\<close> over the 16-bit samples of the buffer
  and stops at the first that differs from the expected counter; \<open>k\<close> iterations of
  \<open>n\<close> are still to run.
\<close>

fun test_internal_loop :: "8 word list \<Rightarrow> nat \<Rightarrow> nat \<Rightarrow> dev_context \<Rightarrow> dev_context" where
  "test_internal_loop cur_buf n 0 devc = devc"
| "test_internal_loop cur_buf n (Suc k) devc =
     (let cur_sample = read_u16 cur_buf (n - Suc k);
          d1 = (if dslogic_test_init devc = 1
                then devc\<lparr>dslogic_test_sample_value := cur_sample, dslogic_test_init := 0\<rparr>
                else devc)
      in if cur_sample \<noteq> dslogic_test_sample_value d1 then d1
         else test_internal_loop cur_buf n k
                (d1\<lparr>dslogic_test_sample_value := dslogic_test_sample_value d1 + 1\<rparr>))"

text \<open>
  The external test as the braces of the source delimit it: the body of the
  \<^verbatim>\<open>for\<close> ends with an unconditional \<^verbatim>\<open>break\<close> (only \<^verbatim>\<open>sr_err\<close> is under the
  \<^verbatim>\<open>if\<close>), so it runs at most once, and the counter is advanced modulo 65001 after
  the loop.
\<close>

definition test_external :: "8 word list \<Rightarrow> nat \<Rightarrow> dev_context \<Rightarrow> dev_context" where
  "test_external cur_buf n devc =
     (let d1 = (if 0 < n \<and> dslogic_test_init devc = 1
                then devc\<lparr>dslogic_test_sample_value := read_u16 cur_buf 0,
                          dslogic_test_init := 0\<rparr>
                else devc)
      in d1\<lparr>dslogic_test_sample_value :=
              word_of_nat ((unat (dslogic_test_sample_value d1) + 1) mod 65001)\<rparr>)"

text \<open>
  The branch \<^verbatim>\<open>if (devc->trigger_stage == TRIGGER_FIRED)\<close> up to and including
  \<^verbatim>\<open>devc->num_samples += cur_sample_count\<close>. The local \<^verbatim>\<open>logic\<close> is not initialised:
  when the packet is analog, \<^verbatim>\<open>logic.length\<close> is read without having been written,
  and \<open>stack_length\<close> is the value found there. \<^verbatim>\<open>devc->num_samples\<close> is converted to
  \<^verbatim>\<open>uint64_t\<close> for the comparison and the subtraction.
\<close>

definition send_transfer_data ::
  "dev_context \<Rightarrow> libusb_transfer \<Rightarrow> nat \<Rightarrow> nat \<Rightarrow> nat \<Rightarrow> nat \<Rightarrow> dev_context" where
  "send_transfer_data devc transfer sample_width cur_sample_count trigger_offset stack_length =
     (let cur_buf = buffer transfer;
          trigger_offset_bytes = trigger_offset * sample_width;
          is_logic = (\<not> dslogic devc \<or> dslogic_mode devc = DSLOGIC_MODE_LOGIC);
          logic_length = (if is_logic then actual_length transfer - trigger_offset_bytes
                          else stack_length);
          packet = (\<lambda>len.
            if is_logic
            then SR_DF_LOGIC sample_width len (Transfer_bytes (drop trigger_offset_bytes cur_buf))
            else SR_DF_ANALOG (actual_length transfer div sample_width)
                   (Transfer_bytes (drop trigger_offset_bytes cur_buf)));
          d1 =
            (if dslogic devc then
               (if (limit_samples devc \<noteq> 0 \<and>
                    nat (num_samples devc mod 2 ^ 64) < limit_samples devc) \<or>
                   dslogic_mode devc \<noteq> DSLOGIC_MODE_LOGIC then
                  let remaining_length =
                        nat (((int (limit_samples devc) - num_samples devc) * int sample_width)
                               mod 2 ^ 64);
                      len = min logic_length remaining_length;
                      da = (if dslogic_test devc = DSLOGIC_TEST_INTERNAL
                            then test_internal_loop cur_buf (len div 2) (len div 2) devc
                            else devc);
                      db = (if dslogic_test da = DSLOGIC_TEST_EXTERNAL
                            then test_external cur_buf (len div 2) da
                            else da)
                  in session_send (packet len) db
                else session_send (packet logic_length) devc)
             else session_send (packet logic_length) devc)
      in d1\<lparr>num_samples := num_samples d1 + int cur_sample_count\<rparr>)"

text \<open>
  \<^verbatim>\<open>fx2lafw_receive_transfer\<close>, the completion callback of a data transfer. \<open>ok\<close> is
  the success of the \<^verbatim>\<open>libusb_submit_transfer\<close> that \<^verbatim>\<open>resubmit_transfer\<close> makes;
  \<open>stack_length\<close> is explained above. \<^verbatim>\<open>(unsigned int)devc->num_samples\<close> is the
  value modulo \<open>2 ^ 32\<close>.
\<close>

definition fx2lafw_receive_transfer ::
  "dev_context \<Rightarrow> libusb_transfer \<Rightarrow> bool \<Rightarrow> nat \<Rightarrow> dev_context" where
  "fx2lafw_receive_transfer devc transfer ok stack_length =
     (if num_samples devc = - 1 then fx2lafw_free_transfer devc (tid transfer)
      else
        let cur_buf = buffer transfer;
            sample_width = (if sample_wide devc then 2 else 1);
            cur_sample_count = actual_length transfer div sample_width
        in if status transfer = LIBUSB_TRANSFER_NO_DEVICE then
             fx2lafw_free_transfer (fx2lafw_abort_acquisition devc) (tid transfer)
           else
             let packet_has_error =
                   (status transfer \<noteq> LIBUSB_TRANSFER_COMPLETED \<and>
                    status transfer \<noteq> LIBUSB_TRANSFER_TIMED_OUT)
             in if actual_length transfer = 0 \<or> packet_has_error then
                  let d1 = devc\<lparr>empty_transfer_count := empty_transfer_count devc + 1\<rparr>
                  in if empty_transfer_count d1 > int MAX_EMPTY_TRANSFERS
                     then fx2lafw_free_transfer (fx2lafw_abort_acquisition d1) (tid transfer)
                     else resubmit_transfer d1 (tid transfer) ok
                else
                  let d1 = devc\<lparr>empty_transfer_count := 0\<rparr>;
                      (d2, trigger_offset) =
                        (if trigger_stage d1 \<ge> 0
                         then trigger_scan d1 cur_buf sample_width cur_sample_count 0
                         else (d1, 0))
                  in if trigger_stage d2 = TRIGGER_FIRED then
                       let d3 = send_transfer_data d2 transfer sample_width cur_sample_count
                                  trigger_offset stack_length
                       in if limit_samples d3 \<noteq> 0 \<and>
                             nat (num_samples d3 mod 2 ^ 32) > limit_samples d3
                          then fx2lafw_free_transfer (fx2lafw_abort_acquisition d3)
                                 (tid transfer)
                          else resubmit_transfer d3 (tid transfer) ok
                     else resubmit_transfer d2 (tid transfer) ok)"

subsection \<open>The start of the data transfers and the trigger-position callback (\<^verbatim>\<open>api.c\<close>)\<close>

text \<open>
  What the environment answers in one iteration of the loop of
  \<^verbatim>\<open>dev_transfer_start\<close>: \<^verbatim>\<open>g_try_malloc\<close> of the buffer fails, or the transfer
  allocated at the given address is refused or accepted by
  \<^verbatim>\<open>libusb_submit_transfer\<close>.
\<close>

datatype submit_outcome = Buffer_malloc_failed | Submit_failed nat | Submitted nat

text \<open>
  The loop \<^verbatim>\<open>for (i = 0; i < num_transfers; i++)\<close> of \<^verbatim>\<open>dev_transfer_start\<close>, with \<open>k\<close>
  iterations still to run. \<open>Inl\<close> is an early return with its status.
\<close>

fun submit_transfers ::
  "(nat \<Rightarrow> submit_outcome) \<Rightarrow> nat \<Rightarrow> nat \<Rightarrow> dev_context \<Rightarrow> (sr_status \<times> dev_context) + dev_context"
  where
  "submit_transfers env n 0 devc = Inr devc"
| "submit_transfers env n (Suc k) devc =
     (let i = n - Suc k in
      case env i of
        Buffer_malloc_failed \<Rightarrow> Inl (SR_ERR_MALLOC, devc)
      | Submit_failed t \<Rightarrow>
          Inl (SR_ERR,
               fx2lafw_abort_acquisition
                 (devc\<lparr>events := events devc @ [Submit_transfer t False, Free_transfer t]\<rparr>))
      | Submitted t \<Rightarrow>
          submit_transfers env n k
            (devc\<lparr>events := events devc @ [Submit_transfer t True],
                  transfers := (transfers devc)[i := Some t],
                  submitted_transfers := submitted_transfers devc + 1\<rparr>))"

text \<open>
  \<^verbatim>\<open>dev_transfer_start\<close>. \<open>array_ok\<close> says whether \<^verbatim>\<open>g_try_malloc0\<close> finds memory for
  the array of transfers; it returns \<^verbatim>\<open>NULL\<close> for a size of 0 in any case. The
  timeout and the buffer size go into the transfers and are not kept here, except
  that computing them can divide by zero.
\<close>

definition dev_transfer_start ::
  "dev_context \<Rightarrow> bool \<Rightarrow> (nat \<Rightarrow> submit_outcome) \<Rightarrow> (sr_status \<times> dev_context) option" where
  "dev_transfer_start devc array_ok env =
     (case fx2lafw_get_timeout devc of
        None \<Rightarrow> None
      | Some timeout \<Rightarrow>
          (case fx2lafw_get_number_of_transfers devc of
             None \<Rightarrow> None
           | Some n \<Rightarrow>
               let d1 = devc\<lparr>submitted_transfers := 0\<rparr> in
               if \<not> array_ok \<or> n = 0 then Some (SR_ERR_MALLOC, d1\<lparr>transfers := []\<rparr>)
               else
                 let d2 = d1\<lparr>transfers := replicate n None, num_transfers := n\<rparr> in
                 (case submit_transfers env n n d2 of
                    Inl r \<Rightarrow> Some r
                  | Inr d3 \<Rightarrow>
                      Some (SR_OK,
                            if dslogic d3 then d3\<lparr>dslogic_status := DSLOGIC_DATA\<rparr> else d3))))"

text \<open>
  \<^verbatim>\<open>dslogic_receive_trigger_pos\<close>, the completion callback of the one transfer that
  \<^verbatim>\<open>dev_acquisition_start\<close> submits for a DSLogic. The status that
  \<^verbatim>\<open>dev_transfer_start\<close> returns is only logged.
\<close>

definition dslogic_receive_trigger_pos ::
  "dev_context \<Rightarrow> libusb_transfer \<Rightarrow> bool \<Rightarrow> (nat \<Rightarrow> submit_outcome) \<Rightarrow> dev_context option"
  where
  "dslogic_receive_trigger_pos devc transfer array_ok env =
     (if num_samples devc = - 1 then Some (fx2lafw_free_transfer devc (tid transfer))
      else if dslogic_status devc \<noteq> DSLOGIC_ERROR then
        let d1 =
              (if status transfer = LIBUSB_TRANSFER_COMPLETED then
                 let da = session_send (SR_DF_TRIGGER (Some (buffer transfer))) devc;
                     db = da\<lparr>dslogic_status := DSLOGIC_TRIGGERED\<rparr>;
                     dc = fx2lafw_free_transfer db (tid transfer)
                 in dc\<lparr>num_transfers := 0\<rparr>
               else
                 let da = fx2lafw_abort_acquisition devc;
                     db = fx2lafw_free_transfer da (tid transfer)
                 in db\<lparr>dslogic_status := DSLOGIC_ERROR\<rparr>)
        in if dslogic_status d1 = DSLOGIC_TRIGGERED then
             (case dev_transfer_start d1 array_ok env of
                None \<Rightarrow> None
              | Some (ret, d2) \<Rightarrow> Some d2)
           else Some d1
      else Some devc)"

subsection \<open>Example inputs\<close>

text \<open>
  A trigger table whose simple-mode row (index 16) holds, from probe 15 down to
  probe 0, the characters \<open>10XRFC0011111111\<close> in \<^verbatim>\<open>trigger0\<close> and
  \<open>FFFFFFFFRRRRRRRR\<close> in \<^verbatim>\<open>trigger1\<close>; every other row is all \<open>X\<close>, as
  \<^verbatim>\<open>ds_trigger_init\<close> leaves it.
\<close>

definition example_trigger :: ds_trigger where
  "example_trigger =
     \<lparr>trigger_en = 0, trigger_mode = 0, trigger_pos = 0, trigger_stages = 0,
      trigger_logic = replicate 17 1, trigger0_inv = replicate 17 0,
      trigger1_inv = replicate 17 0,
      trigger0 = replicate 16 (replicate 16 (CHR ''X'')) @ [rev ''10XRFC0011111111''],
      trigger1 = replicate 16 (replicate 16 (CHR ''X'')) @ [rev ''FFFFFFFFRRRRRRRR''],
      trigger0_count = replicate 17 0, trigger1_count = replicate 17 0\<rparr>"


text \<open>
  The context of an FX2 device (8 channels, 8-bit samples) at 1 MHz in a running
  acquisition: the two-stage software trigger \<open>0x10\<close> then \<open>0x20\<close> on all eight
  channels is armed, and three transfers, at the addresses 1, 2 and 3, are in flight.
\<close>

definition example_devc :: dev_context where
  "example_devc =
     \<lparr>cur_samplerate = SR_MHZ 1, limit_samples = 0, sample_wide = False,
      trigger_mask = [0xFF, 0xFF, 0, 0], trigger_value = [0x10, 0x20, 0, 0],
      trigger_stage = 0, trigger_buffer = [0, 0, 0, 0],
      num_samples = 0, submitted_transfers = 3, empty_transfer_count = 0,
      num_transfers = 3, transfers = [Some 1, Some 2, Some 3],
      dslogic = False, dslogic_mode = DSLOGIC_MODE_LOGIC, dslogic_test = DSLOGIC_TEST_NONE,
      dslogic_ext_clock = False, dslogic_test_init = 0, dslogic_test_sample_value = 0,
      dslogic_status = DSLOGIC_INIT, trigger = example_trigger, events = []\<rparr>"


subsection \<open>The specification's reading of the profile match\<close>

text \<open>
  The profile matches the device when the ids are equal and, if the profile expects a
  manufacturer string, the device's manufacturer and product strings equal the
  expected ones; a profile that expects no manufacturer string is not checked for
  the product either.
\<close>

definition spec_profile_matches ::
  "libusb_device_descriptor \<Rightarrow> string \<Rightarrow> string \<Rightarrow> fx2lafw_profile \<Rightarrow> bool" where
  "spec_profile_matches des manufacturer product p \<longleftrightarrow>
     vid p = idVendor des \<and> pid p = idProduct des \<and>
     (usb_manufacturer p = None \<or>
      (usb_manufacturer p = Some manufacturer \<and> usb_product p = Some product))"

text \<open>
  A table as \<^verbatim>\<open>supported_fx2\<close> is written: it ends with the sentinel, and an entry
  that names a manufacturer string names a product string.
\<close>

definition profile_table_ok :: "fx2lafw_profile list \<Rightarrow> bool" where
  "profile_table_ok table \<longleftrightarrow>
     list_ex (\<lambda>p. vid p = 0) table \<and>
     list_all (\<lambda>p. usb_manufacturer p = None \<or> usb_product p \<noteq> None) table"

text \<open>Three devices as libusb reports them to \<^verbatim>\<open>scan\<close>.\<close>

definition example_dslogic_dev :: usb_dev where
  "example_dslogic_dev =
     \<lparr>dev_bus = 1, dev_address = 5,
      dev_descriptor = Some \<lparr>idVendor = 0x0925, idProduct = 0x3881, iManufacturer = 1,
                              iProduct = 2\<rparr>,
      dev_open_ok = True, dev_manufacturer = Some ''DreamSourceLab'',
      dev_product = Some ''DSLogic''\<rparr>"

definition example_saleae_dev :: usb_dev where
  "example_saleae_dev =
     \<lparr>dev_bus = 1, dev_address = 6,
      dev_descriptor = Some \<lparr>idVendor = 0x0925, idProduct = 0x3881, iManufacturer = 1,
                              iProduct = 2\<rparr>,
      dev_open_ok = True, dev_manufacturer = Some ''Saleae LLC'',
      dev_product = Some ''Logic''\<rparr>"

definition example_unknown_dev :: usb_dev where
  "example_unknown_dev =
     \<lparr>dev_bus = 1, dev_address = 7,
      dev_descriptor = Some \<lparr>idVendor = 0x1d6b, idProduct = 0x0002, iManufacturer = 0,
                              iProduct = 0\<rparr>,
      dev_open_ok = True, dev_manufacturer = None, dev_product = None\<rparr>"


text \<open>
  Two completed transfers for that context: the four samples of the specification's
  scenario, where \<open>0x05\<close> separates the two matching samples, and three samples where
  the matching samples are adjacent.
\<close>

definition example_transfer_gap :: libusb_transfer where
  "example_transfer_gap =
     \<lparr>tid = 1, status = LIBUSB_TRANSFER_COMPLETED, actual_length = 4,
      buffer = [0x10, 0x05, 0x20, 0x55]\<rparr>"

definition example_transfer_adjacent :: libusb_transfer where
  "example_transfer_adjacent =
     \<lparr>tid = 1, status = LIBUSB_TRANSFER_COMPLETED, actual_length = 3,
      buffer = [0x10, 0x20, 0x55]\<rparr>"

text \<open>
  The same acquisition after \<^verbatim>\<open>fx2lafw_abort_acquisition\<close>, when the transfers 1 and 2
  have been released and transfer 3 is the last in flight; and that transfer as its
  cancellation completes.
\<close>

definition example_aborted_devc :: dev_context where
  "example_aborted_devc =
     example_devc\<lparr>num_samples := - 1, submitted_transfers := 1,
                  transfers := [None, None, Some 3]\<rparr>"

definition example_cancelled_transfer :: "nat \<Rightarrow> libusb_transfer" where
  "example_cancelled_transfer t =
     \<lparr>tid = t, status = LIBUSB_TRANSFER_CANCELLED, actual_length = 0, buffer = []\<rparr>"

text \<open>
  The context of a DSLogic at 1 MHz as \<^verbatim>\<open>dev_acquisition_start\<close> leaves it: no software
  trigger, the header packet sent, and the one trigger-position transfer (at
  address 100) submitted, in slot 0 of an array of one. Then that transfer as it
  completes, with the first bytes of the trigger-position structure.
\<close>

definition example_dslogic_devc :: dev_context where
  "example_dslogic_devc =
     \<lparr>cur_samplerate = SR_MHZ 1, limit_samples = 0, sample_wide = False,
      trigger_mask = [0, 0, 0, 0], trigger_value = [0, 0, 0, 0],
      trigger_stage = TRIGGER_FIRED, trigger_buffer = [0, 0, 0, 0],
      num_samples = 0, submitted_transfers = 1, empty_transfer_count = 0,
      num_transfers = 1, transfers = [Some 100],
      dslogic = True, dslogic_mode = DSLOGIC_MODE_LOGIC, dslogic_test = DSLOGIC_TEST_NONE,
      dslogic_ext_clock = False, dslogic_test_init = 0, dslogic_test_sample_value = 0,
      dslogic_status = DSLOGIC_START, trigger = example_trigger,
      events = [Session_send SR_DF_HEADER]\<rparr>"

definition example_trigger_pos_transfer :: libusb_transfer where
  "example_trigger_pos_transfer =
     \<lparr>tid = 100, status = LIBUSB_TRANSFER_COMPLETED, actual_length = 8,
      buffer = [0, 0, 0, 0, 0, 0, 0, 0]\<rparr>"

text \<open>
  The event pump delivering the completions of the given transfers to
  \<^verbatim>\<open>fx2lafw_receive_transfer\<close>, one after the other; every resubmission succeeds.
\<close>

fun deliver_transfers :: "dev_context \<Rightarrow> libusb_transfer list \<Rightarrow> dev_context" where
  "deliver_transfers devc [] = devc"
| "deliver_transfers devc (t # ts) =
     deliver_transfers (fx2lafw_receive_transfer devc t True 0) ts"


text \<open>A transfer that timed out without data.\<close>

definition example_empty_transfer :: libusb_transfer where
  "example_empty_transfer =
     \<lparr>tid = 1, status = LIBUSB_TRANSFER_TIMED_OUT, actual_length = 0, buffer = []\<rparr>"


subsection \<open>The trigger words that the channel list asks for\<close>

text \<open>
  Bit \<open>b\<close> of the mask of stage \<open>s\<close> is asked for by an enabled channel of index \<open>b\<close>
  whose trigger string is longer than \<open>s\<close>; bit \<open>b\<close> of the value, when moreover
  the character at position \<open>s\<close> of that string is \<open>1\<close>.
\<close>

definition spec_mask_bit :: "sr_channel list \<Rightarrow> nat \<Rightarrow> nat \<Rightarrow> bool" where
  "spec_mask_bit channels s b \<longleftrightarrow>
     (\<exists>ch \<in> set channels. ch_enabled ch \<and> ch_index ch = b \<and>
        (\<exists>tcs. ch_trigger ch = Some tcs \<and> s < length tcs))"

definition spec_value_bit :: "sr_channel list \<Rightarrow> nat \<Rightarrow> nat \<Rightarrow> bool" where
  "spec_value_bit channels s b \<longleftrightarrow>
     (\<exists>ch \<in> set channels. ch_enabled ch \<and> ch_index ch = b \<and>
        (\<exists>tcs. ch_trigger ch = Some tcs \<and> s < length tcs \<and> tcs ! s = CHR ''1''))"

text \<open>
  Channel lists for the example context: channel 0 triggers on \<open>1\<close> then \<open>0\<close> and
  channel 3 on \<open>1\<close>; in the second list channel 3 has a pattern of five characters.
\<close>

definition example_channels :: "sr_channel list" where
  "example_channels =
     [\<lparr>ch_index = 0, ch_type = SR_CHANNEL_LOGIC, ch_enabled = True, ch_name = ''0'',
       ch_trigger = Some ''10''\<rparr>,
      \<lparr>ch_index = 1, ch_type = SR_CHANNEL_LOGIC, ch_enabled = True, ch_name = ''1'',
       ch_trigger = None\<rparr>,
      \<lparr>ch_index = 2, ch_type = SR_CHANNEL_LOGIC, ch_enabled = False, ch_name = ''2'',
       ch_trigger = Some ''11111''\<rparr>,
      \<lparr>ch_index = 3, ch_type = SR_CHANNEL_LOGIC, ch_enabled = True, ch_name = ''3'',
       ch_trigger = Some ''1''\<rparr>]"

definition example_channels_long :: "sr_channel list" where
  "example_channels_long =
     [\<lparr>ch_index = 0, ch_type = SR_CHANNEL_LOGIC, ch_enabled = True, ch_name = ''0'',
       ch_trigger = Some ''10''\<rparr>,
      \<lparr>ch_index = 3, ch_type = SR_CHANNEL_LOGIC, ch_enabled = True, ch_name = ''3'',
       ch_trigger = Some ''10101''\<rparr>]"


text \<open>
  That acquisition of the DSLogic carried on: the trigger-position transfer completes,
  the array and the nine data transfers (at addresses 1 to 9) are allocated and
  submitted, then the acquisition is aborted and the event pump delivers the nine
  cancelled transfers. \<open>None\<close> would be a division by zero in the sizing.
\<close>

definition example_dslogic_acquisition :: "dev_context option" where
  "example_dslogic_acquisition =
     (case dslogic_receive_trigger_pos example_dslogic_devc example_trigger_pos_transfer True
             (\<lambda>i. Submitted (Suc i)) of
        None \<Rightarrow> None
      | Some d \<Rightarrow>
          Some (deliver_transfers (fx2lafw_abort_acquisition d)
                  (map example_cancelled_transfer [9, 8, 7, 6, 5, 4, 3, 2, 1])))"


section \<open>Properties\<close>

subsection \<open>The trigger words\<close>

lemma shift_add_bool_or:
  "push_bit 1 (w :: 64 word) + of_bool b = push_bit 1 w OR of_bool b"
  apply (rule disjunctive_add_eq_or)
  apply (rule bit_eqI)
  apply (simp only: bit_simps)
  apply auto
  done

lemma bit_shift_add_bool:
  "bit (push_bit 1 (w :: 64 word) + of_bool b) k \<longleftrightarrow>
     (if k = 0 then b else k < 64 \<and> bit w (k - 1))"
  unfolding shift_add_bool_or
  apply (simp only: bit_simps)
  apply (auto simp: possible_bit_word)
  done

lemma bit_trigger_word:
  "bit (trigger_word f row n w) p \<longleftrightarrow>
     (if p < n then p < 64 \<and> f (row ! p) else p < 64 \<and> bit w (p - n))"
proof (induction n arbitrary: w)
  case 0
  then show ?case by (auto dest: bit_imp_le_length)
next
  case (Suc n)
  have "bit (trigger_word f row (Suc n) w) p \<longleftrightarrow>
        bit (trigger_word f row n (push_bit 1 w + of_bool (f (row ! n)))) p"
    by (simp only: trigger_word.simps)
  also have "\<dots> \<longleftrightarrow> (if p < n then p < 64 \<and> f (row ! p)
        else p < 64 \<and> bit (push_bit 1 w + of_bool (f (row ! n))) (p - n))"
    by (rule Suc.IH)
  also have "\<dots> \<longleftrightarrow>
        (if p < Suc n then p < 64 \<and> f (row ! p) else p < 64 \<and> bit w (p - Suc n))"
    unfolding bit_shift_add_bool
    by (auto simp add: less_Suc_eq)
  finally show ?case .
qed

lemmas ds_trigger_getter_defs =
  ds_trigger_get_mask0_def ds_trigger_get_mask1_def
  ds_trigger_get_value0_def ds_trigger_get_value1_def
  ds_trigger_get_edge0_def ds_trigger_get_edge1_def
  DSLOGIC_TRIGGER_STAGES_def DSLOGIC_TRIGGER_PROBES_def

text \<open>
  Claim C5. For every trigger table \<open>t\<close>, every stage \<open>s \<le> 16\<close> and every bit
  position \<open>p \<le> 15\<close>, each of the six getters returns a word whose bit \<open>p\<close> is
  decided by the character at index \<open>p\<close> of row \<open>s\<close>: mask by \<open>X\<close> or \<open>C\<close>, value by
  \<open>1\<close> or \<open>R\<close>, edge by \<open>R\<close>, \<open>F\<close> or \<open>C\<close>, over \<^verbatim>\<open>trigger0\<close> for the getters named 0
  and over \<^verbatim>\<open>trigger1\<close> for those named 1. No bit from 16 on is set, so probe 15 is
  the most significant bit of the 16-bit word.
\<close>

theorem ds_trigger_get_bits:
  assumes "s \<le> DSLOGIC_TRIGGER_STAGES" and "p < DSLOGIC_TRIGGER_PROBES"
    and "DSLOGIC_TRIGGER_PROBES \<le> q"
  shows "\<exists>m0 m1 v0 v1 e0 e1.
     ds_trigger_get_mask0 t s = Some m0 \<and> ds_trigger_get_mask1 t s = Some m1 \<and>
     ds_trigger_get_value0 t s = Some v0 \<and> ds_trigger_get_value1 t s = Some v1 \<and>
     ds_trigger_get_edge0 t s = Some e0 \<and> ds_trigger_get_edge1 t s = Some e1 \<and>
     (bit m0 p \<longleftrightarrow> trigger0 t ! s ! p = CHR ''X'' \<or> trigger0 t ! s ! p = CHR ''C'') \<and>
     (bit m1 p \<longleftrightarrow> trigger1 t ! s ! p = CHR ''X'' \<or> trigger1 t ! s ! p = CHR ''C'') \<and>
     (bit v0 p \<longleftrightarrow> trigger0 t ! s ! p = CHR ''1'' \<or> trigger0 t ! s ! p = CHR ''R'') \<and>
     (bit v1 p \<longleftrightarrow> trigger1 t ! s ! p = CHR ''1'' \<or> trigger1 t ! s ! p = CHR ''R'') \<and>
     (bit e0 p \<longleftrightarrow> trigger0 t ! s ! p = CHR ''R'' \<or> trigger0 t ! s ! p = CHR ''F'' \<or>
                     trigger0 t ! s ! p = CHR ''C'') \<and>
     (bit e1 p \<longleftrightarrow> trigger1 t ! s ! p = CHR ''R'' \<or> trigger1 t ! s ! p = CHR ''F'' \<or>
                     trigger1 t ! s ! p = CHR ''C'') \<and>
     \<not> bit m0 q \<and> \<not> bit m1 q \<and> \<not> bit v0 q \<and> \<not> bit v1 q \<and> \<not> bit e0 q \<and> \<not> bit e1 q"
  using assms
  by (simp add: ds_trigger_getter_defs bit_trigger_word)

theorem ds_trigger_get_bits_witness:
  "(16::nat) \<le> DSLOGIC_TRIGGER_STAGES \<and> (13::nat) < DSLOGIC_TRIGGER_PROBES \<and>
   DSLOGIC_TRIGGER_PROBES \<le> (16::nat) \<and>
   ds_trigger_get_mask0 example_trigger 16 = Some 0x2400 \<and>
   ds_trigger_get_value0 example_trigger 16 = Some 0x90FF \<and>
   ds_trigger_get_edge0 example_trigger 16 = Some 0x1C00 \<and>
   trigger0 example_trigger ! 16 ! 13 = CHR ''X'' \<and>
   bit (0x2400 :: 64 word) 13 \<and> \<not> bit (0x90FF :: 64 word) 13 \<and>
   \<not> bit (0x1C00 :: 64 word) 13 \<and> \<not> bit (0x2400 :: 64 word) 16"
proof -
  have h: "(16::nat) \<le> DSLOGIC_TRIGGER_STAGES" "(13::nat) < DSLOGIC_TRIGGER_PROBES"
    "DSLOGIC_TRIGGER_PROBES \<le> (16::nat)"
    by (simp_all add: DSLOGIC_TRIGGER_STAGES_def DSLOGIC_TRIGGER_PROBES_def)
  have v: "ds_trigger_get_mask0 example_trigger 16 = Some 0x2400"
    "ds_trigger_get_value0 example_trigger 16 = Some 0x90FF"
    "ds_trigger_get_edge0 example_trigger 16 = Some 0x1C00"
    by (simp_all add: ds_trigger_getter_defs example_trigger_def nth_append numeral_nat)
  have c: "trigger0 example_trigger ! 16 ! 13 = CHR ''X''"
    by (simp add: example_trigger_def nth_append numeral_nat)
  from ds_trigger_get_bits [OF h, of example_trigger] v c
  have "bit (0x2400 :: 64 word) 13 \<and> \<not> bit (0x90FF :: 64 word) 13 \<and>
        \<not> bit (0x1C00 :: 64 word) 13 \<and> \<not> bit (0x2400 :: 64 word) 16"
    by auto
  with h v c show ?thesis by simp
qed

subsection \<open>Setting the rows of a stage\<close>

lemma stage_set_value_loop_frame:
  "stage_set_value_loop stage probes s0 s1 k t =
     t\<lparr>trigger0 := trigger0 (stage_set_value_loop stage probes s0 s1 k t),
       trigger1 := trigger1 (stage_set_value_loop stage probes s0 s1 k t)\<rparr>"
proof (induction k arbitrary: t)
  case 0
  show ?case by simp
next
  case (Suc k)
  show ?case
    by (simp only: stage_set_value_loop.simps Let_def) (subst Suc.IH, simp)
qed

lemma stage_set_value_loop_trigger0:
  assumes "k \<le> probes" and "stage < length (trigger0 t)" and "k \<le> length (trigger0 t ! stage)"
  shows "trigger0 (stage_set_value_loop stage probes s0 s1 k t) =
     (trigger0 t)[stage := map (\<lambda>i. if i < k then s0 ! ((probes - Suc i) * 2)
                                      else trigger0 t ! stage ! i)
                             [0..<length (trigger0 t ! stage)]]"
  using assms
proof (induction k arbitrary: t)
  case 0
  then show ?case by (simp add: map_nth)
next
  case (Suc k)
  define row where "row = trigger0 t ! stage"
  define t1 where "t1 = t\<lparr>trigger0 := (trigger0 t)[stage := row[k := s0 ! ((probes - Suc k) * 2)]],
           trigger1 := (trigger1 t)[stage := (trigger1 t ! stage)[k := s1 ! ((probes - Suc k) * 2)]]\<rparr>"
  have j: "probes - (probes - Suc k) - 1 = k" using Suc.prems by simp
  have step: "stage_set_value_loop stage probes s0 s1 (Suc k) t =
              stage_set_value_loop stage probes s0 s1 k t1"
    by (simp only: stage_set_value_loop.simps Let_def j t1_def row_def)
  have r1: "trigger0 t1 ! stage = row[k := s0 ! ((probes - Suc k) * 2)]"
    using Suc.prems by (simp add: t1_def)
  have len: "length (trigger0 t1 ! stage) = length row" by (simp add: r1)
  have k: "k < length row" using Suc.prems by (simp add: row_def)
  have "trigger0 (stage_set_value_loop stage probes s0 s1 k t1) =
     (trigger0 t1)[stage := map (\<lambda>i. if i < k then s0 ! ((probes - Suc i) * 2)
                                      else trigger0 t1 ! stage ! i)
                             [0..<length (trigger0 t1 ! stage)]]"
    using Suc.prems k by (intro Suc.IH) (simp_all add: t1_def row_def)
  also have "\<dots> = (trigger0 t)[stage := map (\<lambda>i. if i < k then s0 ! ((probes - Suc i) * 2)
                                      else trigger0 t1 ! stage ! i)
                             [0..<length row]]"
    by (simp add: len) (simp add: t1_def)
  also have "map (\<lambda>i. if i < k then s0 ! ((probes - Suc i) * 2) else trigger0 t1 ! stage ! i)
                 [0..<length row] =
             map (\<lambda>i. if i < Suc k then s0 ! ((probes - Suc i) * 2) else row ! i)
                 [0..<length row]"
    using k by (auto simp add: r1 nth_list_update less_Suc_eq)
  finally show ?case by (simp only: step row_def)
qed

lemma stage_set_value_loop_trigger1:
  assumes "k \<le> probes" and "stage < length (trigger1 t)" and "k \<le> length (trigger1 t ! stage)"
  shows "trigger1 (stage_set_value_loop stage probes s0 s1 k t) =
     (trigger1 t)[stage := map (\<lambda>i. if i < k then s1 ! ((probes - Suc i) * 2)
                                      else trigger1 t ! stage ! i)
                             [0..<length (trigger1 t ! stage)]]"
  using assms
proof (induction k arbitrary: t)
  case 0
  then show ?case by (simp add: map_nth)
next
  case (Suc k)
  define row where "row = trigger1 t ! stage"
  define t1 where "t1 = t\<lparr>trigger0 := (trigger0 t)[stage := (trigger0 t ! stage)[k := s0 ! ((probes - Suc k) * 2)]],
           trigger1 := (trigger1 t)[stage := row[k := s1 ! ((probes - Suc k) * 2)]]\<rparr>"
  have j: "probes - (probes - Suc k) - 1 = k" using Suc.prems by simp
  have step: "stage_set_value_loop stage probes s0 s1 (Suc k) t =
              stage_set_value_loop stage probes s0 s1 k t1"
    by (simp only: stage_set_value_loop.simps Let_def j t1_def row_def)
  have r1: "trigger1 t1 ! stage = row[k := s1 ! ((probes - Suc k) * 2)]"
    using Suc.prems by (simp add: t1_def)
  have len: "length (trigger1 t1 ! stage) = length row" by (simp add: r1)
  have k: "k < length row" using Suc.prems by (simp add: row_def)
  have "trigger1 (stage_set_value_loop stage probes s0 s1 k t1) =
     (trigger1 t1)[stage := map (\<lambda>i. if i < k then s1 ! ((probes - Suc i) * 2)
                                      else trigger1 t1 ! stage ! i)
                             [0..<length (trigger1 t1 ! stage)]]"
    using Suc.prems k by (intro Suc.IH) (simp_all add: t1_def row_def)
  also have "\<dots> = (trigger1 t)[stage := map (\<lambda>i. if i < k then s1 ! ((probes - Suc i) * 2)
                                      else trigger1 t1 ! stage ! i)
                             [0..<length row]]"
    by (simp add: len) (simp add: t1_def)
  also have "map (\<lambda>i. if i < k then s1 ! ((probes - Suc i) * 2) else trigger1 t1 ! stage ! i)
                 [0..<length row] =
             map (\<lambda>i. if i < Suc k then s1 ! ((probes - Suc i) * 2) else row ! i)
                 [0..<length row]"
    using k by (auto simp add: r1 nth_list_update less_Suc_eq)
  finally show ?case by (simp only: step row_def)
qed

lemma ds_trigger_shape_row:
  "ds_trigger_shape t \<Longrightarrow> s \<le> 16 \<Longrightarrow> length (trigger0 t ! s) = 16 \<and> length (trigger1 t ! s) = 16"
  by (simp add: ds_trigger_shape_def list_all_length DSLOGIC_TRIGGER_STAGES_def DSLOGIC_TRIGGER_PROBES_def)

text \<open>
  Claim C10. \<^verbatim>\<open>ds_trigger_stage_set_value(t, stage, probes, s0, s1)\<close>, called within its
  assertions on a table of the C type's shape, returns \<^verbatim>\<open>SR_OK\<close>; it reads the two
  strings with stride two and stores them in reversed probe order: for every
  \<open>j < probes\<close>, \<open>trigger0[stage][probes - 1 - j] = s0[2 j]\<close> and
  \<open>trigger1[stage][probes - 1 - j] = s1[2 j]\<close>. The entries of that stage from
  \<open>probes\<close> on, every other stage and every other field of the table are unchanged.
\<close>

theorem ds_trigger_stage_set_value_rows:
  assumes "ds_trigger_shape t" and "stage < DSLOGIC_TRIGGER_STAGES"
    and "probes \<le> DSLOGIC_TRIGGER_PROBES"
  shows "\<exists>t'. ds_trigger_stage_set_value t stage probes s0 s1 = Some (SR_OK, t') \<and>
     (\<forall>j<probes. trigger0 t' ! stage ! (probes - 1 - j) = s0 ! (2 * j) \<and>
                  trigger1 t' ! stage ! (probes - 1 - j) = s1 ! (2 * j)) \<and>
     (\<forall>i. probes \<le> i \<and> i < DSLOGIC_TRIGGER_PROBES \<longrightarrow>
          trigger0 t' ! stage ! i = trigger0 t ! stage ! i \<and>
          trigger1 t' ! stage ! i = trigger1 t ! stage ! i) \<and>
     (\<forall>s. s \<noteq> stage \<longrightarrow> trigger0 t' ! s = trigger0 t ! s \<and> trigger1 t' ! s = trigger1 t ! s) \<and>
     t' = t\<lparr>trigger0 := trigger0 t', trigger1 := trigger1 t'\<rparr> \<and>
     ds_trigger_shape t'"
proof -
  define t' where "t' = stage_set_value_loop stage probes s0 s1 probes t"
  have st: "stage < 16" "probes \<le> 16"
    using assms by (simp_all add: DSLOGIC_TRIGGER_STAGES_def DSLOGIC_TRIGGER_PROBES_def)
  have len: "length (trigger0 t) = 17" "length (trigger1 t) = 17"
    using assms(1) by (simp_all add: ds_trigger_shape_def DSLOGIC_TRIGGER_STAGES_def)
  have rows: "length (trigger0 t ! stage) = 16" "length (trigger1 t ! stage) = 16"
    using ds_trigger_shape_row [OF assms(1), of stage] st by simp_all
  have r: "ds_trigger_stage_set_value t stage probes s0 s1 = Some (SR_OK, t')"
    using assms by (simp add: ds_trigger_stage_set_value_def t'_def)
  have t0: "trigger0 t' = (trigger0 t)[stage := map (\<lambda>i. if i < probes then s0 ! ((probes - Suc i) * 2)
              else trigger0 t ! stage ! i) [0..<16]]"
    unfolding t'_def using st len rows by (subst stage_set_value_loop_trigger0) simp_all
  have t1: "trigger1 t' = (trigger1 t)[stage := map (\<lambda>i. if i < probes then s1 ! ((probes - Suc i) * 2)
              else trigger1 t ! stage ! i) [0..<16]]"
    unfolding t'_def using st len rows by (subst stage_set_value_loop_trigger1) simp_all
  have a: "\<forall>j<probes. trigger0 t' ! stage ! (probes - 1 - j) = s0 ! (2 * j) \<and>
                  trigger1 t' ! stage ! (probes - 1 - j) = s1 ! (2 * j)"
    using st len by (auto simp add: t0 t1 mult.commute)
  have b: "\<forall>i. probes \<le> i \<and> i < DSLOGIC_TRIGGER_PROBES \<longrightarrow>
               trigger0 t' ! stage ! i = trigger0 t ! stage ! i \<and>
               trigger1 t' ! stage ! i = trigger1 t ! stage ! i"
    using st len by (simp add: t0 t1 DSLOGIC_TRIGGER_PROBES_def)
  have c: "\<forall>s. s \<noteq> stage \<longrightarrow> trigger0 t' ! s = trigger0 t ! s \<and> trigger1 t' ! s = trigger1 t ! s"
    by (simp add: t0 t1)
  have d: "t' = t\<lparr>trigger0 := trigger0 t', trigger1 := trigger1 t'\<rparr>"
    unfolding t'_def by (rule stage_set_value_loop_frame)
  have e: "ds_trigger_shape t'"
    using assms(1) st len
    by (auto simp add: ds_trigger_shape_def t0 t1 list_all_length nth_list_update
          DSLOGIC_TRIGGER_STAGES_def DSLOGIC_TRIGGER_PROBES_def)
  from r a b c d e show ?thesis by blast
qed

theorem ds_trigger_stage_set_value_rows_witness:
  "ds_trigger_shape example_trigger \<and> (0::nat) < DSLOGIC_TRIGGER_STAGES \<and>
   (3::nat) \<le> DSLOGIC_TRIGGER_PROBES \<and>
   (\<exists>t'. ds_trigger_stage_set_value example_trigger 0 3 ''1 0 R'' ''F C X'' = Some (SR_OK, t') \<and>
      trigger0 t' ! 0 ! 2 = CHR ''1'' \<and> trigger0 t' ! 0 ! 1 = CHR ''0'' \<and>
      trigger0 t' ! 0 ! 0 = CHR ''R'' \<and>
      trigger1 t' ! 0 ! 2 = CHR ''F'' \<and> trigger1 t' ! 0 ! 1 = CHR ''C'' \<and>
      trigger1 t' ! 0 ! 0 = CHR ''X'' \<and>
      trigger0 t' ! 0 ! 3 = CHR ''X'' \<and>
      trigger0 t' ! 16 = rev ''10XRFC0011111111'')"
proof -
  have h: "ds_trigger_shape example_trigger" "(0::nat) < DSLOGIC_TRIGGER_STAGES"
    "(3::nat) \<le> DSLOGIC_TRIGGER_PROBES"
    by (simp_all add: ds_trigger_shape_def example_trigger_def list_all_iff
          DSLOGIC_TRIGGER_STAGES_def DSLOGIC_TRIGGER_PROBES_def)
  from ds_trigger_stage_set_value_rows [OF h, of "''1 0 R''" "''F C X''"]
  obtain t' where r: "ds_trigger_stage_set_value example_trigger 0 3 ''1 0 R'' ''F C X'' =
        Some (SR_OK, t')"
    and a: "\<forall>j<3. trigger0 t' ! 0 ! (3 - 1 - j) = ''1 0 R'' ! (2 * j) \<and>
                   trigger1 t' ! 0 ! (3 - 1 - j) = ''F C X'' ! (2 * j)"
    and b: "\<forall>i. 3 \<le> i \<and> i < DSLOGIC_TRIGGER_PROBES \<longrightarrow>
                 trigger0 t' ! 0 ! i = trigger0 example_trigger ! 0 ! i \<and>
                 trigger1 t' ! 0 ! i = trigger1 example_trigger ! 0 ! i"
    and c: "\<forall>s. s \<noteq> 0 \<longrightarrow> trigger0 t' ! s = trigger0 example_trigger ! s \<and>
                 trigger1 t' ! s = trigger1 example_trigger ! s"
    by blast
  have a0: "trigger0 t' ! 0 ! 2 = CHR ''1'' \<and> trigger1 t' ! 0 ! 2 = CHR ''F''"
    using a [rule_format, of 0] by simp
  have a1: "trigger0 t' ! 0 ! 1 = CHR ''0'' \<and> trigger1 t' ! 0 ! 1 = CHR ''C''"
    using a [rule_format, of 1] by simp
  have a2: "trigger0 t' ! 0 ! 0 = CHR ''R'' \<and> trigger1 t' ! 0 ! 0 = CHR ''X''"
    using a [rule_format, of 2] by simp
  have b3: "trigger0 t' ! 0 ! 3 = CHR ''X''"
    using b [rule_format, of 3]
    by (simp add: DSLOGIC_TRIGGER_PROBES_def example_trigger_def nth_append numeral_nat)
  have c16: "trigger0 t' ! 16 = rev ''10XRFC0011111111''"
    using c [rule_format, of 16] by (simp add: example_trigger_def nth_append)
  from h r a0 a1 a2 b3 c16 show ?thesis by blast
qed

subsection \<open>Buffer sizing\<close>

lemma to_bytes_1mhz:
  "cur_samplerate d = SR_MHZ 1 \<Longrightarrow> \<not> dslogic d \<Longrightarrow> to_bytes_per_ms d = 1000"
  by (simp add: to_bytes_per_ms_def SR_MHZ_def)

lemma round_512: "(10511::nat) AND 18446744073709551104 = 10240"
  by simp

lemma sizing_1mhz_values:
  assumes "cur_samplerate d = SR_MHZ 1" and "\<not> dslogic d"
  shows "fx2lafw_get_buffer_size d = 10240"
    and "fx2lafw_get_number_of_transfers d = Some 32"
    and "fx2lafw_get_timeout d = Some 408"
proof -
  have b: "to_bytes_per_ms d = 1000" using assms by (rule to_bytes_1mhz)
  show s: "fx2lafw_get_buffer_size d = 10240"
    by (simp add: fx2lafw_get_buffer_size_def b)
  show n: "fx2lafw_get_number_of_transfers d = Some 32"
    using assms(2) by (simp add: fx2lafw_get_number_of_transfers_def s b NUM_SIMUL_TRANSFERS_def)
  show "fx2lafw_get_timeout d = Some 408"
    using assms(2) by (simp add: fx2lafw_get_timeout_def s n b)
qed

lemma example_devc_fx2_1mhz:
  "cur_samplerate example_devc = SR_MHZ 1" "\<not> dslogic example_devc"
  by (simp_all add: example_devc_def)

text \<open>
  Claim C7, as amended. For a device that is not a DSLogic at a sample rate of 1 MHz,
  \<^verbatim>\<open>fx2lafw_get_buffer_size\<close> returns \<open>(10 * 1000 + 511) & ~511 = 10240\<close>,
  \<^verbatim>\<open>fx2lafw_get_number_of_transfers\<close> returns \<open>min(32, 500 * 1000 / 10240) = 32\<close>, and
  \<^verbatim>\<open>fx2lafw_get_timeout\<close> returns \<open>327 + 327 / 4 = 408\<close>: the division
  \<open>32 * 10240 / 1000\<close> is an integer division, and so is the quarter added to it.
\<close>

theorem fx2_sizing_1mhz:
  assumes "cur_samplerate d = SR_MHZ 1" and "\<not> dslogic d"
  shows "fx2lafw_get_buffer_size d = 10240 \<and>
         fx2lafw_get_number_of_transfers d = Some 32 \<and>
         fx2lafw_get_timeout d = Some 408"
  using sizing_1mhz_values [OF assms] by simp

theorem fx2_sizing_1mhz_witness:
  "cur_samplerate example_devc = SR_MHZ 1 \<and> \<not> dslogic example_devc \<and>
   fx2lafw_get_buffer_size example_devc = 10240 \<and>
   fx2lafw_get_number_of_transfers example_devc = Some 32 \<and>
   fx2lafw_get_timeout example_devc = Some 408"
  using fx2_sizing_1mhz [OF example_devc_fx2_1mhz] example_devc_fx2_1mhz by simp

text \<open>
  The claim as stated gives 409 ms for the timeout; the code returns 408.
\<close>

theorem fx2_timeout_1mhz_not_409:
  "fx2lafw_get_timeout example_devc = Some 408 \<and>
   \<not> (fx2lafw_get_buffer_size example_devc = 10240 \<and>
      fx2lafw_get_number_of_transfers example_devc = Some 32 \<and>
      fx2lafw_get_timeout example_devc = Some 409)"
  using sizing_1mhz_values [OF example_devc_fx2_1mhz] by simp

subsection \<open>The sample rate of an FX2 device\<close>

lemma clock_48mhz_quotient_one:
  assumes "SR_MHZ 48 mod sr = 0" and "SR_MHZ 48 div sr = 1"
  shows "SR_MHZ 30 mod sr \<noteq> 0"
proof -
  have "sr * (SR_MHZ 48 div sr) + SR_MHZ 48 mod sr = SR_MHZ 48" by (rule mult_div_mod_eq)
  then have "sr = SR_MHZ 48" using assms by simp
  then show ?thesis by (simp add: SR_MHZ_def)
qed

lemma clock_48mhz_quotient_pos:
  assumes "0 < sr" and "SR_MHZ 48 mod sr = 0"
  shows "1 \<le> SR_MHZ 48 div sr"
proof -
  have "sr dvd SR_MHZ 48" using assms(2) by (simp add: dvd_eq_mod_eq_0)
  moreover have "0 < SR_MHZ 48" by (simp add: SR_MHZ_def)
  ultimately have "sr \<le> SR_MHZ 48" by (rule dvd_imp_le)
  then show ?thesis using assms(1) by (simp add: Suc_le_eq div_greater_zero_iff)
qed

lemma start_acquisition_general:
  assumes "\<not> dslogic d" and "0 < cur_samplerate d"
  shows "fx2lafw_command_start_acquisition d ret =
     (if sample_wide d \<and> cur_samplerate d > MAX_16BIT_SAMPLE_RATE then Some (SR_ERR, None)
      else case spec_clock_choice (cur_samplerate d) of
        None \<Rightarrow> Some (SR_ERR, None)
      | Some (clk, delay) \<Rightarrow>
          if 0 < delay \<and> delay \<le> MAX_SAMPLE_DELAY
          then Some (send_start_command d
                 (if clk = 48 then CMD_START_FLAGS_CLK_48MHZ else CMD_START_FLAGS_CLK_30MHZ)
                 delay ret)
          else Some (SR_ERR, None))"
proof (cases "sample_wide d \<and> cur_samplerate d > MAX_16BIT_SAMPLE_RATE")
  case True
  then show ?thesis using assms by (simp add: fx2lafw_command_start_acquisition_def)
next
  case nw: False
  define sr where "sr = cur_samplerate d"
  have sr: "0 < sr" using assms by (simp add: sr_def)
  show ?thesis
  proof (cases "SR_MHZ 48 mod sr = 0")
    case A: True
    from clock_48mhz_quotient_pos [OF sr A] have q: "0 \<le> int (SR_MHZ 48 div sr) - 1" by simp
    show ?thesis
    proof (cases "int (SR_MHZ 48 div sr) - 1 = 0")
      case True
      then have "SR_MHZ 48 div sr = 1" by simp
      from clock_48mhz_quotient_one [OF A this] have "SR_MHZ 30 mod sr \<noteq> 0" .
      then show ?thesis using assms nw A True
        by (simp add: fx2lafw_command_start_acquisition_def spec_clock_choice_def Let_def
              sr_def [symmetric] MAX_SAMPLE_DELAY_def)
    next
      case False
      then show ?thesis using assms nw A q
        by (auto simp add: fx2lafw_command_start_acquisition_def spec_clock_choice_def Let_def
              sr_def [symmetric] MAX_SAMPLE_DELAY_def CMD_START_FLAGS_CLK_30MHZ_def)
    qed
  next
    case False
    then show ?thesis using assms nw
      by (auto simp add: fx2lafw_command_start_acquisition_def spec_clock_choice_def Let_def
            sr_def [symmetric] MAX_SAMPLE_DELAY_def CMD_START_FLAGS_CLK_30MHZ_def)
  qed
qed

lemma start_acquisition_1mhz:
  assumes "\<not> dslogic d" and "cur_samplerate d = SR_MHZ 1" and "\<not> sample_wide d"
  shows "fx2lafw_command_start_acquisition d ret =
    Some (if ret < 0 then SR_ERR else SR_OK,
          Some (CMD_START, \<lparr>flags = CMD_START_FLAGS_CLK_48MHZ, sample_delay_h = 0,
                            sample_delay_l = 47\<rparr>))"
  using assms
  by (simp add: fx2lafw_command_start_acquisition_def SR_MHZ_def MAX_SAMPLE_DELAY_def
       send_start_command_def CMD_START_FLAGS_CLK_48MHZ_def CMD_START_FLAGS_CLK_SRC_POS_def
       CMD_START_FLAGS_SAMPLE_8BIT_def CMD_START_FLAGS_WIDE_POS_def MAX_16BIT_SAMPLE_RATE_def)

lemma start_acquisition_12mhz_wide:
  assumes "\<not> dslogic d" and "cur_samplerate d = SR_MHZ 12" and "sample_wide d"
  shows "fx2lafw_command_start_acquisition d ret =
    Some (if ret < 0 then SR_ERR else SR_OK,
          Some (CMD_START,
                \<lparr>flags = CMD_START_FLAGS_CLK_48MHZ OR CMD_START_FLAGS_SAMPLE_16BIT,
                 sample_delay_h = 0, sample_delay_l = 3\<rparr>))"
  using assms
  by (simp add: fx2lafw_command_start_acquisition_def SR_MHZ_def MAX_SAMPLE_DELAY_def
       send_start_command_def CMD_START_FLAGS_CLK_48MHZ_def CMD_START_FLAGS_CLK_SRC_POS_def
       CMD_START_FLAGS_SAMPLE_16BIT_def CMD_START_FLAGS_WIDE_POS_def MAX_16BIT_SAMPLE_RATE_def)

lemma start_acquisition_24mhz_wide:
  assumes "\<not> dslogic d" and "cur_samplerate d = SR_MHZ 24" and "sample_wide d"
  shows "fx2lafw_command_start_acquisition d ret = Some (SR_ERR, None)"
  using assms
  by (simp add: fx2lafw_command_start_acquisition_def SR_MHZ_def MAX_16BIT_SAMPLE_RATE_def)

text \<open>
  Claim C4. On the FX2 path (the device is not a DSLogic) and for a sample rate other
  than 0, \<^verbatim>\<open>fx2lafw_command_start_acquisition\<close> returns \<^verbatim>\<open>SR_ERR\<close>, sending nothing,
  when \<^verbatim>\<open>sample_wide\<close> is set and the sample rate exceeds 12 MHz. Otherwise the clock
  and delay are those of \<open>spec_clock_choice\<close>: 48 MHz with delay
  \<open>48 MHz / samplerate - 1\<close> when the sample rate divides 48 MHz and that delay is at
  most 1536, else 30 MHz with delay \<open>30 MHz / samplerate - 1\<close> when the sample rate
  divides 30 MHz; the function returns \<^verbatim>\<open>SR_ERR\<close>, sending nothing, unless
  \<open>0 < delay \<le> 1536\<close>, and else sends the start command with that clock and delay
  (its status is then that of the control transfer). At 1 MHz with 8-bit samples
  the command carries the 48 MHz clock and delay 47; at 12 MHz with \<^verbatim>\<open>sample_wide\<close>
  the command is sent (48 MHz clock, 16-bit flag, delay 3); at 24 MHz with
  \<^verbatim>\<open>sample_wide\<close> the function returns \<^verbatim>\<open>SR_ERR\<close>.
\<close>

theorem fx2_start_acquisition_selection:
  assumes "\<not> dslogic d"
  shows
    "(0 < cur_samplerate d \<longrightarrow>
      fx2lafw_command_start_acquisition d ret =
       (if sample_wide d \<and> cur_samplerate d > MAX_16BIT_SAMPLE_RATE then Some (SR_ERR, None)
        else case spec_clock_choice (cur_samplerate d) of
          None \<Rightarrow> Some (SR_ERR, None)
        | Some (clk, delay) \<Rightarrow>
            if 0 < delay \<and> delay \<le> MAX_SAMPLE_DELAY
            then Some (send_start_command d
                   (if clk = 48 then CMD_START_FLAGS_CLK_48MHZ else CMD_START_FLAGS_CLK_30MHZ)
                   delay ret)
            else Some (SR_ERR, None))) \<and>
     (cur_samplerate d = SR_MHZ 1 \<and> \<not> sample_wide d \<longrightarrow>
      fx2lafw_command_start_acquisition d ret =
        Some (if ret < 0 then SR_ERR else SR_OK,
              Some (CMD_START, \<lparr>flags = CMD_START_FLAGS_CLK_48MHZ, sample_delay_h = 0,
                                sample_delay_l = 47\<rparr>))) \<and>
     (cur_samplerate d = SR_MHZ 12 \<and> sample_wide d \<longrightarrow>
      fx2lafw_command_start_acquisition d ret =
        Some (if ret < 0 then SR_ERR else SR_OK,
              Some (CMD_START,
                    \<lparr>flags = CMD_START_FLAGS_CLK_48MHZ OR CMD_START_FLAGS_SAMPLE_16BIT,
                     sample_delay_h = 0, sample_delay_l = 3\<rparr>))) \<and>
     (cur_samplerate d = SR_MHZ 24 \<and> sample_wide d \<longrightarrow>
      fx2lafw_command_start_acquisition d ret = Some (SR_ERR, None))"
  using start_acquisition_general [OF assms, of ret] start_acquisition_1mhz [OF assms, of ret]
    start_acquisition_12mhz_wide [OF assms, of ret] start_acquisition_24mhz_wide [OF assms, of ret]
  by blast

theorem fx2_start_acquisition_selection_witness:
  "\<not> dslogic example_devc \<and> 0 < cur_samplerate example_devc \<and>
   cur_samplerate example_devc = SR_MHZ 1 \<and> \<not> sample_wide example_devc \<and>
   spec_clock_choice (SR_MHZ 1) = Some (48, 47) \<and>
   fx2lafw_command_start_acquisition example_devc 0 =
     Some (SR_OK, Some (CMD_START, \<lparr>flags = 0x40, sample_delay_h = 0, sample_delay_l = 47\<rparr>)) \<and>
   fx2lafw_command_start_acquisition
       (example_devc\<lparr>cur_samplerate := SR_MHZ 12, sample_wide := True\<rparr>) 0 =
     Some (SR_OK, Some (CMD_START, \<lparr>flags = 0x60, sample_delay_h = 0, sample_delay_l = 3\<rparr>)) \<and>
   fx2lafw_command_start_acquisition
       (example_devc\<lparr>cur_samplerate := SR_MHZ 24, sample_wide := True\<rparr>) 0 =
     Some (SR_ERR, None)"
proof -
  have h: "\<not> dslogic example_devc" "0 < cur_samplerate example_devc"
    "cur_samplerate example_devc = SR_MHZ 1" "\<not> sample_wide example_devc"
    by (simp_all add: example_devc_def SR_MHZ_def)
  have c: "spec_clock_choice (SR_MHZ 1) = Some (48, 47)"
    by (simp add: spec_clock_choice_def SR_MHZ_def MAX_SAMPLE_DELAY_def)
  have f: "CMD_START_FLAGS_CLK_48MHZ = 0x40"
    "CMD_START_FLAGS_CLK_48MHZ OR CMD_START_FLAGS_SAMPLE_16BIT = 0x60"
    by (simp_all add: CMD_START_FLAGS_CLK_48MHZ_def CMD_START_FLAGS_CLK_SRC_POS_def
          CMD_START_FLAGS_SAMPLE_16BIT_def CMD_START_FLAGS_WIDE_POS_def)
  have h12: "\<not> dslogic (example_devc\<lparr>cur_samplerate := SR_MHZ 12, sample_wide := True\<rparr>)"
    and h24: "\<not> dslogic (example_devc\<lparr>cur_samplerate := SR_MHZ 24, sample_wide := True\<rparr>)"
    by (simp_all add: example_devc_def)
  have s12: "cur_samplerate (example_devc\<lparr>cur_samplerate := SR_MHZ 12, sample_wide := True\<rparr>)
               = SR_MHZ 12 \<and>
             sample_wide (example_devc\<lparr>cur_samplerate := SR_MHZ 12, sample_wide := True\<rparr>)"
    and s24: "cur_samplerate (example_devc\<lparr>cur_samplerate := SR_MHZ 24, sample_wide := True\<rparr>)
               = SR_MHZ 24 \<and>
             sample_wide (example_devc\<lparr>cur_samplerate := SR_MHZ 24, sample_wide := True\<rparr>)"
    by simp_all
  have r1: "fx2lafw_command_start_acquisition example_devc 0 =
     Some (SR_OK, Some (CMD_START, \<lparr>flags = 0x40, sample_delay_h = 0, sample_delay_l = 47\<rparr>))"
    using fx2_start_acquisition_selection [OF h(1), of 0, THEN conjunct2, THEN conjunct1]
      h(3,4) f(1)
    by simp
  have r12: "fx2lafw_command_start_acquisition
       (example_devc\<lparr>cur_samplerate := SR_MHZ 12, sample_wide := True\<rparr>) 0 =
     Some (SR_OK, Some (CMD_START, \<lparr>flags = 0x60, sample_delay_h = 0, sample_delay_l = 3\<rparr>))"
    using fx2_start_acquisition_selection [OF h12, of 0, THEN conjunct2, THEN conjunct2,
        THEN conjunct1, rule_format, OF s12] f(2)
    by simp
  have r24: "fx2lafw_command_start_acquisition
       (example_devc\<lparr>cur_samplerate := SR_MHZ 24, sample_wide := True\<rparr>) 0 =
     Some (SR_ERR, None)"
    using fx2_start_acquisition_selection [OF h24, of 0, THEN conjunct2, THEN conjunct2,
        THEN conjunct2, rule_format, OF s24]
    by simp
  from h c r1 r12 r24 show ?thesis by blast
qed

subsection \<open>The profile lookup of \<^verbatim>\<open>scan\<close>\<close>

lemma scan_profile_loop_find:
  assumes "list_ex (\<lambda>p. vid p = 0) table"
    and "list_all (\<lambda>p. usb_manufacturer p = None \<or> usb_product p \<noteq> None) table"
  shows "scan_profile_loop table des manufacturer product =
         Some (find (spec_profile_matches des manufacturer product)
                 (takeWhile (\<lambda>p. vid p \<noteq> 0) table))"
  using assms
proof (induction table)
  case Nil
  then show ?case by simp
next
  case (Cons p ps)
  show ?case
  proof (cases "vid p = 0")
    case True
    then show ?thesis by simp
  next
    case False
    with Cons.prems have "list_ex (\<lambda>p. vid p = 0) ps"
      and "list_all (\<lambda>p. usb_manufacturer p = None \<or> usb_product p \<noteq> None) ps"
      by simp_all
    then have IH: "scan_profile_loop ps des manufacturer product =
         Some (find (spec_profile_matches des manufacturer product)
                 (takeWhile (\<lambda>p. vid p \<noteq> 0) ps))"
      by (rule Cons.IH)
    from Cons.prems have wf: "usb_manufacturer p = None \<or> usb_product p \<noteq> None" by simp
    have step: "scan_profile_loop (p # ps) des manufacturer product =
        (if spec_profile_matches des manufacturer product p then Some (Some p)
         else scan_profile_loop ps des manufacturer product)"
      using False wf by (auto simp add: spec_profile_matches_def split: option.splits)
    show ?thesis using False by (simp only: step IH) simp
  qed
qed

lemma supported_fx2_ok: "profile_table_ok (supported_fx2 dir)"
  by (simp add: profile_table_ok_def supported_fx2_def)

text \<open>
  Claim C8. On a table as \<^verbatim>\<open>supported_fx2\<close> is written, the lookup of \<^verbatim>\<open>scan\<close> returns
  the first profile before the sentinel whose \<^verbatim>\<open>vid\<close> and \<^verbatim>\<open>pid\<close> equal the
  descriptor's \<^verbatim>\<open>idVendor\<close> and \<^verbatim>\<open>idProduct\<close> and whose expected manufacturer and product
  strings, when it expects a manufacturer, equal the device's; a profile without an
  expected manufacturer is not checked for the product. For a device whose
  descriptor and strings were read, that is the result of the iteration of \<^verbatim>\<open>scan\<close>:
  the profile, or \<^verbatim>\<open>continue\<close> (the device is skipped) when no profile matches.
\<close>

theorem scan_matches_first_profile:
  assumes "profile_table_ok table"
  shows "scan_profile_loop table des manufacturer product =
           Some (find (spec_profile_matches des manufacturer product)
                   (takeWhile (\<lambda>p. vid p \<noteq> 0) table)) \<and>
         (dev_descriptor dev = Some des \<and> dev_open_ok dev \<and>
          (if iManufacturer des = 0 then Some [] else dev_manufacturer dev) = Some manufacturer \<and>
          (if iProduct des = 0 then Some [] else dev_product dev) = Some product \<longrightarrow>
          scan_device table None dev =
            Some (find (spec_profile_matches des manufacturer product)
                    (takeWhile (\<lambda>p. vid p \<noteq> 0) table)))"
  using assms scan_profile_loop_find [of table des manufacturer product]
  by (auto simp add: profile_table_ok_def scan_device_def)

theorem scan_matches_first_profile_witness:
  "profile_table_ok (supported_fx2 ''/fw'') \<and>
   scan_device (supported_fx2 ''/fw'') None example_dslogic_dev =
     Some (Some (supported_fx2 ''/fw'' ! 4)) \<and>
   find (spec_profile_matches \<lparr>idVendor = 0x0925, idProduct = 0x3881, iManufacturer = 1,
                               iProduct = 2\<rparr> ''DreamSourceLab'' ''DSLogic'')
     (takeWhile (\<lambda>p. vid p \<noteq> 0) (supported_fx2 ''/fw'')) = Some (supported_fx2 ''/fw'' ! 4) \<and>
   usb_manufacturer (supported_fx2 ''/fw'' ! 4) = Some ''DreamSourceLab'' \<and>
   scan_device (supported_fx2 ''/fw'') None example_saleae_dev =
     Some (Some (supported_fx2 ''/fw'' ! 5)) \<and>
   model (supported_fx2 ''/fw'' ! 5) = Some ''Logic'' \<and>
   scan_device (supported_fx2 ''/fw'') None example_unknown_dev = Some None"
proof -
  have ok: "profile_table_ok (supported_fx2 ''/fw'')" by (rule supported_fx2_ok)
  have d: "dev_descriptor example_dslogic_dev =
             Some \<lparr>idVendor = 0x0925, idProduct = 0x3881, iManufacturer = 1, iProduct = 2\<rparr> \<and>
           dev_open_ok example_dslogic_dev \<and>
           (if iManufacturer \<lparr>idVendor = 0x0925, idProduct = 0x3881, iManufacturer = 1,
                              iProduct = 2\<rparr> = 0
            then Some [] else dev_manufacturer example_dslogic_dev) = Some ''DreamSourceLab'' \<and>
           (if iProduct \<lparr>idVendor = 0x0925, idProduct = 0x3881, iManufacturer = 1,
                         iProduct = 2\<rparr> = 0
            then Some [] else dev_product example_dslogic_dev) = Some ''DSLogic''"
    by (simp add: example_dslogic_dev_def)
  have e: "scan_device (supported_fx2 ''/fw'') None example_dslogic_dev =
             Some (Some (supported_fx2 ''/fw'' ! 4))"
    "usb_manufacturer (supported_fx2 ''/fw'' ! 4) = Some ''DreamSourceLab''"
    "scan_device (supported_fx2 ''/fw'') None example_saleae_dev =
             Some (Some (supported_fx2 ''/fw'' ! 5))"
    "model (supported_fx2 ''/fw'' ! 5) = Some ''Logic''"
    "scan_device (supported_fx2 ''/fw'') None example_unknown_dev = Some None"
    by (simp_all add: scan_device_def example_dslogic_dev_def example_saleae_dev_def
          example_unknown_dev_def supported_fx2_def)
  define des where "des = \<lparr>idVendor = 0x0925, idProduct = 0x3881, iManufacturer = 1,
                               iProduct = 2\<rparr>"
  have "scan_device (supported_fx2 ''/fw'') None example_dslogic_dev =
            Some (find (spec_profile_matches des ''DreamSourceLab'' ''DSLogic'')
                    (takeWhile (\<lambda>p. vid p \<noteq> 0) (supported_fx2 ''/fw'')))"
    using scan_matches_first_profile [OF ok, of des "''DreamSourceLab''" "''DSLogic''"
        example_dslogic_dev, THEN conjunct2, rule_format] d
    unfolding des_def by blast
  with e(1) have "find (spec_profile_matches des ''DreamSourceLab'' ''DSLogic'')
     (takeWhile (\<lambda>p. vid p \<noteq> 0) (supported_fx2 ''/fw'')) = Some (supported_fx2 ''/fw'' ! 4)"
    by simp
  with ok e show ?thesis unfolding des_def by blast
qed

subsection \<open>Frame properties of the transfer bookkeeping\<close>

lemma sent_packets_append:
  "sent_packets (xs @ ys) = sent_packets xs @ sent_packets ys"
  by (induction xs rule: sent_packets.induct) simp_all

lemma cancel_transfers_frame:
  "cancel_transfers n d = d\<lparr>events := events (cancel_transfers n d)\<rparr>"
proof (induction n arbitrary: d)
  case 0
  show ?case by simp
next
  case (Suc n)
  show ?case
    by (cases "transfer_slot d n") (simp, subst Suc.IH, simp)+
qed

lemma cancel_transfers_packets:
  "sent_packets (events (cancel_transfers n d)) = sent_packets (events d)"
proof (induction n arbitrary: d)
  case 0
  show ?case by simp
next
  case (Suc n)
  show ?case
    by (cases "transfer_slot d n") (simp_all add: Suc.IH sent_packets_append)
qed

lemma abort_frame:
  "fx2lafw_abort_acquisition d =
     d\<lparr>num_samples := - 1, events := events (fx2lafw_abort_acquisition d)\<rparr>"
  unfolding fx2lafw_abort_acquisition_def
  by (subst cancel_transfers_frame) simp

lemma abort_fields:
  "num_samples (fx2lafw_abort_acquisition d) = - 1"
  "submitted_transfers (fx2lafw_abort_acquisition d) = submitted_transfers d"
  "empty_transfer_count (fx2lafw_abort_acquisition d) = empty_transfer_count d"
  "num_transfers (fx2lafw_abort_acquisition d) = num_transfers d"
  "transfers (fx2lafw_abort_acquisition d) = transfers d"
  by (subst abort_frame, simp)+

lemma abort_packets:
  "sent_packets (events (fx2lafw_abort_acquisition d)) = sent_packets (events d)"
  by (simp add: fx2lafw_abort_acquisition_def cancel_transfers_packets)

lemma clear_transfer_slot_frame:
  "clear_transfer_slot t k d = d\<lparr>transfers := transfers (clear_transfer_slot t k d)\<rparr>"
  by (induction k) (simp_all add: Let_def)

lemma clear_transfer_slot_fields:
  "events (clear_transfer_slot t k d) = events d"
  "num_samples (clear_transfer_slot t k d) = num_samples d"
  "submitted_transfers (clear_transfer_slot t k d) = submitted_transfers d"
  "empty_transfer_count (clear_transfer_slot t k d) = empty_transfer_count d"
  "num_transfers (clear_transfer_slot t k d) = num_transfers d"
  "trigger_stage (clear_transfer_slot t k d) = trigger_stage d"
  "dslogic_status (clear_transfer_slot t k d) = dslogic_status d"
  by (subst clear_transfer_slot_frame, simp)+

lemma free_transfer_fields:
  "num_samples (fx2lafw_free_transfer d t) = num_samples d"
  "submitted_transfers (fx2lafw_free_transfer d t) = submitted_transfers d - 1"
  "empty_transfer_count (fx2lafw_free_transfer d t) = empty_transfer_count d"
  "trigger_stage (fx2lafw_free_transfer d t) = trigger_stage d"
  "dslogic_status (fx2lafw_free_transfer d t) = dslogic_status d"
  by (simp_all add: fx2lafw_free_transfer_def finish_acquisition_def session_send_def Let_def
        clear_transfer_slot_fields)

lemma free_transfer_events:
  "events (fx2lafw_free_transfer d t) =
     events d @ [Free_transfer t] @
       (if submitted_transfers d = 1
        then [Session_send SR_DF_END, Usb_source_remove, Free_transfers_array] else [])"
  by (simp add: fx2lafw_free_transfer_def finish_acquisition_def session_send_def Let_def
        clear_transfer_slot_fields)

lemma free_transfer_packets:
  "sent_packets (events (fx2lafw_free_transfer d t)) =
     sent_packets (events d) @ (if submitted_transfers d = 1 then [SR_DF_END] else [])"
  by (simp add: free_transfer_events sent_packets_append)

lemma resubmit_fields:
  "num_samples (resubmit_transfer d t ok) = num_samples d"
  "empty_transfer_count (resubmit_transfer d t ok) = empty_transfer_count d"
  by (simp_all add: resubmit_transfer_def free_transfer_fields Let_def)


lemma trigger_scan_end:
  assumes "\<not> (i < c \<and> 0 \<le> trigger_stage d \<and> trigger_stage d < int NUM_TRIGGER_STAGES)"
  shows "trigger_scan d buf w c i = (d, 0)"
  by (subst trigger_scan.simps, subst if_not_P [OF assms], rule refl)

lemma trigger_scan_fail0:
  "i < c \<Longrightarrow> trigger_stage d = 0 \<Longrightarrow>
   (sample_at (sample_wide d) buf i AND trigger_mask d ! 0) \<noteq> trigger_value d ! 0 \<Longrightarrow>
   j = i + 1 \<Longrightarrow>
   trigger_scan d buf w c i = trigger_scan d buf w c j"
  by (subst trigger_scan.simps) (simp add: NUM_TRIGGER_STAGES_def)

lemma trigger_scan_back:
  "i < c \<Longrightarrow> 0 < trigger_stage d \<Longrightarrow> trigger_stage d < int NUM_TRIGGER_STAGES \<Longrightarrow>
   (sample_at (sample_wide d) buf i AND trigger_mask d ! nat (trigger_stage d)) \<noteq>
     trigger_value d ! nat (trigger_stage d) \<Longrightarrow>
   j = nat ((if int i - trigger_stage d < - 1 then - 1 else int i - trigger_stage d) + 1) \<Longrightarrow>
   trigger_scan d buf w c i = trigger_scan (d\<lparr>trigger_stage := 0\<rparr>) buf w c j"
  by (subst trigger_scan.simps) (simp add: Let_def)

lemma trigger_scan_match:
  "i < c \<Longrightarrow> 0 \<le> trigger_stage d \<Longrightarrow> trigger_stage d < int NUM_TRIGGER_STAGES \<Longrightarrow>
   (sample_at (sample_wide d) buf i AND trigger_mask d ! nat (trigger_stage d)) =
     trigger_value d ! nat (trigger_stage d) \<Longrightarrow>
   \<not> (trigger_stage d + 1 = int NUM_TRIGGER_STAGES \<or>
      trigger_mask d ! nat (trigger_stage d + 1) = 0) \<Longrightarrow>
   j = i + 1 \<Longrightarrow>
   trigger_scan d buf w c i =
     trigger_scan
       (d\<lparr>trigger_buffer :=
            (trigger_buffer d)[nat (trigger_stage d) := sample_at (sample_wide d) buf i],
          trigger_stage := trigger_stage d + 1\<rparr>) buf w c j"
  by (subst trigger_scan.simps) (simp add: Let_def)

lemma trigger_scan_fire:
  "i < c \<Longrightarrow> 0 \<le> trigger_stage d \<Longrightarrow> trigger_stage d < int NUM_TRIGGER_STAGES \<Longrightarrow>
   (sample_at (sample_wide d) buf i AND trigger_mask d ! nat (trigger_stage d)) =
     trigger_value d ! nat (trigger_stage d) \<Longrightarrow>
   trigger_stage d + 1 = int NUM_TRIGGER_STAGES \<or>
      trigger_mask d ! nat (trigger_stage d + 1) = 0 \<Longrightarrow>
   j = i + 1 \<Longrightarrow>
   trigger_scan d buf w c i =
     (d\<lparr>trigger_buffer :=
          (trigger_buffer d)[nat (trigger_stage d) := sample_at (sample_wide d) buf i],
        trigger_stage := TRIGGER_FIRED,
        events := events d @
          [Session_send (SR_DF_TRIGGER None),
           Session_send (SR_DF_LOGIC w (nat (trigger_stage d + 1) * w)
             (Trigger_buffer ((trigger_buffer d)[nat (trigger_stage d) :=
                sample_at (sample_wide d) buf i])))]\<rparr>, j)"
  by (subst trigger_scan.simps) (simp add: Let_def session_send_def)

lemma trigger_scan_frame:
  "fst (trigger_scan d buf w c i) =
     d\<lparr>trigger_buffer := trigger_buffer (fst (trigger_scan d buf w c i)),
       trigger_stage := trigger_stage (fst (trigger_scan d buf w c i)),
       events := events (fst (trigger_scan d buf w c i))\<rparr>"
proof (induction d buf w c i rule: trigger_scan.induct)
  case (1 d buf w c i)
  show ?case
  proof (cases "i < c \<and> 0 \<le> trigger_stage d \<and> trigger_stage d < int NUM_TRIGGER_STAGES")
    case False
    then show ?thesis by (simp add: trigger_scan_end)
  next
    case c: True
    show ?thesis
    proof (cases "(sample_at (sample_wide d) buf i AND trigger_mask d ! nat (trigger_stage d)) =
                  trigger_value d ! nat (trigger_stage d)")
      case m: True
      show ?thesis
      proof (cases "trigger_stage d + 1 = int NUM_TRIGGER_STAGES \<or>
                    trigger_mask d ! nat (trigger_stage d + 1) = 0")
        case True
        with c m show ?thesis by (simp add: trigger_scan_fire [where j = "i + 1"])
      next
        case nf: False
        let ?d1 = "d\<lparr>trigger_buffer :=
            (trigger_buffer d)[nat (trigger_stage d) := sample_at (sample_wide d) buf i],
          trigger_stage := trigger_stage d + 1\<rparr>"
        have s: "trigger_scan d buf w c i = trigger_scan ?d1 buf w c (i + 1)"
          by (rule trigger_scan_match) (use c m nf in simp_all)
        have IH: "fst (trigger_scan ?d1 buf w c (i + 1)) =
           ?d1\<lparr>trigger_buffer := trigger_buffer (fst (trigger_scan ?d1 buf w c (i + 1))),
             trigger_stage := trigger_stage (fst (trigger_scan ?d1 buf w c (i + 1))),
             events := events (fst (trigger_scan ?d1 buf w c (i + 1)))\<rparr>"
          by (rule "1.IH"(1)) (use c m nf in simp_all)
        show ?thesis unfolding s by (subst IH) simp
      qed
    next
      case nm: False
      show ?thesis
      proof (cases "0 < trigger_stage d")
        case pos: True
        let ?j = "nat ((if int i - trigger_stage d < - 1 then - 1 else int i - trigger_stage d) + 1)"
        let ?d1 = "d\<lparr>trigger_stage := 0\<rparr>"
        have s: "trigger_scan d buf w c i = trigger_scan ?d1 buf w c ?j"
          by (rule trigger_scan_back) (use c nm pos in simp_all)
        have IH: "fst (trigger_scan ?d1 buf w c ?j) =
           ?d1\<lparr>trigger_buffer := trigger_buffer (fst (trigger_scan ?d1 buf w c ?j)),
             trigger_stage := trigger_stage (fst (trigger_scan ?d1 buf w c ?j)),
             events := events (fst (trigger_scan ?d1 buf w c ?j))\<rparr>"
          by (rule "1.IH"(2)) (use c nm pos in simp_all)
        show ?thesis unfolding s by (subst IH) simp
      next
        case False
        with c have z: "trigger_stage d = 0" by simp
        have s: "trigger_scan d buf w c i = trigger_scan d buf w c (i + 1)"
          by (rule trigger_scan_fail0) (use c nm z in simp_all)
        have IH: "fst (trigger_scan d buf w c (i + 1)) =
           d\<lparr>trigger_buffer := trigger_buffer (fst (trigger_scan d buf w c (i + 1))),
             trigger_stage := trigger_stage (fst (trigger_scan d buf w c (i + 1))),
             events := events (fst (trigger_scan d buf w c (i + 1)))\<rparr>"
          by (rule "1.IH"(3)) (use c nm z in simp_all)
        show ?thesis unfolding s by (rule IH)
      qed
    qed
  qed
qed

lemma trigger_scan_fields:
  "empty_transfer_count (fst (trigger_scan d buf w c i)) = empty_transfer_count d"
  "num_samples (fst (trigger_scan d buf w c i)) = num_samples d"
  "limit_samples (fst (trigger_scan d buf w c i)) = limit_samples d"
  "submitted_transfers (fst (trigger_scan d buf w c i)) = submitted_transfers d"
  by (subst trigger_scan_frame, simp)+

lemma test_internal_loop_frame:
  "test_internal_loop buf n k d =
     d\<lparr>dslogic_test_init := dslogic_test_init (test_internal_loop buf n k d),
       dslogic_test_sample_value := dslogic_test_sample_value (test_internal_loop buf n k d)\<rparr>"
proof (induction k arbitrary: d)
  case 0
  show ?case by simp
next
  case (Suc k)
  show ?case
    by (simp add: Let_def) (intro conjI impI; subst Suc.IH; simp)
qed

lemma test_internal_loop_fields:
  "empty_transfer_count (test_internal_loop buf n k d) = empty_transfer_count d"
  "num_samples (test_internal_loop buf n k d) = num_samples d"
  "limit_samples (test_internal_loop buf n k d) = limit_samples d"
  "events (test_internal_loop buf n k d) = events d"
  "dslogic_test (test_internal_loop buf n k d) = dslogic_test d"
  by (subst test_internal_loop_frame, simp)+


lemma session_send_fields:
  "empty_transfer_count (session_send p d) = empty_transfer_count d"
  "limit_samples (session_send p d) = limit_samples d"
  "num_samples (session_send p d) = num_samples d"
  by (simp_all add: session_send_def)

lemma test_external_fields:
  "empty_transfer_count (test_external buf n d) = empty_transfer_count d"
  "limit_samples (test_external buf n d) = limit_samples d"
  "num_samples (test_external buf n d) = num_samples d"
  "events (test_external buf n d) = events d"
  by (simp_all add: test_external_def Let_def)

lemma send_transfer_data_fields:
  "empty_transfer_count (send_transfer_data d t w c off g) = empty_transfer_count d"
  "limit_samples (send_transfer_data d t w c off g) = limit_samples d"
  "num_samples (send_transfer_data d t w c off g) = num_samples d + int c"
  unfolding send_transfer_data_def Let_def
  by (simp_all add: session_send_fields test_external_fields test_internal_loop_fields)

lemma receive_transfer_good:
  assumes "num_samples d \<noteq> - 1" and "actual_length t \<noteq> 0"
    and "status t = LIBUSB_TRANSFER_COMPLETED \<or> status t = LIBUSB_TRANSFER_TIMED_OUT"
  shows "empty_transfer_count (fx2lafw_receive_transfer d t ok g) = 0"
proof -
  have s: "(status t = LIBUSB_TRANSFER_NO_DEVICE) = False"
    "(status t \<noteq> LIBUSB_TRANSFER_COMPLETED \<and> status t \<noteq> LIBUSB_TRANSFER_TIMED_OUT) = False"
    using assms(3) by auto
  let ?w = "if sample_wide d then 2 else 1 :: nat"
  let ?d1 = "d\<lparr>empty_transfer_count := 0\<rparr>"
  define sc where "sc = (if trigger_stage ?d1 \<ge> 0
                          then trigger_scan ?d1 (buffer t) ?w (actual_length t div ?w) 0
                          else (?d1, 0))"
  have e: "empty_transfer_count (fst sc) = 0"
    by (simp add: sc_def trigger_scan_fields)
  have r: "fx2lafw_receive_transfer d t ok g =
     (if trigger_stage (fst sc) = TRIGGER_FIRED then
           let d3 = send_transfer_data (fst sc) t ?w (actual_length t div ?w) (snd sc) g
           in if limit_samples d3 \<noteq> 0 \<and> nat (num_samples d3 mod 2 ^ 32) > limit_samples d3
              then fx2lafw_free_transfer (fx2lafw_abort_acquisition d3) (tid t)
              else resubmit_transfer d3 (tid t) ok
         else resubmit_transfer (fst sc) (tid t) ok)"
    unfolding fx2lafw_receive_transfer_def Let_def sc_def [symmetric]
    by (simp only: assms(1,2) s if_False simp_thms split_beta)
  show ?thesis
    unfolding r Let_def
    by (simp add: e resubmit_fields free_transfer_fields abort_fields send_transfer_data_fields)
qed

subsection \<open>Empty and failed transfers\<close>

lemma receive_transfer_late:
  "num_samples d = - 1 \<Longrightarrow> fx2lafw_receive_transfer d t ok g = fx2lafw_free_transfer d (tid t)"
  by (simp add: fx2lafw_receive_transfer_def)

lemma trigger_pos_late:
  "num_samples d = - 1 \<Longrightarrow>
   dslogic_receive_trigger_pos d t a env = Some (fx2lafw_free_transfer d (tid t))"
  by (simp add: dslogic_receive_trigger_pos_def)

lemma deliver_transfers_aborted:
  "num_samples d = - 1 \<Longrightarrow> num_samples (deliver_transfers d ts) = - 1"
  by (induction ts arbitrary: d) (simp_all add: receive_transfer_late free_transfer_fields)

lemma receive_transfer_empty:
  assumes "num_samples d \<noteq> - 1" and "status t \<noteq> LIBUSB_TRANSFER_NO_DEVICE"
    and "actual_length t = 0 \<or>
         (status t \<noteq> LIBUSB_TRANSFER_COMPLETED \<and> status t \<noteq> LIBUSB_TRANSFER_TIMED_OUT)"
  shows "fx2lafw_receive_transfer d t ok g =
           (if empty_transfer_count d + 1 > int MAX_EMPTY_TRANSFERS
            then fx2lafw_free_transfer
                   (fx2lafw_abort_acquisition
                      (d\<lparr>empty_transfer_count := empty_transfer_count d + 1\<rparr>)) (tid t)
            else resubmit_transfer (d\<lparr>empty_transfer_count := empty_transfer_count d + 1\<rparr>)
                   (tid t) ok)"
  unfolding fx2lafw_receive_transfer_def Let_def
  using assms by (simp only: if_False if_True simp_thms) simp

text \<open>
  Claim C6. In \<^verbatim>\<open>fx2lafw_receive_transfer\<close>, when \<^verbatim>\<open>num_samples\<close> is not \<open>-1\<close> and the
  status of the transfer is not \<^verbatim>\<open>NO_DEVICE\<close>: if \<^verbatim>\<open>actual_length\<close> is 0 or the status is
  an error status (neither completed nor timed out), \<^verbatim>\<open>empty_transfer_count\<close> is
  incremented and, if it then exceeds \<^verbatim>\<open>MAX_EMPTY_TRANSFERS\<close> = 64, the acquisition is
  aborted (\<^verbatim>\<open>num_samples\<close> becomes \<open>-1\<close>) and the transfer freed, otherwise the transfer
  is resubmitted; a completed or timed-out transfer with nonzero \<^verbatim>\<open>actual_length\<close>
  leaves \<^verbatim>\<open>empty_transfer_count\<close> at 0.
\<close>

theorem receive_transfer_empty_count:
  assumes "num_samples d \<noteq> - 1" and "status t \<noteq> LIBUSB_TRANSFER_NO_DEVICE"
  shows
    "(actual_length t = 0 \<or>
      (status t \<noteq> LIBUSB_TRANSFER_COMPLETED \<and> status t \<noteq> LIBUSB_TRANSFER_TIMED_OUT) \<longrightarrow>
        fx2lafw_receive_transfer d t ok g =
          (if empty_transfer_count d + 1 > int MAX_EMPTY_TRANSFERS
           then fx2lafw_free_transfer
                  (fx2lafw_abort_acquisition
                     (d\<lparr>empty_transfer_count := empty_transfer_count d + 1\<rparr>)) (tid t)
           else resubmit_transfer (d\<lparr>empty_transfer_count := empty_transfer_count d + 1\<rparr>)
                  (tid t) ok) \<and>
        empty_transfer_count (fx2lafw_receive_transfer d t ok g) = empty_transfer_count d + 1 \<and>
        (empty_transfer_count d + 1 > int MAX_EMPTY_TRANSFERS \<longrightarrow>
           num_samples (fx2lafw_receive_transfer d t ok g) = - 1)) \<and>
     (actual_length t \<noteq> 0 \<and>
      (status t = LIBUSB_TRANSFER_COMPLETED \<or> status t = LIBUSB_TRANSFER_TIMED_OUT) \<longrightarrow>
        empty_transfer_count (fx2lafw_receive_transfer d t ok g) = 0) \<and>
     MAX_EMPTY_TRANSFERS = 64"
proof (intro conjI impI)
  assume e: "actual_length t = 0 \<or>
      (status t \<noteq> LIBUSB_TRANSFER_COMPLETED \<and> status t \<noteq> LIBUSB_TRANSFER_TIMED_OUT)"
  note r = receive_transfer_empty [OF assms e, of ok g]
  show "fx2lafw_receive_transfer d t ok g =
          (if empty_transfer_count d + 1 > int MAX_EMPTY_TRANSFERS
           then fx2lafw_free_transfer
                  (fx2lafw_abort_acquisition
                     (d\<lparr>empty_transfer_count := empty_transfer_count d + 1\<rparr>)) (tid t)
           else resubmit_transfer (d\<lparr>empty_transfer_count := empty_transfer_count d + 1\<rparr>)
                  (tid t) ok)"
    by (rule r)
  show "empty_transfer_count (fx2lafw_receive_transfer d t ok g) = empty_transfer_count d + 1"
    unfolding r by (simp add: free_transfer_fields abort_fields resubmit_fields)
  show "num_samples (fx2lafw_receive_transfer d t ok g) = - 1"
    if "empty_transfer_count d + 1 > int MAX_EMPTY_TRANSFERS"
    unfolding r using that by (simp add: free_transfer_fields abort_fields)
next
  assume "actual_length t \<noteq> 0 \<and>
      (status t = LIBUSB_TRANSFER_COMPLETED \<or> status t = LIBUSB_TRANSFER_TIMED_OUT)"
  then show "empty_transfer_count (fx2lafw_receive_transfer d t ok g) = 0"
    using assms(1) by (simp add: receive_transfer_good)
next
  show "MAX_EMPTY_TRANSFERS = 64"
    by (simp add: MAX_EMPTY_TRANSFERS_def NUM_SIMUL_TRANSFERS_def)
qed

subsection \<open>Callbacks after an abort\<close>

text \<open>
  Claim C1, as amended. Once \<^verbatim>\<open>num_samples\<close> is \<open>-1\<close> it stays \<open>-1\<close> through every
  transfer callback, and each callback invoked then (\<^verbatim>\<open>fx2lafw_receive_transfer\<close> and
  \<^verbatim>\<open>dslogic_receive_trigger_pos\<close> alike) does exactly what \<^verbatim>\<open>fx2lafw_free_transfer\<close>
  does: it releases its transfer, decrements \<^verbatim>\<open>submitted_transfers\<close> and sends no
  packet, except that the callback which brings \<^verbatim>\<open>submitted_transfers\<close> to 0 sends
  the END packet (and removes the USB source and releases the array).
\<close>

theorem late_callback_frees:
  assumes "num_samples d = - 1"
  shows "fx2lafw_receive_transfer d t ok g = fx2lafw_free_transfer d (tid t) \<and>
         dslogic_receive_trigger_pos d t a env = Some (fx2lafw_free_transfer d (tid t)) \<and>
         num_samples (fx2lafw_free_transfer d (tid t)) = - 1 \<and>
         num_samples (deliver_transfers d ts) = - 1 \<and>
         submitted_transfers (fx2lafw_free_transfer d (tid t)) = submitted_transfers d - 1 \<and>
         events (fx2lafw_free_transfer d (tid t)) =
           events d @ [Free_transfer (tid t)] @
             (if submitted_transfers d = 1
              then [Session_send SR_DF_END, Usb_source_remove, Free_transfers_array] else []) \<and>
         sent_packets (events (fx2lafw_free_transfer d (tid t))) =
           sent_packets (events d) @ (if submitted_transfers d = 1 then [SR_DF_END] else [])"
  using assms
  by (simp add: receive_transfer_late trigger_pos_late deliver_transfers_aborted
        free_transfer_fields free_transfer_events sent_packets_append)

lemma example_aborted_fields:
  "num_samples example_aborted_devc = - 1" "submitted_transfers example_aborted_devc = 1"
  "events example_aborted_devc = []"
  by (simp_all add: example_aborted_devc_def example_devc_def)

theorem late_callback_frees_witness:
  "num_samples example_aborted_devc = - 1 \<and>
   fx2lafw_receive_transfer example_aborted_devc (example_cancelled_transfer 3) True 0 =
     fx2lafw_free_transfer example_aborted_devc 3 \<and>
   events (fx2lafw_free_transfer example_aborted_devc 3) =
     [Free_transfer 3, Session_send SR_DF_END, Usb_source_remove, Free_transfers_array] \<and>
   num_samples (fx2lafw_free_transfer example_aborted_devc 3) = - 1 \<and>
   submitted_transfers (fx2lafw_free_transfer example_aborted_devc 3) = 0"
  using late_callback_frees [OF example_aborted_fields(1), of "example_cancelled_transfer 3" True 0]
    example_aborted_fields
  by (simp add: example_cancelled_transfer_def)

text \<open>
  The claim as stated has every late callback return without any packet. The
  callback of the last transfer in flight sends END.
\<close>

theorem late_callback_sends_end:
  "num_samples example_aborted_devc = - 1 \<and>
   sent_packets (events example_aborted_devc) = [] \<and>
   sent_packets (events (fx2lafw_receive_transfer example_aborted_devc
                           (example_cancelled_transfer 3) True 0)) = [SR_DF_END] \<and>
   dslogic_receive_trigger_pos example_aborted_devc (example_cancelled_transfer 3) True
       (\<lambda>i. Submitted i) = Some (fx2lafw_free_transfer example_aborted_devc 3) \<and>
   sent_packets (events (fx2lafw_free_transfer example_aborted_devc 3)) = [SR_DF_END]"
  using example_aborted_fields
  by (simp add: receive_transfer_late trigger_pos_late free_transfer_packets
        example_cancelled_transfer_def)

lemma example_devc_fields:
  "trigger_stage example_devc = 0" "trigger_mask example_devc = [0xFF, 0xFF, 0, 0]"
  "trigger_value example_devc = [0x10, 0x20, 0, 0]" "trigger_buffer example_devc = [0, 0, 0, 0]"
  "sample_wide example_devc = False" "events example_devc = []"
  "num_samples example_devc = 0" "dslogic example_devc = False"
  "limit_samples example_devc = 0" "empty_transfer_count example_devc = 0"
  "num_transfers example_devc = 3" "transfers example_devc = [Some 1, Some 2, Some 3]"
  "submitted_transfers example_devc = 3"
  by (simp_all add: example_devc_def)

lemma example_abort_events:
  "events d = [] \<Longrightarrow> num_transfers d = 3 \<Longrightarrow> transfers d = [Some 1, Some 2, Some 3] \<Longrightarrow>
   events (fx2lafw_abort_acquisition d) =
     [Cancel_transfer 3, Cancel_transfer 2, Cancel_transfer 1]"
  by (simp add: fx2lafw_abort_acquisition_def eval_nat_numeral transfer_slot_def)

theorem receive_transfer_empty_count_witness:
  "num_samples example_devc \<noteq> - 1 \<and>
   status example_empty_transfer \<noteq> LIBUSB_TRANSFER_NO_DEVICE \<and>
   actual_length example_empty_transfer = 0 \<and>
   fx2lafw_receive_transfer example_devc example_empty_transfer True 0 =
     example_devc\<lparr>empty_transfer_count := 1, events := [Submit_transfer 1 True]\<rparr> \<and>
   events (fx2lafw_receive_transfer (example_devc\<lparr>empty_transfer_count := 64\<rparr>)
             example_empty_transfer True 0) =
     [Cancel_transfer 3, Cancel_transfer 2, Cancel_transfer 1, Free_transfer 1] \<and>
   num_samples (fx2lafw_receive_transfer (example_devc\<lparr>empty_transfer_count := 64\<rparr>)
             example_empty_transfer True 0) = - 1 \<and>
   actual_length example_transfer_gap \<noteq> 0 \<and>
   status example_transfer_gap = LIBUSB_TRANSFER_COMPLETED \<and>
   empty_transfer_count (fx2lafw_receive_transfer (example_devc\<lparr>empty_transfer_count := 5\<rparr>)
             example_transfer_gap True 0) = 0"
proof -
  have h: "num_samples example_devc \<noteq> - 1"
    "status example_empty_transfer \<noteq> LIBUSB_TRANSFER_NO_DEVICE"
    "actual_length example_empty_transfer = 0"
    "actual_length example_transfer_gap \<noteq> 0"
    "status example_transfer_gap = LIBUSB_TRANSFER_COMPLETED"
    "status example_transfer_gap \<noteq> LIBUSB_TRANSFER_NO_DEVICE"
    by (simp_all add: example_devc_fields example_empty_transfer_def example_transfer_gap_def)
  have h64: "num_samples (example_devc\<lparr>empty_transfer_count := 64\<rparr>) \<noteq> - 1"
    and h5: "num_samples (example_devc\<lparr>empty_transfer_count := 5\<rparr>) \<noteq> - 1"
    by (simp_all add: example_devc_fields)
  have a: "fx2lafw_receive_transfer example_devc example_empty_transfer True 0 =
     example_devc\<lparr>empty_transfer_count := 1, events := [Submit_transfer 1 True]\<rparr>"
    using receive_transfer_empty_count [OF h(1,2), of True 0, THEN conjunct1] h(3)
    by (simp add: example_devc_fields MAX_EMPTY_TRANSFERS_def NUM_SIMUL_TRANSFERS_def
          resubmit_transfer_def example_empty_transfer_def)
  have b: "fx2lafw_receive_transfer (example_devc\<lparr>empty_transfer_count := 64\<rparr>)
             example_empty_transfer True 0 =
           fx2lafw_free_transfer
             (fx2lafw_abort_acquisition (example_devc\<lparr>empty_transfer_count := 65\<rparr>)) 1"
    using receive_transfer_empty_count [OF h64 h(2), of True 0, THEN conjunct1] h(3)
    by (simp add: example_devc_fields MAX_EMPTY_TRANSFERS_def NUM_SIMUL_TRANSFERS_def
          example_empty_transfer_def)
  have b1: "events (fx2lafw_receive_transfer (example_devc\<lparr>empty_transfer_count := 64\<rparr>)
             example_empty_transfer True 0) =
     [Cancel_transfer 3, Cancel_transfer 2, Cancel_transfer 1, Free_transfer 1]"
    unfolding b
    by (simp add: free_transfer_events abort_fields example_abort_events example_devc_fields)
  have b2: "num_samples (fx2lafw_receive_transfer (example_devc\<lparr>empty_transfer_count := 64\<rparr>)
             example_empty_transfer True 0) = - 1"
    unfolding b by (simp add: free_transfer_fields abort_fields)
  have c: "empty_transfer_count (fx2lafw_receive_transfer
             (example_devc\<lparr>empty_transfer_count := 5\<rparr>) example_transfer_gap True 0) = 0"
    using receive_transfer_empty_count [OF h5 h(6), of True 0, THEN conjunct2, THEN conjunct1]
      h(4,5)
    by simp
  from h a b1 b2 c show ?thesis by simp
qed

subsection \<open>The software trigger on the scenario of the specification\<close>

lemma scan_gap:
  "trigger_scan (example_devc\<lparr>empty_transfer_count := 0\<rparr>) [0x10, 0x05, 0x20, 0x55] 1 4 0 =
     (example_devc\<lparr>empty_transfer_count := 0, trigger_buffer := [0x10, 0, 0, 0]\<rparr>, 0)"
proof -
  let ?buf = "[0x10, 0x05, 0x20, 0x55] :: 8 word list"
  let ?d0 = "example_devc\<lparr>empty_transfer_count := 0\<rparr>"
  let ?d1 = "example_devc\<lparr>empty_transfer_count := 0, trigger_buffer := [0x10, 0, 0, 0],
                          trigger_stage := 1\<rparr>"
  let ?d2 = "example_devc\<lparr>empty_transfer_count := 0, trigger_buffer := [0x10, 0, 0, 0],
                          trigger_stage := 0\<rparr>"
  have "trigger_scan ?d0 ?buf 1 4 0 = trigger_scan ?d1 ?buf 1 4 1"
    by (subst trigger_scan_match [where j = 1])
       (simp_all add: example_devc_fields sample_at_def NUM_TRIGGER_STAGES_def)
  also have "\<dots> = trigger_scan ?d2 ?buf 1 4 1"
    by (subst trigger_scan_back [where j = 1])
       (simp_all add: example_devc_fields sample_at_def NUM_TRIGGER_STAGES_def)
  also have "\<dots> = trigger_scan ?d2 ?buf 1 4 2"
    by (subst trigger_scan_fail0 [where j = 2])
       (simp_all add: example_devc_fields sample_at_def NUM_TRIGGER_STAGES_def)
  also have "\<dots> = trigger_scan ?d2 ?buf 1 4 3"
    by (subst trigger_scan_fail0 [where j = 3])
       (simp_all add: example_devc_fields sample_at_def NUM_TRIGGER_STAGES_def)
  also have "\<dots> = trigger_scan ?d2 ?buf 1 4 4"
    by (subst trigger_scan_fail0 [where j = 4])
       (simp_all add: example_devc_fields sample_at_def NUM_TRIGGER_STAGES_def)
  also have "\<dots> = (?d2, 0)"
    by (rule trigger_scan_end) simp
  finally show ?thesis by (simp add: example_devc_def)
qed

lemma scan_adjacent:
  "trigger_scan (example_devc\<lparr>empty_transfer_count := 0\<rparr>) [0x10, 0x20, 0x55] 1 3 0 =
     (example_devc\<lparr>empty_transfer_count := 0, trigger_buffer := [0x10, 0x20, 0, 0],
        trigger_stage := - 1,
        events := [Session_send (SR_DF_TRIGGER None),
                   Session_send (SR_DF_LOGIC 1 2 (Trigger_buffer [0x10, 0x20, 0, 0]))]\<rparr>, 2)"
proof -
  let ?buf = "[0x10, 0x20, 0x55] :: 8 word list"
  let ?d0 = "example_devc\<lparr>empty_transfer_count := 0\<rparr>"
  let ?d1 = "example_devc\<lparr>empty_transfer_count := 0, trigger_buffer := [0x10, 0, 0, 0],
                          trigger_stage := 1\<rparr>"
  have "trigger_scan ?d0 ?buf 1 3 0 = trigger_scan ?d1 ?buf 1 3 1"
    by (subst trigger_scan_match [where j = 1])
       (simp_all add: example_devc_fields sample_at_def NUM_TRIGGER_STAGES_def)
  also have "\<dots> = (example_devc\<lparr>empty_transfer_count := 0, trigger_buffer := [0x10, 0x20, 0, 0],
        trigger_stage := - 1,
        events := [Session_send (SR_DF_TRIGGER None),
                   Session_send (SR_DF_LOGIC 1 2 (Trigger_buffer [0x10, 0x20, 0, 0]))]\<rparr>, 2)"
    by (subst trigger_scan_fire [where j = 2])
       (simp_all add: example_devc_fields sample_at_def NUM_TRIGGER_STAGES_def TRIGGER_FIRED_def)
  finally show ?thesis .
qed

lemma receive_gap:
  "fx2lafw_receive_transfer example_devc example_transfer_gap True g =
     example_devc\<lparr>empty_transfer_count := 0, trigger_buffer := [0x10, 0, 0, 0],
                  events := [Submit_transfer 1 True]\<rparr>"
  by (simp add: fx2lafw_receive_transfer_def example_transfer_gap_def example_devc_fields
        scan_gap [unfolded One_nat_def] resubmit_transfer_def TRIGGER_FIRED_def)

lemma receive_adjacent:
  "fx2lafw_receive_transfer example_devc example_transfer_adjacent True g =
     example_devc\<lparr>empty_transfer_count := 0, trigger_buffer := [0x10, 0x20, 0, 0],
       trigger_stage := - 1, num_samples := 3,
       events := [Session_send (SR_DF_TRIGGER None),
                  Session_send (SR_DF_LOGIC 1 2 (Trigger_buffer [0x10, 0x20, 0, 0])),
                  Session_send (SR_DF_LOGIC 1 1 (Transfer_bytes [0x55])),
                  Submit_transfer 1 True]\<rparr>"
  by (simp add: fx2lafw_receive_transfer_def example_transfer_adjacent_def example_devc_fields
        scan_adjacent [unfolded One_nat_def] resubmit_transfer_def TRIGGER_FIRED_def
        send_transfer_data_def
        session_send_def Let_def)

text \<open>
  Claim C3, as amended. With \<open>trigger_mask = [0xFF, 0xFF, 0, 0]\<close>,
  \<open>trigger_value = [0x10, 0x20, 0, 0]\<close> and \<open>trigger_stage = 0\<close>, 8-bit samples:

  \<^item> over the buffer \<open>[0x10, 0x05, 0x20, 0x55]\<close> the scanner sends no packet: the match
    of stage 0 on \<open>0x10\<close> is given up when \<open>0x05\<close> fails stage 1, no later sample
    matches stage 0, \<^verbatim>\<open>trigger_stage\<close> ends at 0 and the transfer is resubmitted;
  \<^item> over the buffer \<open>[0x10, 0x20, 0x55]\<close>, where the matching samples are adjacent,
    the trigger fires at sample index 1 (\<^verbatim>\<open>trigger_offset\<close> is 2) and the packets are
    TRIGGER without payload, LOGIC of unit size 1 and length 2 for the samples that
    matched, and LOGIC carrying the remaining \<open>0x55\<close>; what the two bytes of the
    first LOGIC packet are is not part of the statement;
  \<^item> on a failed match with \<open>0 < trigger_stage\<close> the scan continues at index
    \<open>max(-1, i - trigger_stage) + 1\<close> with \<^verbatim>\<open>trigger_stage\<close> reset to 0.
\<close>

theorem software_trigger_consecutive:
  "trigger_mask example_devc = [0xFF, 0xFF, 0, 0] \<and>
   trigger_value example_devc = [0x10, 0x20, 0, 0] \<and>
   trigger_stage example_devc = 0 \<and> \<not> sample_wide example_devc \<and>
   buffer example_transfer_gap = [0x10, 0x05, 0x20, 0x55] \<and>
   sent_packets (events (fx2lafw_receive_transfer example_devc example_transfer_gap True g)) = [] \<and>
   trigger_stage (fx2lafw_receive_transfer example_devc example_transfer_gap True g) = 0 \<and>
   events (fx2lafw_receive_transfer example_devc example_transfer_gap True g) =
     [Submit_transfer 1 True] \<and>
   buffer example_transfer_adjacent = [0x10, 0x20, 0x55] \<and>
   snd (trigger_scan (example_devc\<lparr>empty_transfer_count := 0\<rparr>)
          (buffer example_transfer_adjacent) 1 3 0) = 2 \<and>
   (\<exists>data.
      sent_packets (events (fx2lafw_receive_transfer example_devc example_transfer_adjacent
                              True g)) =
        [SR_DF_TRIGGER None, SR_DF_LOGIC 1 2 data, SR_DF_LOGIC 1 1 (Transfer_bytes [0x55])]) \<and>
   trigger_stage (fx2lafw_receive_transfer example_devc example_transfer_adjacent True g) =
     TRIGGER_FIRED \<and>
   (i < c \<and> 0 < trigger_stage d \<and> trigger_stage d < int NUM_TRIGGER_STAGES \<and>
    (sample_at (sample_wide d) buf i AND trigger_mask d ! nat (trigger_stage d)) \<noteq>
      trigger_value d ! nat (trigger_stage d) \<longrightarrow>
    trigger_scan d buf w c i =
      trigger_scan (d\<lparr>trigger_stage := 0\<rparr>) buf w c
        (nat (max (- 1) (int i - trigger_stage d) + 1)))"
proof -
  have step: "trigger_scan d buf w c i =
      trigger_scan (d\<lparr>trigger_stage := 0\<rparr>) buf w c
        (nat (max (- 1) (int i - trigger_stage d) + 1))"
    if "i < c" "0 < trigger_stage d" "trigger_stage d < int NUM_TRIGGER_STAGES"
      "(sample_at (sample_wide d) buf i AND trigger_mask d ! nat (trigger_stage d)) \<noteq>
        trigger_value d ! nat (trigger_stage d)"
    by (rule trigger_scan_back) (use that in \<open>simp_all add: max_def\<close>)
  have a: "trigger_mask example_devc = [0xFF, 0xFF, 0, 0]"
    "trigger_value example_devc = [0x10, 0x20, 0, 0]"
    "trigger_stage example_devc = 0" "\<not> sample_wide example_devc"
    by (simp_all add: example_devc_fields)
  have b: "buffer example_transfer_gap = [0x10, 0x05, 0x20, 0x55]"
    "buffer example_transfer_adjacent = [0x10, 0x20, 0x55]"
    by (simp_all add: example_transfer_gap_def example_transfer_adjacent_def)
  have c: "sent_packets (events (fx2lafw_receive_transfer example_devc example_transfer_gap
             True g)) = []"
    "trigger_stage (fx2lafw_receive_transfer example_devc example_transfer_gap True g) = 0"
    "events (fx2lafw_receive_transfer example_devc example_transfer_gap True g) =
       [Submit_transfer 1 True]"
    by (simp_all add: receive_gap example_devc_fields)
  have d: "snd (trigger_scan (example_devc\<lparr>empty_transfer_count := 0\<rparr>)
          (buffer example_transfer_adjacent) 1 3 0) = 2"
    by (simp only: b scan_adjacent snd_conv)
  have e: "\<exists>data.
      sent_packets (events (fx2lafw_receive_transfer example_devc example_transfer_adjacent
                              True g)) =
        [SR_DF_TRIGGER None, SR_DF_LOGIC 1 2 data, SR_DF_LOGIC 1 1 (Transfer_bytes [0x55])]"
    "trigger_stage (fx2lafw_receive_transfer example_devc example_transfer_adjacent True g) =
       TRIGGER_FIRED"
    by (simp_all add: receive_adjacent TRIGGER_FIRED_def)
  from a b c d e step show ?thesis by blast
qed

theorem software_trigger_consecutive_witness:
  "(1::nat) < 4 \<and>
   0 < trigger_stage (example_devc\<lparr>trigger_stage := 1\<rparr>) \<and>
   trigger_stage (example_devc\<lparr>trigger_stage := 1\<rparr>) < int NUM_TRIGGER_STAGES \<and>
   (sample_at (sample_wide (example_devc\<lparr>trigger_stage := 1\<rparr>)) [0x10, 0x05, 0x20, 0x55] 1 AND
      trigger_mask (example_devc\<lparr>trigger_stage := 1\<rparr>) !
        nat (trigger_stage (example_devc\<lparr>trigger_stage := 1\<rparr>))) \<noteq>
     trigger_value (example_devc\<lparr>trigger_stage := 1\<rparr>) !
        nat (trigger_stage (example_devc\<lparr>trigger_stage := 1\<rparr>)) \<and>
   trigger_scan (example_devc\<lparr>trigger_stage := 1\<rparr>) [0x10, 0x05, 0x20, 0x55] 1 4 1 =
     trigger_scan (example_devc\<lparr>trigger_stage := 0\<rparr>) [0x10, 0x05, 0x20, 0x55] 1 4 1 \<and>
   sent_packets (events (fx2lafw_receive_transfer example_devc example_transfer_gap True 0)) = []"
proof -
  let ?d = "example_devc\<lparr>trigger_stage := 1\<rparr>"
  let ?buf = "[0x10, 0x05, 0x20, 0x55] :: 8 word list"
  have h: "(1::nat) < 4 \<and> 0 < trigger_stage ?d \<and> trigger_stage ?d < int NUM_TRIGGER_STAGES \<and>
     (sample_at (sample_wide ?d) ?buf 1 AND trigger_mask ?d ! nat (trigger_stage ?d)) \<noteq>
       trigger_value ?d ! nat (trigger_stage ?d)"
    by (simp add: example_devc_fields NUM_TRIGGER_STAGES_def sample_at_def)
  note t = software_trigger_consecutive [of 0 1 4 ?d ?buf 1]
  have s: "trigger_scan ?d ?buf 1 4 1 = trigger_scan (?d\<lparr>trigger_stage := 0\<rparr>) ?buf 1 4
             (nat (max (- 1) (int 1 - trigger_stage ?d) + 1))"
    using t h by blast
  have p: "sent_packets (events (fx2lafw_receive_transfer example_devc example_transfer_gap
             True 0)) = []"
    using t by blast
  from s have "trigger_scan ?d ?buf 1 4 1 = trigger_scan (example_devc\<lparr>trigger_stage := 0\<rparr>)
                 ?buf 1 4 1"
    by simp
  with h p show ?thesis by blast
qed

text \<open>
  The claim as stated has the buffer \<open>[0x10, 0x05, 0x20, 0x55]\<close> produce a TRIGGER
  packet and two LOGIC packets. It produces none.
\<close>

theorem software_trigger_gap_no_packets:
  "trigger_mask example_devc = [0xFF, 0xFF, 0, 0] \<and>
   trigger_value example_devc = [0x10, 0x20, 0, 0] \<and>
   trigger_stage example_devc = 0 \<and> \<not> sample_wide example_devc \<and>
   status example_transfer_gap = LIBUSB_TRANSFER_COMPLETED \<and>
   actual_length example_transfer_gap = 4 \<and>
   buffer example_transfer_gap = [0x10, 0x05, 0x20, 0x55] \<and>
   sent_packets (events (fx2lafw_receive_transfer example_devc example_transfer_gap True 0)) = [] \<and>
   trigger_stage (fx2lafw_receive_transfer example_devc example_transfer_gap True 0) = 0"
proof -
  have a: "status example_transfer_gap = LIBUSB_TRANSFER_COMPLETED"
    "actual_length example_transfer_gap = 4"
    "buffer example_transfer_gap = [0x10, 0x05, 0x20, 0x55]"
    by (simp_all add: example_transfer_gap_def)
  have b: "sent_packets (events (fx2lafw_receive_transfer example_devc example_transfer_gap
             True 0)) = []"
    "trigger_stage (fx2lafw_receive_transfer example_devc example_transfer_gap True 0) = 0"
    by (simp_all add: receive_gap example_devc_fields)
  from a b show ?thesis by (simp add: example_devc_fields)
qed

subsection \<open>Configuring the channels\<close>

lemma list4_update:
  "length xs = 4 \<Longrightarrow> xs[0 := a, 1 := b, 2 := c, 3 := d] = [a, b, c, d]"
  by (cases xs; cases "tl xs"; cases "tl (tl xs)"; cases "tl (tl (tl xs))") auto

lemma clear_triggers_all:
  assumes "length (trigger_mask d) = 4" and "length (trigger_value d) = 4"
  shows "clear_triggers NUM_TRIGGER_STAGES d =
           d\<lparr>trigger_mask := [0, 0, 0, 0], trigger_value := [0, 0, 0, 0]\<rparr>"
  using assms
  by (simp add: NUM_TRIGGER_STAGES_def eval_nat_numeral Let_def)
     (simp add: list4_update [unfolded eval_nat_numeral, simplified])

lemma trigger_chars_store:
  "stage \<le> NUM_TRIGGER_STAGES \<Longrightarrow>
   configure_trigger_chars cb tcs stage d = Store_past_array \<longleftrightarrow>
     stage + length tcs > NUM_TRIGGER_STAGES"
  by (induction tcs arbitrary: stage d) (auto simp add: Let_def NUM_TRIGGER_STAGES_def)

lemma trigger_chars_no_return:
  "configure_trigger_chars cb tcs stage d \<noteq> Returns_SR_ERR"
  by (induction tcs arbitrary: stage d) (auto simp add: Let_def NUM_TRIGGER_STAGES_def)

lemma trigger_chars_Some:
  assumes "configure_trigger_chars cb tcs stage d = Configured (d', st')"
  shows "st' = stage + length tcs \<and>
         d' = d\<lparr>trigger_mask := trigger_mask d', trigger_value := trigger_value d'\<rparr> \<and>
         length (trigger_mask d') = length (trigger_mask d) \<and>
         length (trigger_value d') = length (trigger_value d) \<and>
         (\<forall>s < length (trigger_mask d). trigger_mask d' ! s =
            (if stage \<le> s \<and> s < stage + length tcs then trigger_mask d ! s OR cb
             else trigger_mask d ! s)) \<and>
         (\<forall>s < length (trigger_value d). trigger_value d' ! s =
            (if stage \<le> s \<and> s < stage + length tcs \<and> tcs ! (s - stage) = CHR ''1''
             then trigger_value d ! s OR cb else trigger_value d ! s))"
  using assms
proof (induction tcs arbitrary: stage d)
  case Nil
  then show ?case by auto
next
  case (Cons tc tcs)
  let ?d1 = "d\<lparr>trigger_mask := (trigger_mask d)[stage := trigger_mask d ! stage OR cb]\<rparr>"
  let ?d2 = "if tc = CHR ''1''
             then ?d1\<lparr>trigger_value := (trigger_value ?d1)[stage := trigger_value ?d1 ! stage OR cb]\<rparr>
             else ?d1"
  from Cons.prems have r: "configure_trigger_chars cb tcs (stage + 1) ?d2 = Configured (d', st')"
    by (simp add: Let_def split: if_splits)
  note IH = Cons.IH [OF r]
  have m: "trigger_mask ?d2 = (trigger_mask d)[stage := trigger_mask d ! stage OR cb]"
    and v: "trigger_value ?d2 = (if tc = CHR ''1''
              then (trigger_value d)[stage := trigger_value d ! stage OR cb]
              else trigger_value d)"
    by simp_all
  have f: "d' = d\<lparr>trigger_mask := trigger_mask d', trigger_value := trigger_value d'\<rparr>"
    by (subst IH [THEN conjunct2, THEN conjunct1]) simp
  have lm: "length (trigger_mask d') = length (trigger_mask d)"
    and lv: "length (trigger_value d') = length (trigger_value d)"
    using IH by (simp_all add: m v)
  have mm: "\<forall>s < length (trigger_mask d). trigger_mask d' ! s =
            (if stage \<le> s \<and> s < stage + length (tc # tcs) then trigger_mask d ! s OR cb
             else trigger_mask d ! s)"
  proof (intro allI impI)
    fix s assume s: "s < length (trigger_mask d)"
    have "trigger_mask d' ! s =
            (if stage + 1 \<le> s \<and> s < stage + 1 + length tcs then trigger_mask ?d2 ! s OR cb
             else trigger_mask ?d2 ! s)"
      using IH s by (simp add: m)
    then show "trigger_mask d' ! s =
            (if stage \<le> s \<and> s < stage + length (tc # tcs) then trigger_mask d ! s OR cb
             else trigger_mask d ! s)"
      using s by (cases "s = stage") (auto simp add: m nth_list_update)
  qed
  have vv: "\<forall>s < length (trigger_value d). trigger_value d' ! s =
            (if stage \<le> s \<and> s < stage + length (tc # tcs) \<and> (tc # tcs) ! (s - stage) = CHR ''1''
             then trigger_value d ! s OR cb else trigger_value d ! s)"
  proof (intro allI impI)
    fix s assume s: "s < length (trigger_value d)"
    have "trigger_value d' ! s =
            (if stage + 1 \<le> s \<and> s < stage + 1 + length tcs \<and> tcs ! (s - (stage + 1)) = CHR ''1''
             then trigger_value ?d2 ! s OR cb else trigger_value ?d2 ! s)"
      using IH s by (simp add: v)
    then show "trigger_value d' ! s =
            (if stage \<le> s \<and> s < stage + length (tc # tcs) \<and> (tc # tcs) ! (s - stage) = CHR ''1''
             then trigger_value d ! s OR cb else trigger_value d ! s)"
      using s by (cases "s = stage") (auto simp add: v nth_list_update nth_Cons')
  qed
  from IH f lm lv mm vv show ?case by simp
qed

lemma bit_channel_bit:
  "b < 16 \<Longrightarrow> bit (push_bit i 1 :: 16 word) b \<longleftrightarrow> i = b"
  "b < 16 \<Longrightarrow> bit (2 ^ i :: 16 word) b \<longleftrightarrow> i = b"
  by (auto simp add: bit_exp_iff)

lemma spec_mask_bit_Cons:
  "spec_mask_bit (ch # chs) s b \<longleftrightarrow>
     (ch_enabled ch \<and> ch_index ch = b \<and> (\<exists>tcs. ch_trigger ch = Some tcs \<and> s < length tcs)) \<or>
     spec_mask_bit chs s b"
  by (auto simp add: spec_mask_bit_def)

lemma spec_value_bit_Cons:
  "spec_value_bit (ch # chs) s b \<longleftrightarrow>
     (ch_enabled ch \<and> ch_index ch = b \<and>
      (\<exists>tcs. ch_trigger ch = Some tcs \<and> s < length tcs \<and> tcs ! s = CHR ''1'')) \<or>
     spec_value_bit chs s b"
  by (auto simp add: spec_value_bit_def)

text \<open>The update of \<^verbatim>\<open>sample_wide\<close> that the loop makes for an enabled channel.\<close>

lemma channel_loop_enabled:
  assumes "ch_enabled ch"
  shows "\<exists>wide. configure_channel_loop (ch # chs) stage d =
     (case ch_trigger ch of
        None \<Rightarrow> configure_channel_loop chs stage (d\<lparr>sample_wide := wide\<rparr>)
      | Some tcs \<Rightarrow>
          (case configure_trigger_chars (push_bit (ch_index ch) 1) tcs 0
                  (d\<lparr>sample_wide := wide\<rparr>) of
             Configured (d2, stage') \<Rightarrow> configure_channel_loop chs (int stage') d2
           | Returns_SR_ERR \<Rightarrow> Returns_SR_ERR
           | Store_past_array \<Rightarrow> Store_past_array))"
proof -
  let ?d1 = "(if dslogic d then
                    (if (ch_index ch > 7 \<and> ch_type ch = SR_CHANNEL_LOGIC) \<or>
                        (ch_index ch > 0 \<and> ch_type ch = SR_CHANNEL_ANALOG)
                     then d\<lparr>sample_wide := True\<rparr>
                     else d\<lparr>sample_wide := False\<rparr>)
                  else (if ch_index ch > 7 then d\<lparr>sample_wide := True\<rparr> else d))"
  have "?d1 = d\<lparr>sample_wide := sample_wide ?d1\<rparr>" by simp
  then obtain wide where w: "?d1 = d\<lparr>sample_wide := wide\<rparr>" by blast
  have "configure_channel_loop (ch # chs) stage d =
     (case ch_trigger ch of
        None \<Rightarrow> configure_channel_loop chs stage ?d1
      | Some tcs \<Rightarrow>
          (case configure_trigger_chars (push_bit (ch_index ch) 1) tcs 0 ?d1 of
             Configured (d2, stage') \<Rightarrow> configure_channel_loop chs (int stage') d2
           | Returns_SR_ERR \<Rightarrow> Returns_SR_ERR
           | Store_past_array \<Rightarrow> Store_past_array))"
    using assms by (simp only: configure_channel_loop.simps Let_def simp_thms if_False)
  then show ?thesis unfolding w by blast
qed

lemma channel_loop_outcome:
  "(configure_channel_loop chs stage d = Store_past_array \<longleftrightarrow>
      (\<exists>ch \<in> set chs. ch_enabled ch \<and>
         (\<exists>tcs. ch_trigger ch = Some tcs \<and> length tcs > NUM_TRIGGER_STAGES))) \<and>
   configure_channel_loop chs stage d \<noteq> Returns_SR_ERR"
proof (induction chs arbitrary: stage d)
  case Nil
  show ?case by simp
next
  case (Cons ch chs)
  show ?case
  proof (cases "ch_enabled ch")
    case False
    then show ?thesis by (simp add: Cons.IH)
  next
    case True
    from channel_loop_enabled [OF True, of chs stage d] obtain wide where
      r: "configure_channel_loop (ch # chs) stage d =
     (case ch_trigger ch of
        None \<Rightarrow> configure_channel_loop chs stage (d\<lparr>sample_wide := wide\<rparr>)
      | Some tcs \<Rightarrow>
          (case configure_trigger_chars (push_bit (ch_index ch) 1) tcs 0
                  (d\<lparr>sample_wide := wide\<rparr>) of
             Configured (d2, stage') \<Rightarrow> configure_channel_loop chs (int stage') d2
           | Returns_SR_ERR \<Rightarrow> Returns_SR_ERR
           | Store_past_array \<Rightarrow> Store_past_array))"
      by blast
    show ?thesis
    proof (cases "ch_trigger ch")
      case None
      then show ?thesis using True
        by (simp add: r Cons.IH del: configure_channel_loop.simps)
    next
      case (Some tcs)
      show ?thesis
      proof (cases "configure_trigger_chars (push_bit (ch_index ch) 1) tcs 0
                      (d\<lparr>sample_wide := wide\<rparr>)")
        case Store_past_array
        then have "length tcs > NUM_TRIGGER_STAGES"
          by (simp add: trigger_chars_store)
        then show ?thesis using True Some Store_past_array
          by (auto simp add: r simp del: configure_channel_loop.simps)
      next
        case Returns_SR_ERR
        then show ?thesis by (simp add: trigger_chars_no_return)
      next
        case (Configured p)
        obtain d2 st where p: "p = (d2, st)" by (cases p)
        from Configured have "\<not> length tcs > NUM_TRIGGER_STAGES"
          using trigger_chars_store [of 0 "push_bit (ch_index ch) 1" tcs "d\<lparr>sample_wide := wide\<rparr>"]
          by simp
        then show ?thesis using True \<open>ch_trigger ch = Some tcs\<close> Configured p
          by (auto simp add: r Cons.IH simp del: configure_channel_loop.simps)
      qed
    qed
  qed
qed

lemma channel_loop_Configured:
  assumes "configure_channel_loop chs stage d = Configured (d', st')"
    and "length (trigger_mask d) = 4" and "length (trigger_value d) = 4"
  shows "(st' = - 1 \<longleftrightarrow>
            stage = - 1 \<and> \<not> (\<exists>ch \<in> set chs. ch_enabled ch \<and> ch_trigger ch \<noteq> None)) \<and>
         length (trigger_mask d') = 4 \<and> length (trigger_value d') = 4 \<and>
         (\<forall>s < 4. \<forall>b < 16.
            (bit (trigger_mask d' ! s) b \<longleftrightarrow>
               bit (trigger_mask d ! s) b \<or> spec_mask_bit chs s b) \<and>
            (bit (trigger_value d' ! s) b \<longleftrightarrow>
               bit (trigger_value d ! s) b \<or> spec_value_bit chs s b))"
  using assms
proof (induction chs arbitrary: stage d)
  case Nil
  then show ?case by (auto simp add: spec_mask_bit_def spec_value_bit_def)
next
  case (Cons ch chs)
  show ?case
  proof (cases "ch_enabled ch")
    case False
    with Cons.prems have "configure_channel_loop chs stage d = Configured (d', st')" by simp
    from Cons.IH [OF this Cons.prems(2,3)] False show ?thesis
      by (simp add: spec_mask_bit_Cons spec_value_bit_Cons)
  next
    case True
    from channel_loop_enabled [OF True, of chs stage d] obtain wide where
      r: "configure_channel_loop (ch # chs) stage d =
     (case ch_trigger ch of
        None \<Rightarrow> configure_channel_loop chs stage (d\<lparr>sample_wide := wide\<rparr>)
      | Some tcs \<Rightarrow>
          (case configure_trigger_chars (push_bit (ch_index ch) 1) tcs 0
                  (d\<lparr>sample_wide := wide\<rparr>) of
             Configured (d2, stage') \<Rightarrow> configure_channel_loop chs (int stage') d2
           | Returns_SR_ERR \<Rightarrow> Returns_SR_ERR
           | Store_past_array \<Rightarrow> Store_past_array))"
      by blast
    let ?d1 = "d\<lparr>sample_wide := wide\<rparr>"
    show ?thesis
    proof (cases "ch_trigger ch")
      case None
      with Cons.prems(1) have "configure_channel_loop chs stage ?d1 = Configured (d', st')"
        by (simp add: r del: configure_channel_loop.simps)
      from Cons.IH [OF this] Cons.prems(2,3) None show ?thesis
        by (simp add: spec_mask_bit_Cons spec_value_bit_Cons)
    next
      case (Some tcs)
      from Cons.prems(1) obtain d2 st2 where
        c: "configure_trigger_chars (push_bit (ch_index ch) 1) tcs 0 ?d1 = Configured (d2, st2)"
        and l: "configure_channel_loop chs (int st2) d2 = Configured (d', st')"
        by (auto simp add: r Some simp del: configure_channel_loop.simps
              split: configure_outcome.splits)
      note C = trigger_chars_Some [OF c]
      have len2: "length (trigger_mask d2) = 4" "length (trigger_value d2) = 4"
        using C Cons.prems(2,3) by simp_all
      have lt: "length tcs \<le> 4"
        using trigger_chars_store [of 0 "push_bit (ch_index ch) 1" tcs ?d1] c
        by (simp add: NUM_TRIGGER_STAGES_def)
      have m2: "trigger_mask d2 ! s =
                  (if s < length tcs then trigger_mask d ! s OR push_bit (ch_index ch) 1
                   else trigger_mask d ! s)" if "s < 4" for s
        using C Cons.prems(2) that by simp
      have v2: "trigger_value d2 ! s =
                  (if s < length tcs \<and> tcs ! s = CHR ''1''
                   then trigger_value d ! s OR push_bit (ch_index ch) 1
                   else trigger_value d ! s)" if "s < 4" for s
        using C Cons.prems(3) that by simp
      note IH = Cons.IH [OF l len2]
      have stage: "st' = - 1 \<longleftrightarrow>
            stage = - 1 \<and> \<not> (\<exists>c \<in> set (ch # chs). ch_enabled c \<and> ch_trigger c \<noteq> None)"
        using IH True Some by auto
      have bits: "(bit (trigger_mask d' ! s) b \<longleftrightarrow>
               bit (trigger_mask d ! s) b \<or> spec_mask_bit (ch # chs) s b) \<and>
            (bit (trigger_value d' ! s) b \<longleftrightarrow>
               bit (trigger_value d ! s) b \<or> spec_value_bit (ch # chs) s b)"
        if "s < 4" "b < 16" for s b
      proof -
        from IH that have
          a: "bit (trigger_mask d' ! s) b \<longleftrightarrow> bit (trigger_mask d2 ! s) b \<or> spec_mask_bit chs s b"
          and b: "bit (trigger_value d' ! s) b \<longleftrightarrow>
                    bit (trigger_value d2 ! s) b \<or> spec_value_bit chs s b"
          by simp_all
        show ?thesis
          unfolding a b m2 [OF that(1)] v2 [OF that(1)] spec_mask_bit_Cons spec_value_bit_Cons
          using True Some that(2)
          by (auto simp add: bit_or_iff bit_channel_bit)
      qed
      from stage bits IH show ?thesis by simp
    qed
  qed
qed

lemma configure_channels_outcome:
  "(fx2lafw_configure_channels d chs = Store_past_array \<longleftrightarrow>
      (\<exists>ch \<in> set chs. ch_enabled ch \<and>
         (\<exists>tcs. ch_trigger ch = Some tcs \<and> length tcs > NUM_TRIGGER_STAGES))) \<and>
   fx2lafw_configure_channels d chs \<noteq> Returns_SR_ERR"
  using channel_loop_outcome [of chs "- 1" "clear_triggers NUM_TRIGGER_STAGES d"]
  by (auto simp add: fx2lafw_configure_channels_def split: configure_outcome.splits)

lemma example_configure:
  "fx2lafw_configure_channels example_devc example_channels =
     Configured (example_devc\<lparr>trigger_mask := [9, 1, 0, 0], trigger_value := [9, 0, 0, 0],
                              trigger_stage := 0\<rparr>)"
  "fx2lafw_configure_channels example_devc example_channels_long = Store_past_array"
  by (simp_all add: fx2lafw_configure_channels_def NUM_TRIGGER_STAGES_def eval_nat_numeral
        Let_def example_channels_def example_channels_long_def example_devc_fields)

text \<open>
  Property X3, the part of claim C9 that is about the strings that fit. When no
  enabled channel has a trigger string of more than \<^verbatim>\<open>NUM_TRIGGER_STAGES\<close> characters,
  \<^verbatim>\<open>fx2lafw_configure_channels\<close> returns \<^verbatim>\<open>SR_OK\<close>, and only then. It leaves
  \<^verbatim>\<open>trigger_stage\<close> at 0 when some enabled channel has a trigger string and at
  \<^verbatim>\<open>TRIGGER_FIRED\<close> when none has; and the mask and value words hold exactly the bits
  that the trigger strings of the enabled channels put there, so they were all
  cleared before the channels were read.
\<close>

theorem configure_channels_fitting:
  assumes "length (trigger_mask d) = NUM_TRIGGER_STAGES"
    and "length (trigger_value d) = NUM_TRIGGER_STAGES"
  shows
    "((\<exists>d'. fx2lafw_configure_channels d chs = Configured d') \<longleftrightarrow>
        \<not> (\<exists>ch \<in> set chs. ch_enabled ch \<and>
             (\<exists>tcs. ch_trigger ch = Some tcs \<and> length tcs > NUM_TRIGGER_STAGES))) \<and>
     (\<forall>d'. fx2lafw_configure_channels d chs = Configured d' \<longrightarrow>
        trigger_stage d' =
          (if \<exists>ch \<in> set chs. ch_enabled ch \<and> ch_trigger ch \<noteq> None then 0 else TRIGGER_FIRED) \<and>
        (\<forall>s < NUM_TRIGGER_STAGES. \<forall>b < 16.
           (bit (trigger_mask d' ! s) b \<longleftrightarrow> spec_mask_bit chs s b) \<and>
           (bit (trigger_value d' ! s) b \<longleftrightarrow> spec_value_bit chs s b)))"
proof -
  let ?d0 = "d\<lparr>trigger_mask := [0, 0, 0, 0], trigger_value := [0, 0, 0, 0]\<rparr>"
  let ?long = "\<exists>ch \<in> set chs. ch_enabled ch \<and>
             (\<exists>tcs. ch_trigger ch = Some tcs \<and> length tcs > NUM_TRIGGER_STAGES)"
  have len: "length (trigger_mask d) = 4" "length (trigger_value d) = 4"
    using assms by (simp_all add: NUM_TRIGGER_STAGES_def)
  have c: "clear_triggers NUM_TRIGGER_STAGES d = ?d0"
    by (rule clear_triggers_all [OF len])
  have r: "fx2lafw_configure_channels d chs =
     (case configure_channel_loop chs (- 1) ?d0 of
        Configured (d1, stage) \<Rightarrow>
          Configured (if stage = - 1 then d1\<lparr>trigger_stage := TRIGGER_FIRED\<rparr>
                      else d1\<lparr>trigger_stage := 0\<rparr>)
      | Returns_SR_ERR \<Rightarrow> Returns_SR_ERR
      | Store_past_array \<Rightarrow> Store_past_array)"
    by (simp only: fx2lafw_configure_channels_def c)
  note o = configure_channels_outcome [of d chs]
  have first: "(\<exists>d'. fx2lafw_configure_channels d chs = Configured d') \<longleftrightarrow> \<not> ?long"
    using o by (cases "fx2lafw_configure_channels d chs") auto
  have second: "trigger_stage d' =
          (if \<exists>ch \<in> set chs. ch_enabled ch \<and> ch_trigger ch \<noteq> None then 0 else TRIGGER_FIRED) \<and>
        (\<forall>s < NUM_TRIGGER_STAGES. \<forall>b < 16.
           (bit (trigger_mask d' ! s) b \<longleftrightarrow> spec_mask_bit chs s b) \<and>
           (bit (trigger_value d' ! s) b \<longleftrightarrow> spec_value_bit chs s b))"
    if ok: "fx2lafw_configure_channels d chs = Configured d'" for d'
  proof -
    from ok obtain d1 st where l: "configure_channel_loop chs (- 1) ?d0 = Configured (d1, st)"
      and res: "d' = (if st = - 1 then d1\<lparr>trigger_stage := TRIGGER_FIRED\<rparr>
                      else d1\<lparr>trigger_stage := 0\<rparr>)"
      by (auto simp add: r split: configure_outcome.splits)
    have z: "\<not> bit (trigger_mask ?d0 ! s) b" "\<not> bit (trigger_value ?d0 ! s) b"
      if "s < 4" for s b
      using that by (simp_all add: nth_Cons')
    have L: "(st = - 1 \<longleftrightarrow> \<not> (\<exists>ch \<in> set chs. ch_enabled ch \<and> ch_trigger ch \<noteq> None)) \<and>
         (\<forall>s < 4. \<forall>b < 16.
            (bit (trigger_mask d1 ! s) b \<longleftrightarrow> spec_mask_bit chs s b) \<and>
            (bit (trigger_value d1 ! s) b \<longleftrightarrow> spec_value_bit chs s b))"
      using channel_loop_Configured [OF l] z by simp
    show ?thesis
      unfolding res using L by (auto simp add: NUM_TRIGGER_STAGES_def)
  qed
  from first second show ?thesis by blast
qed

theorem configure_channels_fitting_witness:
  "length (trigger_mask example_devc) = NUM_TRIGGER_STAGES \<and>
   length (trigger_value example_devc) = NUM_TRIGGER_STAGES \<and>
   fx2lafw_configure_channels example_devc example_channels =
     Configured (example_devc\<lparr>trigger_mask := [9, 1, 0, 0], trigger_value := [9, 0, 0, 0],
                              trigger_stage := 0\<rparr>) \<and>
   \<not> (\<exists>ch \<in> set example_channels. ch_enabled ch \<and>
        (\<exists>tcs. ch_trigger ch = Some tcs \<and> length tcs > NUM_TRIGGER_STAGES)) \<and>
   (\<exists>ch \<in> set example_channels. ch_enabled ch \<and> ch_trigger ch \<noteq> None) \<and>
   spec_mask_bit example_channels 0 3 \<and> \<not> spec_value_bit example_channels 1 0"
proof -
  have len: "length (trigger_mask example_devc) = NUM_TRIGGER_STAGES"
    "length (trigger_value example_devc) = NUM_TRIGGER_STAGES"
    by (simp_all add: example_devc_fields NUM_TRIGGER_STAGES_def)
  note t = configure_channels_fitting [OF len, of example_channels]
  have fit: "\<not> (\<exists>ch \<in> set example_channels. ch_enabled ch \<and>
        (\<exists>tcs. ch_trigger ch = Some tcs \<and> length tcs > NUM_TRIGGER_STAGES))"
    using t [THEN conjunct1] example_configure(1) by blast
  note ok = t [THEN conjunct2, rule_format, OF example_configure(1)]
  have b: "spec_mask_bit example_channels 0 3" "\<not> spec_value_bit example_channels 1 0"
    using ok [THEN conjunct2, rule_format, of 0 3] ok [THEN conjunct2, rule_format, of 1 0]
    by (simp_all add: NUM_TRIGGER_STAGES_def)
  have e: "\<exists>ch \<in> set example_channels. ch_enabled ch \<and> ch_trigger ch \<noteq> None"
    by (simp add: example_channels_def)
  from len example_configure(1) fit e b show ?thesis by blast
qed

text \<open>
  Claim C9 says that \<^verbatim>\<open>fx2lafw_configure_channels\<close> returns \<^verbatim>\<open>SR_ERR\<close> when an enabled
  channel has a trigger string of more than \<^verbatim>\<open>NUM_TRIGGER_STAGES\<close> characters. With the
  five characters \<open>10101\<close> on channel 3 the fifth is stored at index 4 of
  \<^verbatim>\<open>trigger_mask\<close> and \<^verbatim>\<open>trigger_value\<close>, past the arrays, before \<^verbatim>\<open>stage\<close> is compared
  with \<^verbatim>\<open>NUM_TRIGGER_STAGES\<close>; and no call reaches \<^verbatim>\<open>return SR_ERR\<close> without that
  store, since the comparison is \<^verbatim>\<open>stage > NUM_TRIGGER_STAGES\<close> after the increment.
\<close>

theorem configure_channels_stores_past_arrays:
  "fx2lafw_configure_channels example_devc example_channels_long = Store_past_array \<and>
   fx2lafw_configure_channels d chs \<noteq> Returns_SR_ERR"
  using configure_channels_outcome [of d chs] example_configure(2) by blast


subsection \<open>Releasing transfers and the end of the acquisition\<close>

lemma dslogic_sizing_1mhz:
  assumes "cur_samplerate d = SR_MHZ 1" and "dslogic d" and "\<not> sample_wide d"
  shows "fx2lafw_get_number_of_transfers d = Some 9"
    and "fx2lafw_get_timeout d = Some 1000"
proof -
  have b: "to_bytes_per_ms d = 1000" using assms by (simp add: to_bytes_per_ms_def SR_MHZ_def)
  have s: "fx2lafw_get_buffer_size d = 10240"
    by (simp add: fx2lafw_get_buffer_size_def b)
  show "fx2lafw_get_number_of_transfers d = Some 9"
    using assms(2) by (simp add: fx2lafw_get_number_of_transfers_def s b NUM_SIMUL_TRANSFERS_def)
  show "fx2lafw_get_timeout d = Some 1000"
    using assms(2) by (simp add: fx2lafw_get_timeout_def)
qed

lemma submit_nine_transfers:
  "transfers d = replicate 9 None \<Longrightarrow>
   submit_transfers (\<lambda>i. Submitted (Suc i)) 9 9 d =
     Inr (d\<lparr>events := events d @
                 [Submit_transfer 1 True, Submit_transfer 2 True, Submit_transfer 3 True,
                  Submit_transfer 4 True, Submit_transfer 5 True, Submit_transfer 6 True,
                  Submit_transfer 7 True, Submit_transfer 8 True, Submit_transfer 9 True],
            transfers := [Some 1, Some 2, Some 3, Some 4, Some 5, Some 6, Some 7, Some 8, Some 9],
            submitted_transfers := submitted_transfers d + 9\<rparr>)"
  by (simp add: eval_nat_numeral)

lemma example_dslogic_fields:
  "num_samples example_dslogic_devc = 0" "dslogic_status example_dslogic_devc = DSLOGIC_START"
  "submitted_transfers example_dslogic_devc = 1" "dslogic example_dslogic_devc"
  "num_transfers example_dslogic_devc = 1" "transfers example_dslogic_devc = [Some 100]"
  "events example_dslogic_devc = [Session_send SR_DF_HEADER]"
  "cur_samplerate example_dslogic_devc = SR_MHZ 1" "\<not> sample_wide example_dslogic_devc"
  by (simp_all add: example_dslogic_devc_def)

lemma example_dslogic_free:
  "fx2lafw_free_transfer
     (session_send (SR_DF_TRIGGER (Some bs)) example_dslogic_devc
        \<lparr>dslogic_status := DSLOGIC_TRIGGERED\<rparr>) 100 =
   example_dslogic_devc
     \<lparr>submitted_transfers := 0, num_transfers := 0, transfers := [],
       dslogic_status := DSLOGIC_TRIGGERED,
       events := [Session_send SR_DF_HEADER, Session_send (SR_DF_TRIGGER (Some bs)),
                  Free_transfer 100, Session_send SR_DF_END, Usb_source_remove,
                  Free_transfers_array]\<rparr>"
  by (simp add: fx2lafw_free_transfer_def finish_acquisition_def session_send_def Let_def
      transfer_slot_def example_dslogic_fields)

lemma example_dslogic_triggered:
  "dslogic_receive_trigger_pos example_dslogic_devc example_trigger_pos_transfer True
       (\<lambda>i. Submitted (Suc i)) =
   Some (example_dslogic_devc
          \<lparr>submitted_transfers := 9, num_transfers := 9,
            transfers := [Some 1, Some 2, Some 3, Some 4, Some 5, Some 6, Some 7, Some 8, Some 9],
            dslogic_status := DSLOGIC_DATA,
            events := [Session_send SR_DF_HEADER,
                       Session_send (SR_DF_TRIGGER (Some [0, 0, 0, 0, 0, 0, 0, 0])),
                       Free_transfer 100, Session_send SR_DF_END, Usb_source_remove,
                       Free_transfers_array,
                       Submit_transfer 1 True, Submit_transfer 2 True, Submit_transfer 3 True,
                       Submit_transfer 4 True, Submit_transfer 5 True, Submit_transfer 6 True,
                       Submit_transfer 7 True, Submit_transfer 8 True, Submit_transfer 9 True]\<rparr>)"
  by (simp add: dslogic_receive_trigger_pos_def example_trigger_pos_transfer_def
      example_dslogic_free dev_transfer_start_def dslogic_sizing_1mhz example_dslogic_fields
      submit_nine_transfers Let_def)

lemma teardown_drains:
  "num_samples d = - 1 \<Longrightarrow> submitted_transfers d = int (length ts) \<Longrightarrow> ts \<noteq> [] \<Longrightarrow>
   sent_packets (events (deliver_transfers d ts)) = sent_packets (events d) @ [SR_DF_END] \<and>
   submitted_transfers (deliver_transfers d ts) = 0"
proof (induction ts arbitrary: d)
  case Nil
  then show ?case by simp
next
  case (Cons t ts)
  let ?d = "fx2lafw_free_transfer d (tid t)"
  have step: "deliver_transfers d (t # ts) = deliver_transfers ?d ts"
    using Cons.prems(1) by (simp add: receive_transfer_late)
  show ?case
  proof (cases "ts = []")
    case True
    then show ?thesis
      using Cons.prems
      by (simp add: receive_transfer_late free_transfer_packets free_transfer_fields)
  next
    case False
    have "sent_packets (events (deliver_transfers ?d ts)) = sent_packets (events ?d) @ [SR_DF_END] \<and>
          submitted_transfers (deliver_transfers ?d ts) = 0"
      using Cons.prems False by (intro Cons.IH) (simp_all add: free_transfer_fields)
    moreover have "sent_packets (events ?d) = sent_packets (events d)"
      using Cons.prems False by (simp add: free_transfer_packets)
    ultimately show ?thesis unfolding step by simp
  qed
qed

lemma clear_transfer_slot_first:
  assumes "i < num_transfers d" and "num_transfers d - k \<le> i"
    and "transfer_slot d i = Some t"
    and "\<forall>j. num_transfers d - k \<le> j \<and> j < i \<longrightarrow> transfer_slot d j \<noteq> Some t"
  shows "transfers (clear_transfer_slot t k d) = (transfers d)[i := None]"
  using assms
proof (induction k)
  case 0
  then show ?case by simp
next
  case (Suc k)
  let ?j = "num_transfers d - Suc k"
  show ?case
  proof (cases "transfer_slot d ?j = Some t")
    case True
    have "?j = i"
    proof (rule ccontr)
      assume "?j \<noteq> i"
      then have "?j < i" using Suc.prems(2) by simp
      then show False using Suc.prems(4) True by blast
    qed
    then show ?thesis using True by (simp add: Let_def)
  next
    case False
    have ne: "?j \<noteq> i" using False Suc.prems(3) by auto
    have "transfers (clear_transfer_slot t k d) = (transfers d)[i := None]"
    proof (rule Suc.IH)
      show "i < num_transfers d" by (rule Suc.prems(1))
      show "num_transfers d - k \<le> i" using ne Suc.prems(2) by simp
      show "transfer_slot d i = Some t" by (rule Suc.prems(3))
      show "\<forall>j. num_transfers d - k \<le> j \<and> j < i \<longrightarrow> transfer_slot d j \<noteq> Some t"
        using Suc.prems(4) by auto
    qed
    then show ?thesis using False by (simp add: Let_def)
  qed
qed

lemma free_transfer_slot:
  assumes "i < num_transfers d" and "i < length (transfers d)" and "transfers d ! i = Some t"
    and "\<forall>j < i. transfers d ! j \<noteq> Some t"
  shows "transfers (fx2lafw_free_transfer d t) =
           (if submitted_transfers d = 1 then [] else (transfers d)[i := None])"
proof -
  let ?d = "d\<lparr>events := events d @ [Free_transfer t]\<rparr>"
  have "transfers (clear_transfer_slot t (num_transfers ?d) ?d) = (transfers ?d)[i := None]"
  proof (rule clear_transfer_slot_first)
    show "i < num_transfers ?d" using assms(1) by simp
    show "num_transfers ?d - num_transfers ?d \<le> i" by simp
    show "transfer_slot ?d i = Some t" using assms(2,3) by (simp add: transfer_slot_def)
    show "\<forall>j. num_transfers ?d - num_transfers ?d \<le> j \<and> j < i \<longrightarrow> transfer_slot ?d j \<noteq> Some t"
      using assms(2,4) by (simp add: transfer_slot_def)
  qed
  then show ?thesis
    by (simp add: fx2lafw_free_transfer_def finish_acquisition_def session_send_def Let_def
        clear_transfer_slot_fields)
qed

lemma free_transfer_num_transfers:
  "num_transfers (fx2lafw_free_transfer d t) =
     (if submitted_transfers d = 1 then 0 else num_transfers d)"
  by (simp add: fx2lafw_free_transfer_def finish_acquisition_def session_send_def Let_def
      clear_transfer_slot_fields)

lemma teardown_counter:
  "num_samples d = - 1 \<Longrightarrow>
   submitted_transfers (deliver_transfers d ts) = submitted_transfers d - int (length ts)"
  by (induction ts arbitrary: d) (simp_all add: receive_transfer_late free_transfer_fields)

lemma teardown_events:
  "num_samples d = - 1 \<Longrightarrow> submitted_transfers d = int (length ts) \<Longrightarrow> ts \<noteq> [] \<Longrightarrow>
   events (deliver_transfers d ts) =
     events d @ map (\<lambda>t. Free_transfer (tid t)) ts @
       [Session_send SR_DF_END, Usb_source_remove, Free_transfers_array]"
proof (induction ts arbitrary: d)
  case Nil
  then show ?case by simp
next
  case (Cons t ts)
  let ?d = "fx2lafw_free_transfer d (tid t)"
  have step: "deliver_transfers d (t # ts) = deliver_transfers ?d ts"
    using Cons.prems(1) by (simp add: receive_transfer_late)
  show ?case
  proof (cases "ts = []")
    case True
    then show ?thesis
      using Cons.prems
      by (simp add: receive_transfer_late free_transfer_events)
  next
    case False
    have "events (deliver_transfers ?d ts) =
            events ?d @ map (\<lambda>t. Free_transfer (tid t)) ts @
              [Session_send SR_DF_END, Usb_source_remove, Free_transfers_array]"
      using Cons.prems False by (intro Cons.IH) (simp_all add: free_transfer_fields)
    moreover have "events ?d = events d @ [Free_transfer (tid t)]"
      using Cons.prems False by (simp add: free_transfer_events)
    ultimately show ?thesis unfolding step by simp
  qed
qed

text \<open>
  Property X1, the part of claim C2 that is about one call. \<^verbatim>\<open>fx2lafw_free_transfer\<close>
  releases the transfer and takes one from \<^verbatim>\<open>submitted_transfers\<close>. When that was the
  last transfer in flight, and only then, it sends one \<^verbatim>\<open>SR_DF_END\<close> packet, removes
  the USB source, frees the array of transfers and sets \<^verbatim>\<open>num_transfers\<close> to 0.
  Otherwise the first slot below \<^verbatim>\<open>num_transfers\<close> that holds the transfer is set to
  \<^verbatim>\<open>NULL\<close>.
\<close>

theorem free_transfer_call:
  "submitted_transfers (fx2lafw_free_transfer d t) = submitted_transfers d - 1 \<and>
   events (fx2lafw_free_transfer d t) =
     events d @ [Free_transfer t] @
       (if submitted_transfers d = 1
        then [Session_send SR_DF_END, Usb_source_remove, Free_transfers_array] else []) \<and>
   num_transfers (fx2lafw_free_transfer d t) =
     (if submitted_transfers d = 1 then 0 else num_transfers d) \<and>
   (\<forall>i. i < num_transfers d \<and> i < length (transfers d) \<and> transfers d ! i = Some t \<and>
        (\<forall>j < i. transfers d ! j \<noteq> Some t) \<longrightarrow>
        transfers (fx2lafw_free_transfer d t) =
          (if submitted_transfers d = 1 then [] else (transfers d)[i := None]))"
  using free_transfer_slot [of _ d t]
  by (simp only: free_transfer_fields free_transfer_events free_transfer_num_transfers) blast

theorem free_transfer_call_witness:
  "(1::nat) < num_transfers example_devc \<and> 1 < length (transfers example_devc) \<and>
   transfers example_devc ! 1 = Some 2 \<and> transfers example_devc ! 0 \<noteq> Some 2 \<and>
   submitted_transfers (fx2lafw_free_transfer example_devc 2) = 2 \<and>
   events (fx2lafw_free_transfer example_devc 2) = [Free_transfer 2] \<and>
   num_transfers (fx2lafw_free_transfer example_devc 2) = 3 \<and>
   transfers (fx2lafw_free_transfer example_devc 2) = [Some 1, None, Some 3]"
proof -
  have f: "(1::nat) < num_transfers example_devc" "1 < length (transfers example_devc)"
    "transfers example_devc ! 1 = Some 2" "transfers example_devc ! 0 \<noteq> Some 2"
    "\<forall>j < 1. transfers example_devc ! j \<noteq> Some 2"
    by (simp_all add: example_devc_fields)
  note c = free_transfer_call [of example_devc 2]
  have "transfers (fx2lafw_free_transfer example_devc 2) =
          (if submitted_transfers example_devc = 1 then [] else (transfers example_devc)[1 := None])"
    using c [THEN conjunct2, THEN conjunct2, THEN conjunct2, rule_format, of 1] f by blast
  then show ?thesis
    using c f(1-4) by (simp add: example_devc_fields)
qed

text \<open>
  Property X2, the part of claim C2 that is about the teardown. After
  \<^verbatim>\<open>fx2lafw_abort_acquisition\<close>, when each of the transfers in flight is delivered once
  to \<^verbatim>\<open>fx2lafw_receive_transfer\<close>, every callback only releases its transfer,
  \<^verbatim>\<open>submitted_transfers\<close> goes down by one with each of them, and the last one sends
  the one \<^verbatim>\<open>SR_DF_END\<close> packet, removes the USB source and frees the array.
\<close>

theorem abort_teardown_end_once:
  assumes "submitted_transfers d = int (length ts)" and "ts \<noteq> []"
  shows "events (deliver_transfers (fx2lafw_abort_acquisition d) ts) =
           events (fx2lafw_abort_acquisition d) @ map (\<lambda>t. Free_transfer (tid t)) ts @
             [Session_send SR_DF_END, Usb_source_remove, Free_transfers_array] \<and>
         sent_packets (events (deliver_transfers (fx2lafw_abort_acquisition d) ts)) =
           sent_packets (events d) @ [SR_DF_END] \<and>
         (\<forall>k \<le> length ts.
            submitted_transfers (deliver_transfers (fx2lafw_abort_acquisition d) (take k ts)) =
              int (length ts) - int k)"
proof -
  let ?a = "fx2lafw_abort_acquisition d"
  have n: "num_samples ?a = - 1" and s: "submitted_transfers ?a = int (length ts)"
    using assms by (simp_all add: abort_fields)
  have e: "events (deliver_transfers ?a ts) =
           events ?a @ map (\<lambda>t. Free_transfer (tid t)) ts @
             [Session_send SR_DF_END, Usb_source_remove, Free_transfers_array]"
    using n s assms(2) by (rule teardown_events)
  have p: "sent_packets (events (deliver_transfers ?a ts)) = sent_packets (events d) @ [SR_DF_END]"
    using teardown_drains [OF n s assms(2)] by (simp add: abort_packets)
  have c: "submitted_transfers (deliver_transfers ?a (take k ts)) = int (length ts) - int k"
    if "k \<le> length ts" for k
    using that by (simp add: teardown_counter [OF n] s)
  show ?thesis using e p c by blast
qed

theorem abort_teardown_end_once_witness:
  "submitted_transfers example_devc = int (length (map example_cancelled_transfer [3, 2, 1])) \<and>
   map example_cancelled_transfer [3, 2, 1] \<noteq> [] \<and>
   events (deliver_transfers (fx2lafw_abort_acquisition example_devc)
             (map example_cancelled_transfer [3, 2, 1])) =
     [Cancel_transfer 3, Cancel_transfer 2, Cancel_transfer 1,
      Free_transfer 3, Free_transfer 2, Free_transfer 1,
      Session_send SR_DF_END, Usb_source_remove, Free_transfers_array] \<and>
   sent_packets (events (deliver_transfers (fx2lafw_abort_acquisition example_devc)
             (map example_cancelled_transfer [3, 2, 1]))) = [SR_DF_END] \<and>
   submitted_transfers (deliver_transfers (fx2lafw_abort_acquisition example_devc)
             (take 2 (map example_cancelled_transfer [3, 2, 1]))) = 1"
proof -
  let ?ts = "map example_cancelled_transfer [3, 2, 1]"
  have h: "submitted_transfers example_devc = int (length ?ts)" "?ts \<noteq> []"
    by (simp_all add: example_devc_fields)
  have a: "events (fx2lafw_abort_acquisition example_devc) =
             [Cancel_transfer 3, Cancel_transfer 2, Cancel_transfer 1]"
    by (rule example_abort_events) (simp_all add: example_devc_fields)
  have m: "map (\<lambda>t. Free_transfer (tid t)) ?ts = [Free_transfer 3, Free_transfer 2, Free_transfer 1]"
    by (simp add: example_cancelled_transfer_def)
  note t = abort_teardown_end_once [OF h]
  have k: "submitted_transfers (deliver_transfers (fx2lafw_abort_acquisition example_devc)
             (take 2 ?ts)) = int (length ?ts) - int 2"
    using t [THEN conjunct2, THEN conjunct2, rule_format, of 2] by simp
  have e: "events (deliver_transfers (fx2lafw_abort_acquisition example_devc) ?ts) =
     [Cancel_transfer 3, Cancel_transfer 2, Cancel_transfer 1,
      Free_transfer 3, Free_transfer 2, Free_transfer 1,
      Session_send SR_DF_END, Usb_source_remove, Free_transfers_array]"
    using t [THEN conjunct1] by (simp only: a m append.simps)
  have p: "sent_packets (events (deliver_transfers (fx2lafw_abort_acquisition example_devc) ?ts)) =
             [SR_DF_END]"
    using t [THEN conjunct2, THEN conjunct1] by (simp add: example_devc_fields)
  have k': "submitted_transfers (deliver_transfers (fx2lafw_abort_acquisition example_devc)
             (take 2 ?ts)) = 1"
    using k by simp
  show ?thesis
    using h e p k' by blast
qed

text \<open>
  Claim C2 says that \<^verbatim>\<open>SR_DF_END\<close> is emitted exactly once per acquisition. On a DSLogic
  the trigger-position transfer is the only one in flight when it completes, so
  \<^verbatim>\<open>fx2lafw_free_transfer\<close> brings \<^verbatim>\<open>submitted_transfers\<close> to 0 there and, having no
  test for \<^verbatim>\<open>DSLOGIC_TRIGGERED\<close>, sends \<^verbatim>\<open>SR_DF_END\<close> and removes the USB source
  before \<^verbatim>\<open>dev_transfer_start\<close> submits the data transfers. When these are cancelled
  and released, \<^verbatim>\<open>SR_DF_END\<close> is sent a second time.
\<close>

theorem dslogic_end_at_trigger_position:
  "dslogic_receive_trigger_pos example_dslogic_devc example_trigger_pos_transfer True
       (\<lambda>i. Submitted (Suc i)) =
   Some (example_dslogic_devc
          \<lparr>submitted_transfers := 9, num_transfers := 9,
            transfers := [Some 1, Some 2, Some 3, Some 4, Some 5, Some 6, Some 7, Some 8, Some 9],
            dslogic_status := DSLOGIC_DATA,
            events := [Session_send SR_DF_HEADER,
                       Session_send (SR_DF_TRIGGER (Some [0, 0, 0, 0, 0, 0, 0, 0])),
                       Free_transfer 100, Session_send SR_DF_END, Usb_source_remove,
                       Free_transfers_array,
                       Submit_transfer 1 True, Submit_transfer 2 True, Submit_transfer 3 True,
                       Submit_transfer 4 True, Submit_transfer 5 True, Submit_transfer 6 True,
                       Submit_transfer 7 True, Submit_transfer 8 True, Submit_transfer 9 True]\<rparr>) \<and>
   map_option (\<lambda>d. (sent_packets (events d), submitted_transfers d)) example_dslogic_acquisition =
     Some ([SR_DF_HEADER, SR_DF_TRIGGER (Some [0, 0, 0, 0, 0, 0, 0, 0]), SR_DF_END, SR_DF_END], 0)"
proof -
  let ?d = "example_dslogic_devc
          \<lparr>submitted_transfers := 9, num_transfers := 9,
            transfers := [Some 1, Some 2, Some 3, Some 4, Some 5, Some 6, Some 7, Some 8, Some 9],
            dslogic_status := DSLOGIC_DATA,
            events := [Session_send SR_DF_HEADER,
                       Session_send (SR_DF_TRIGGER (Some [0, 0, 0, 0, 0, 0, 0, 0])),
                       Free_transfer 100, Session_send SR_DF_END, Usb_source_remove,
                       Free_transfers_array,
                       Submit_transfer 1 True, Submit_transfer 2 True, Submit_transfer 3 True,
                       Submit_transfer 4 True, Submit_transfer 5 True, Submit_transfer 6 True,
                       Submit_transfer 7 True, Submit_transfer 8 True, Submit_transfer 9 True]\<rparr>"
  let ?ts = "map example_cancelled_transfer [9, 8, 7, 6, 5, 4, 3, 2, 1]"
  have a: "example_dslogic_acquisition = Some (deliver_transfers (fx2lafw_abort_acquisition ?d) ?ts)"
    by (simp only: example_dslogic_acquisition_def example_dslogic_triggered option.case)
  have t: "sent_packets (events (deliver_transfers (fx2lafw_abort_acquisition ?d) ?ts)) =
             sent_packets (events (fx2lafw_abort_acquisition ?d)) @ [SR_DF_END] \<and>
           submitted_transfers (deliver_transfers (fx2lafw_abort_acquisition ?d) ?ts) = 0"
    by (rule teardown_drains) (simp_all add: abort_fields)
  have p: "sent_packets (events (fx2lafw_abort_acquisition ?d)) =
             [SR_DF_HEADER, SR_DF_TRIGGER (Some [0, 0, 0, 0, 0, 0, 0, 0]), SR_DF_END]"
    by (simp add: abort_packets)
  show ?thesis
    using t by (simp only: a example_dslogic_triggered p option.map prod.inject simp_thms append.simps)
qed


end
